(* ===== verification/Prelude.thy ===== *)
theory Prelude
  imports Main "HOL-Library.Word"
begin

text \<open>
  Shared vocabulary of the development: Go errors and panics as values, the shape of a Go
  call with effects on a world, the few functions of Go's \<open>strings\<close>, \<open>fmt\<close> and
  \<open>time\<close> packages that the program uses, and the lemma collections the component
  theories add to.

  A Go call \<open>x, err := f(args)\<close> with effects is an \<open>act\<close>: a function from the world
  to a result and the next world. The result is \<open>Ret x\<close> for \<open>err == nil\<close>,
  \<open>Fail e\<close> for a non-nil error and \<open>Panic s\<close> for a run-time panic, which no
  branch of the program recovers from.
\<close>

named_theorems act_defs "the combinators of effectful calls"
named_theorems safe_intros "calls that keep an invariant and do not panic"
named_theorems world_simps "what an operation leaves unchanged"

section \<open>Errors, results and effectful calls\<close>

text \<open>
  \<open>ErrMsg\<close> is \<open>fmt.Errorf\<close> without a wrapped error, \<open>ErrWrap\<close> is
  \<open>fmt.Errorf("...: %w", err)\<close>, \<open>ErrStatus\<close> is \<open>NitroError\<close> (status, method,
  URL, body). The other constructors are the errors of external services that the code tells
  apart with \<open>k8serr.IsNotFound\<close>, \<open>mongo.IsDuplicateKeyError\<close>, \<open>os.IsNotExist\<close>
  or a comparison, and \<open>ErrExt\<close> is any other error one of them returns.
\<close>

datatype gerror =
    ErrMsg string
  | ErrWrap string gerror
  | ErrStatus int string string string
  | ErrNotFound
  | ErrAlreadyExists
  | ErrDuplicateKey
  | ErrCtx
  | ErrExt string

datatype 'a res = Ret 'a | Fail gerror | Panic string

type_synonym ('w, 'a) act = "'w \<Rightarrow> 'a res \<times> 'w"

definition ret :: "'a \<Rightarrow> ('w, 'a) act" where
  "ret x w = (Ret x, w)"

definition fail :: "gerror \<Rightarrow> ('w, 'a) act" where
  "fail e w = (Fail e, w)"

definition panic :: "string \<Rightarrow> ('w, 'a) act" where
  "panic s w = (Panic s, w)"

text \<open>
  \<open>attempt m h k\<close> is the Go idiom
  \<open>x, err := m(); if err != nil { h(err) } else { k(x) }\<close>; a panic of \<open>m\<close> leaves the
  function.
\<close>

definition attempt ::
  "('w, 'a) act \<Rightarrow> (gerror \<Rightarrow> ('w, 'b) act) \<Rightarrow> ('a \<Rightarrow> ('w, 'b) act) \<Rightarrow> ('w, 'b) act" where
  "attempt m h k w =
     (case m w of
        (Ret x, w') \<Rightarrow> k x w'
      | (Fail e, w') \<Rightarrow> h e w'
      | (Panic s, w') \<Rightarrow> (Panic s, w'))"

text \<open>\<open>bindr\<close>: the error branch returns the error as it is; \<open>wrapr\<close>: it wraps it.\<close>

definition bindr :: "('w, 'a) act \<Rightarrow> ('a \<Rightarrow> ('w, 'b) act) \<Rightarrow> ('w, 'b) act" where
  "bindr m k = attempt m fail k"

definition wrapr :: "string \<Rightarrow> ('w, 'a) act \<Rightarrow> ('a \<Rightarrow> ('w, 'b) act) \<Rightarrow> ('w, 'b) act" where
  "wrapr s m k = attempt m (\<lambda>e. fail (ErrWrap s e)) k"

text \<open>
  A call of a library or a service that is not part of the program returns a value or an
  error; \<open>ext m\<close> is such a call \<open>m\<close> as a call of the program.
\<close>

type_synonym ('w, 'a) svc = "'w \<Rightarrow> (gerror + 'a) \<times> 'w"

definition ext :: "('w, 'a) svc \<Rightarrow> ('w, 'a) act" where
  "ext m w = (case m w of (Inl e, w') \<Rightarrow> (Fail e, w') | (Inr x, w') \<Rightarrow> (Ret x, w'))"

lemmas [act_defs] = ext_def ret_def fail_def panic_def attempt_def bindr_def wrapr_def

lemma attempt_cases [case_names Ret Fail Panic]:
  assumes "attempt m h k w = r"
  obtains x w' where "m w = (Ret x, w')" "k x w' = r"
    | e w' where "m w = (Fail e, w')" "h e w' = r"
    | s w' where "m w = (Panic s, w')" "r = (Panic s, w')"
  using assms by (cases "m w") (auto simp: attempt_def split: res.splits)

lemma bindr_RetD:
  assumes "bindr m k w = (Ret y, w'')"
  obtains x w' where "m w = (Ret x, w')" "k x w' = (Ret y, w'')"
  using assms by (auto simp: act_defs split: prod.splits res.splits)

lemma wrapr_RetD:
  assumes "wrapr s m k w = (Ret y, w'')"
  obtains x w' where "m w = (Ret x, w')" "k x w' = (Ret y, w'')"
  using assms by (auto simp: act_defs split: prod.splits res.splits)

text \<open>Whatever the outcome: either the rest runs after \<open>m\<close>, or the world is the one \<open>m\<close> left.\<close>

lemma bindr_cases [case_names rest stop]:
  assumes "bindr m k w = (y, w'')"
  obtains x w' where "m w = (Ret x, w')" "k x w' = (y, w'')" | x where "m w = (x, w'')"
  using assms by (cases "m w") (auto simp: act_defs split: res.splits)

lemma wrapr_cases [case_names rest stop]:
  assumes "wrapr s m k w = (y, w'')"
  obtains x w' where "m w = (Ret x, w')" "k x w' = (y, w'')" | x where "m w = (x, w'')"
  using assms by (cases "m w") (auto simp: act_defs split: res.splits)

lemma ret_simp [simp]: "ret x w = (Ret x, w)"
  and fail_simp [simp]: "fail e w = (Fail e, w)"
  and panic_simp [simp]: "panic s w = (Panic s, w)"
  by (simp_all add: act_defs)

lemma attempt_Ret [simp]: "m w = (Ret x, w') \<Longrightarrow> attempt m h k w = k x w'"
  and attempt_Fail [simp]: "m w = (Fail e, w') \<Longrightarrow> attempt m h k w = h e w'"
  and attempt_Panic [simp]: "m w = (Panic s, w') \<Longrightarrow> attempt m h k w = (Panic s, w')"
  by (simp_all add: attempt_def)

lemma bindr_Ret [simp]: "m w = (Ret x, w') \<Longrightarrow> bindr m k w = k x w'"
  and bindr_Fail [simp]: "m w = (Fail e, w') \<Longrightarrow> bindr m k w = (Fail e, w')"
  and bindr_Panic [simp]: "m w = (Panic s, w') \<Longrightarrow> bindr m k w = (Panic s, w')"
  by (simp_all add: bindr_def)

lemma wrapr_Ret [simp]: "m w = (Ret x, w') \<Longrightarrow> wrapr c m k w = k x w'"
  and wrapr_Fail [simp]: "m w = (Fail e, w') \<Longrightarrow> wrapr c m k w = (Fail (ErrWrap c e), w')"
  and wrapr_Panic [simp]: "m w = (Panic s, w') \<Longrightarrow> wrapr c m k w = (Panic s, w')"
  by (simp_all add: wrapr_def)

lemma ext_Ret [simp]: "m w = (Inr x, w') \<Longrightarrow> ext m w = (Ret x, w')"
  and ext_Fail [simp]: "m w = (Inl e, w') \<Longrightarrow> ext m w = (Fail e, w')"
  by (simp_all add: ext_def)

lemma ext_RetD: "ext m w = (Ret x, w') \<Longrightarrow> m w = (Inr x, w')"
  and ext_FailD: "ext m w = (Fail e, w') \<Longrightarrow> m w = (Inl e, w')"
  and ext_no_panic [simp]: "ext m w \<noteq> (Panic s, w')" "fst (ext m w) \<noteq> Panic s"
  by (auto simp: ext_def split: prod.splits sum.splits)

text \<open>Calls that never panic.\<close>

definition no_panic :: "('w, 'a) act \<Rightarrow> bool" where
  "no_panic m \<longleftrightarrow> (\<forall>w s. fst (m w) \<noteq> Panic s)"

lemma no_panic_ext [simp]: "no_panic (ext m)"
  and no_panic_ret [simp]: "no_panic (ret x)"
  and no_panic_fail [simp]: "no_panic (fail e)"
  by (simp_all add: no_panic_def)

lemma no_panicD: "no_panic m \<Longrightarrow> m w \<noteq> (Panic s, v)"
  unfolding no_panic_def by (metis fst_conv)

lemma no_panic_attempt:
  assumes "no_panic m" "\<And>e. no_panic (h e)" "\<And>x. no_panic (k x)"
  shows "no_panic (attempt m h k)"
proof -
  have "fst (attempt m h k w) \<noteq> Panic s" for w s
  proof (cases "m w")
    case (Pair r v)
    then show ?thesis
      using no_panicD [OF assms(1), of w] assms(2,3) by (cases r) (auto simp: no_panic_def)
  qed
  then show ?thesis by (simp add: no_panic_def)
qed

lemma no_panic_bindr: "no_panic m \<Longrightarrow> (\<And>x. no_panic (k x)) \<Longrightarrow> no_panic (bindr m k)"
  unfolding bindr_def [abs_def] by (intro no_panic_attempt) simp_all

lemma no_panic_wrapr: "no_panic m \<Longrightarrow> (\<And>x. no_panic (k x)) \<Longrightarrow> no_panic (wrapr c m k)"
  unfolding wrapr_def [abs_def] by (intro no_panic_attempt) simp_all

lemmas no_panic_intros = no_panic_attempt no_panic_bindr no_panic_wrapr

text \<open>
  \<open>safe J Q m\<close>: from a world that satisfies \<open>J\<close> the call \<open>m\<close> does not panic and, however it
  ends, the next world satisfies \<open>J\<close>; a value that it returns satisfies \<open>Q\<close>. The rules follow the
  combinators, so that a handler is safe when the calls it makes are.
\<close>

definition safe :: "('w \<Rightarrow> bool) \<Rightarrow> ('a \<Rightarrow> bool) \<Rightarrow> ('w, 'a) act \<Rightarrow> bool" where
  "safe J Q m \<longleftrightarrow> (\<forall>w x w'. J w \<longrightarrow> m w = (x, w') \<longrightarrow>
     J w' \<and> (\<forall>s. x \<noteq> Panic s) \<and> (\<forall>v. x = Ret v \<longrightarrow> Q v))"

lemma safeI:
  assumes "\<And>w x w'. J w \<Longrightarrow> m w = (x, w') \<Longrightarrow> J w' \<and> (\<forall>s. x \<noteq> Panic s) \<and> (\<forall>v. x = Ret v \<longrightarrow> Q v)"
  shows "safe J Q m"
  using assms by (simp add: safe_def)

lemma safeD:
  assumes "safe J Q m" "J w" "m w = (x, w')"
  shows "J w'" "x \<noteq> Panic s" "x = Ret v \<Longrightarrow> Q v"
  using assms by (auto simp: safe_def)

lemma safe_ret [safe_intros]: "Q v \<Longrightarrow> safe J Q (ret v)"
  and safe_fail [safe_intros]: "safe J Q (fail e)"
  by (simp_all add: safe_def)

lemma safe_weaken: "safe J Q m \<Longrightarrow> (\<And>v. Q v \<Longrightarrow> Q' v) \<Longrightarrow> safe J Q' m"
  by (auto simp: safe_def)

lemma safe_attempt:
  assumes m: "safe J Q m" and h: "\<And>e. safe J Q' (h e)" and k: "\<And>v. Q v \<Longrightarrow> safe J Q' (k v)"
  shows "safe J Q' (attempt m h k)"
proof (rule safeI)
  fix w x w' assume J: "J w" and run: "attempt m h k w = (x, w')"
  from run show "J w' \<and> (\<forall>s. x \<noteq> Panic s) \<and> (\<forall>v. x = Ret v \<longrightarrow> Q' v)"
  proof (cases rule: attempt_cases)
    case (Ret v u)
    note m' = safeD [OF m J Ret(1)]
    show ?thesis using safeD [OF k [OF m'(3) [OF refl]] m'(1) Ret(2)] by blast
  next
    case (Fail e u)
    show ?thesis using safeD [OF h safeD(1) [OF m J Fail(1)] Fail(2)] by blast
  next
    case (Panic s u)
    then show ?thesis using safeD(2) [OF m J Panic(1), of s] by simp
  qed
qed

lemma safe_bindr: "safe J Q m \<Longrightarrow> (\<And>v. Q v \<Longrightarrow> safe J Q' (k v)) \<Longrightarrow> safe J Q' (bindr m k)"
  unfolding bindr_def [abs_def] by (rule safe_attempt [OF _ safe_fail])

lemma safe_wrapr: "safe J Q m \<Longrightarrow> (\<And>v. Q v \<Longrightarrow> safe J Q' (k v)) \<Longrightarrow> safe J Q' (wrapr c m k)"
  unfolding wrapr_def [abs_def] by (rule safe_attempt [OF _ safe_fail])

text \<open>
  A component's call run on its part of a larger world: \<open>get\<close> reads the part and
  \<open>put\<close> writes it back.
\<close>

definition on_part :: "('w \<Rightarrow> 's) \<Rightarrow> ('s \<Rightarrow> 'w \<Rightarrow> 'w) \<Rightarrow> ('s, 'a) act \<Rightarrow> ('w, 'a) act" where
  "on_part get put m w = (case m (get w) of (r, s) \<Rightarrow> (r, put s w))"

lemma on_part_simp [simp]: "m (get w) = (r, s) \<Longrightarrow> on_part get put m w = (r, put s w)"
  by (simp add: on_part_def)

lemma fst_on_part [simp]: "fst (on_part get put m w) = fst (m (get w))"
  by (simp add: on_part_def split: prod.split)

section \<open>Go strings\<close>

text \<open>
  A Go string is a sequence of bytes, a HOL \<open>string\<close> a list of 8-bit characters.
  \<open>strings.ReplaceAll(s, old, new)\<close> with a one-byte \<open>old\<close> replaces every occurrence.
\<close>

definition ReplaceAll1 :: "string \<Rightarrow> char \<Rightarrow> string \<Rightarrow> string" where
  "ReplaceAll1 s old new = concat (map (\<lambda>c. if c = old then new else [c]) s)"

text \<open>\<open>strings.NewReplacer(".", "-", "*", "wildcard").Replace\<close>\<close>

definition replace_dots_stars :: "string \<Rightarrow> string" where
  "replace_dots_stars s =
     concat (map (\<lambda>c. if c = CHR ''.'' then ''-'' else if c = CHR ''*'' then ''wildcard'' else [c]) s)"

text \<open>\<open>strings.Join(parts, sep)\<close>\<close>

fun strings_Join :: "string list \<Rightarrow> string \<Rightarrow> string" where
  "strings_Join [] sep = ''''"
| "strings_Join [x] sep = x"
| "strings_Join (x # y # zs) sep = x @ sep @ strings_Join (y # zs) sep"

lemma ReplaceAll1_Nil [simp]: "ReplaceAll1 [] old new = []"
  and ReplaceAll1_Cons [simp]:
    "ReplaceAll1 (c # s) old new = (if c = old then new else [c]) @ ReplaceAll1 s old new"
  and ReplaceAll1_append [simp]:
    "ReplaceAll1 (s @ t) old new = ReplaceAll1 s old new @ ReplaceAll1 t old new"
  by (simp_all add: ReplaceAll1_def)

lemma ReplaceAll1_no_old: "old \<notin> set new \<Longrightarrow> old \<notin> set (ReplaceAll1 s old new)"
  by (induction s) auto

lemma ReplaceAll1_same: "old \<notin> set s \<Longrightarrow> ReplaceAll1 s old new = s"
  by (induction s) auto

lemma ReplaceAll1_inj_char:
  assumes "d \<notin> set s" "d \<notin> set t" "ReplaceAll1 s c [d] = ReplaceAll1 t c [d]"
  shows "s = t"
  using assms
proof (induction s arbitrary: t)
  case Nil
  then show ?case by (cases t) (auto split: if_splits)
next
  case (Cons a s)
  then obtain b t' where t: "t = b # t'"
    by (cases t) (auto split: if_splits)
  with Cons show ?case by (auto split: if_splits)
qed

lemma replace_dots_stars_Nil [simp]: "replace_dots_stars [] = []"
  and replace_dots_stars_Cons [simp]:
    "replace_dots_stars (c # s) =
       (if c = CHR ''.'' then ''-'' else if c = CHR ''*'' then ''wildcard'' else [c]) @ replace_dots_stars s"
  by (simp_all add: replace_dots_stars_def)

lemma replace_dots_stars_clean:
  "CHR ''.'' \<notin> set (replace_dots_stars s) \<and> CHR ''*'' \<notin> set (replace_dots_stars s)"
  by (induction s) auto

section \<open>Decimal numbers: the verb \<open>%d\<close>, and reading an index back\<close>

definition digit_char :: "nat \<Rightarrow> char" where
  "digit_char d = char_of (48 + d)"

definition char_digit :: "char \<Rightarrow> nat option" where
  "char_digit c = (if 48 \<le> (of_char c :: nat) \<and> (of_char c :: nat) \<le> 57
                   then Some (of_char c - 48) else None)"

fun itoa :: "nat \<Rightarrow> string" where
  "itoa n = (if n < 10 then [digit_char n] else itoa (n div 10) @ [digit_char (n mod 10)])"

declare itoa.simps [simp del]

fun atoi_acc :: "nat \<Rightarrow> string \<Rightarrow> nat option" where
  "atoi_acc acc [] = Some acc"
| "atoi_acc acc (c # s) = (case char_digit c of None \<Rightarrow> None | Some d \<Rightarrow> atoi_acc (10 * acc + d) s)"

definition atoi :: "string \<Rightarrow> nat option" where
  "atoi s = (if s = [] then None else atoi_acc 0 s)"

lemma char_digit_digit_char [simp]: "d < 10 \<Longrightarrow> char_digit (digit_char d) = Some d"
  by (simp add: char_digit_def digit_char_def)

lemma atoi_acc_append:
  "atoi_acc acc (s @ t) = (case atoi_acc acc s of None \<Rightarrow> None | Some a \<Rightarrow> atoi_acc a t)"
  by (induction s arbitrary: acc) (auto split: option.splits)

lemma itoa_nonempty [simp]: "itoa n \<noteq> []"
  by (subst itoa.simps) simp

lemma atoi_acc_itoa: "atoi_acc 0 (itoa n) = Some n"
proof (induction n rule: itoa.induct)
  case (1 n)
  then show ?case
    by (cases "n < 10") (simp_all add: itoa.simps [of n] atoi_acc_append)
qed

lemma atoi_itoa [simp]: "atoi (itoa n) = Some n"
  by (simp add: atoi_def atoi_acc_itoa)

lemma itoa_inj [simp]: "itoa m = itoa n \<longleftrightarrow> m = n"
  by (metis atoi_itoa option.inject)

lemma itoa_digits: "c \<in> set (itoa n) \<Longrightarrow> \<exists>d < 10. c = digit_char d"
proof (induction n rule: itoa.induct)
  case (1 n)
  show ?case
  proof (cases "n < 10")
    case True
    with "1.prems" show ?thesis by (auto simp: itoa.simps [of n])
  next
    case False
    with "1.prems" have "c \<in> set (itoa (n div 10)) \<or> c = digit_char (n mod 10)"
      by (auto simp: itoa.simps [of n])
    with "1.IH" False show ?thesis
      by (metis mod_less_divisor zero_less_numeral)
  qed
qed

text \<open>The verb \<open>%d\<close> on a Go \<open>int\<close>.\<close>

definition fmt_d :: "int \<Rightarrow> string" where
  "fmt_d i = (if i < 0 then ''-'' @ itoa (nat (- i)) else itoa (nat i))"

lemma fmt_d_of_nat [simp]: "fmt_d (int n) = itoa n"
  by (simp add: fmt_d_def)

section \<open>Go time\<close>

text \<open>
  A \<open>time.Time\<close> is its distance from the Unix epoch in nanoseconds; the zero value is
  1 January of the year 1. A \<open>time.Duration\<close> is a signed 64-bit count of nanoseconds and
  \<open>time.Until\<close> saturates at its ends.
\<close>

definition zero_time :: int where
  "zero_time = - 62135596800000000000"

definition min_duration :: int where
  "min_duration = - (2 ^ 63)"

definition max_duration :: int where
  "max_duration = 2 ^ 63 - 1"

definition time_Until :: "int \<Rightarrow> int \<Rightarrow> int" where
  "time_Until now t = max min_duration (min max_duration (t - now))"

abbreviation second :: int where
  "second \<equiv> 1000000000"

lemma time_Until_antimono: "now \<le> now' \<Longrightarrow> time_Until now' t \<le> time_Until now t"
  by (auto simp: time_Until_def min_def max_def)

lemma time_Until_zero:
  "0 \<le> now \<Longrightarrow> time_Until now zero_time = min_duration"
  by (simp add: time_Until_def zero_time_def min_duration_def max_duration_def)

text \<open>The conversion \<open>int32(x)\<close> keeps the low 32 bits, read as two's complement.\<close>

definition to_int32 :: "int \<Rightarrow> int" where
  "to_int32 i = sint (word_of_int i :: 32 word)"

lemma to_int32_id: "- (2 ^ 31) \<le> i \<Longrightarrow> i < 2 ^ 31 \<Longrightarrow> to_int32 i = i"
  by (simp add: to_int32_def sint_sbintrunc' signed_take_bit_int_eq_self)

section \<open>Maps, lists and options\<close>

text \<open>The Go slice expression \<open>xs[lo:hi]\<close> for bounds that are in range.\<close>

definition go_slice :: "'a list \<Rightarrow> nat \<Rightarrow> nat \<Rightarrow> 'a list" where
  "go_slice xs lo hi = take (hi - lo) (drop lo xs)"

lemma go_slice_append:
  assumes "lo \<le> mid" "mid \<le> hi"
  shows "go_slice xs lo mid @ go_slice xs mid hi = go_slice xs lo hi"
proof -
  have "take ((mid - lo) + (hi - mid)) (drop lo xs) =
      take (mid - lo) (drop lo xs) @ take (hi - mid) (drop (mid - lo) (drop lo xs))"
    by (rule take_add)
  with assms show ?thesis by (simp add: go_slice_def)
qed

lemma go_slice_full [simp]: "go_slice xs 0 (length xs) = xs"
  and go_slice_empty [simp]: "go_slice xs i i = []"
  by (simp_all add: go_slice_def)

lemma length_go_slice: "hi \<le> length xs \<Longrightarrow> length (go_slice xs lo hi) = hi - lo"
  by (simp add: go_slice_def)

lemma map_of_fold_upd_None:
  "k \<notin> f ` set xs \<Longrightarrow> foldl (\<lambda>m x. m(f x \<mapsto> g x)) m0 xs k = m0 k"
  by (induction xs arbitrary: m0) auto

lemma foldl_upd_in:
  "k \<in> f ` set xs \<Longrightarrow> \<exists>x \<in> set xs. f x = k \<and> foldl (\<lambda>m x. m(f x \<mapsto> g x)) m0 xs k = Some (g x)"
  by (induction xs rule: rev_induct) auto

lemma dom_foldl_upd:
  "dom (foldl (\<lambda>m x. m(f x \<mapsto> g x)) m0 xs) = dom m0 \<union> f ` set xs"
  by (induction xs arbitrary: m0) auto

lemma filter_eq_self: "(\<And>x. x \<in> set xs \<Longrightarrow> P x) \<Longrightarrow> filter P xs = xs"
  by (induction xs) auto

lemma filter_eq_Nil: "(\<And>x. x \<in> set xs \<Longrightarrow> \<not> P x) \<Longrightarrow> filter P xs = []"
  by (induction xs) auto

end
