(* ===== verification/Core.thy ===== *)
theory Core
  imports Prelude
begin

text \<open>
  The domain model of \<open>core/route.go\<close> and the interfaces of \<open>core/certificate\<close>,
  \<open>core/provisioner\<close>, \<open>core/desired\<close> and \<open>core/lease\<close>: the data as records, each
  interface as a record of its methods over a world \<open>'w\<close>, and the contracts that the
  orchestrator and the reconciler rely on as locales. A Go pointer is an \<open>option\<close>, its
  nil value \<open>None\<close>. The loggers are not modelled; a field read of a nil pointer inside a
  log call is, since it panics.
\<close>

section \<open>Domain model\<close>

type_synonym EventType = string

definition EventRouteCreated :: EventType where
  "EventRouteCreated = ''route.created''"

definition EventRouteUpdated :: EventType where
  "EventRouteUpdated = ''route.updated''"

definition EventRouteDeleted :: EventType where
  "EventRouteDeleted = ''route.deleted''"

lemma event_types_distinct [simp]:
  "EventRouteCreated \<noteq> EventRouteUpdated" "EventRouteUpdated \<noteq> EventRouteCreated"
  "EventRouteCreated \<noteq> EventRouteDeleted" "EventRouteDeleted \<noteq> EventRouteCreated"
  "EventRouteUpdated \<noteq> EventRouteDeleted" "EventRouteDeleted \<noteq> EventRouteUpdated"
  by (simp_all add: EventRouteCreated_def EventRouteUpdated_def EventRouteDeleted_def)

record Backend =
  be_ServiceName :: string
  be_Port :: int
  be_Weight :: int

record RouteRequest =
  rr_ID :: string
  rr_Host :: string
  rr_Path :: string
  rr_Backends :: "Backend list"
  rr_TLS :: bool
  rr_Metadata :: "string \<rightharpoonup> string"
  rr_CreatedAt :: int

record RouteEvent =
  ev_Type :: EventType
  ev_Route :: RouteRequest
  ev_RawData :: string

record Certificate =
  crt_Host :: string
  crt_CertPEM :: string
  crt_KeyPEM :: string
  crt_CACertPEM :: string
  crt_NotBefore :: int
  crt_NotAfter :: int
  crt_IssuerName :: string

record ProvisionedRoute =
  pr_RouteID :: string
  pr_Host :: string
  pr_GatewayID :: string
  pr_CertificateID :: string
  pr_Status :: string
  pr_ProviderName :: string

text \<open>The zero value of \<open>core.RouteRequest\<close>, from which composite literals start.\<close>

definition zero_RouteRequest :: RouteRequest where
  "zero_RouteRequest =
     \<lparr>rr_ID = '''', rr_Host = '''', rr_Path = '''', rr_Backends = [], rr_TLS = False,
      rr_Metadata = Map.empty, rr_CreatedAt = zero_time\<rparr>"

section \<open>Interfaces\<close>

record 'w Issuer =
  iss_Issue :: "RouteRequest \<Rightarrow> ('w, Certificate option) act"
  iss_Revoke :: "Certificate \<Rightarrow> ('w, unit) act"
  iss_Name :: string

record 'w RouteProvisioner =
  prov_Provision :: "RouteRequest \<Rightarrow> Certificate option \<Rightarrow> ('w, ProvisionedRoute option) act"
  prov_Deprovision :: "string \<Rightarrow> ('w, unit) act"
  prov_List :: "('w, ProvisionedRoute list) act"
  prov_BatchProvision ::
    "RouteRequest list \<Rightarrow> (string \<rightharpoonup> Certificate) \<Rightarrow> ('w, ProvisionedRoute list) act"
  prov_BatchDeprovision :: "string list \<Rightarrow> ('w, unit) act"
  prov_Name :: string

record 'w DesiredStateProvider =
  des_List :: "('w, RouteRequest list) act"
  des_Name :: string

text \<open>An interface value over a part of the world, used on the whole.\<close>

definition lift_Issuer :: "('w \<Rightarrow> 's) \<Rightarrow> ('s \<Rightarrow> 'w \<Rightarrow> 'w) \<Rightarrow> 's Issuer \<Rightarrow> 'w Issuer" where
  "lift_Issuer get put i =
     \<lparr>iss_Issue = (\<lambda>r. on_part get put (iss_Issue i r)),
      iss_Revoke = (\<lambda>c. on_part get put (iss_Revoke i c)),
      iss_Name = iss_Name i\<rparr>"

definition lift_Provisioner ::
  "('w \<Rightarrow> 's) \<Rightarrow> ('s \<Rightarrow> 'w \<Rightarrow> 'w) \<Rightarrow> 's RouteProvisioner \<Rightarrow> 'w RouteProvisioner" where
  "lift_Provisioner get put p =
     \<lparr>prov_Provision = (\<lambda>r c. on_part get put (prov_Provision p r c)),
      prov_Deprovision = (\<lambda>i. on_part get put (prov_Deprovision p i)),
      prov_List = on_part get put (prov_List p),
      prov_BatchProvision = (\<lambda>rs cs. on_part get put (prov_BatchProvision p rs cs)),
      prov_BatchDeprovision = (\<lambda>ids. on_part get put (prov_BatchDeprovision p ids)),
      prov_Name = prov_Name p\<rparr>"

section \<open>Contracts\<close>

text \<open>
  What the pipeline relies on of an issuer: \<open>Issue\<close> returns an error or a certificate, never
  a nil certificate with a nil error, and does not panic.
\<close>

locale nonnil_issuer =
  fixes iss :: "'w Issuer"
  assumes issue_nonnil: "iss_Issue iss r w = (x, w') \<Longrightarrow> (\<exists>c. x = Ret (Some c)) \<or> (\<exists>e. x = Fail e)"
begin

lemma issue_cases:
  obtains c w' where "iss_Issue iss r w = (Ret (Some c), w')"
    | e w' where "iss_Issue iss r w = (Fail e, w')"
  using issue_nonnil by (cases "iss_Issue iss r w") blast

end

text \<open>An issuer that, when it succeeds, returns a certificate for the host of the request.\<close>

locale host_issuer = nonnil_issuer +
  assumes issue_host: "iss_Issue iss r w = (Ret (Some c), w') \<Longrightarrow> crt_Host c = rr_Host r"

text \<open>
  What the reconciler relies on of a provisioner: the gateway's routes are a set of pairs of
  route ID and host (\<open>routes\<close>) under an invariant (\<open>inv\<close>); \<open>List\<close> reports exactly that
  set; \<open>BatchDeprovision\<close> removes the routes with the given IDs and no others; and
  \<open>BatchProvision\<close> adds the requested routes under the IDs \<open>rid\<close> when no route of the
  gateway has one of these IDs and no two requests share an ID for different hosts.
\<close>

definition consistent_ids :: "(RouteRequest \<Rightarrow> string) \<Rightarrow> RouteRequest list \<Rightarrow> bool" where
  "consistent_ids rid rs \<longleftrightarrow>
     (\<forall>a \<in> set rs. \<forall>b \<in> set rs. rid a = rid b \<longrightarrow> rr_Host a = rr_Host b)"

locale route_provisioner =
  fixes prov :: "'w RouteProvisioner"
    and rid :: "RouteRequest \<Rightarrow> string"
    and routes :: "'w \<Rightarrow> (string \<times> string) set"
    and inv :: "'w \<Rightarrow> bool"
    and acceptable :: "RouteRequest \<Rightarrow> bool"
  assumes list_law: "inv w \<Longrightarrow>
      \<exists>rs. prov_List prov w = (Ret rs, w) \<and> (\<lambda>p. (pr_RouteID p, pr_Host p)) ` set rs = routes w"
    and batch_deprovision_law: "inv w \<Longrightarrow> prov_BatchDeprovision prov ids w = (Ret (), w') \<Longrightarrow>
      inv w' \<and> routes w' = {r \<in> routes w. fst r \<notin> set ids}"
    and batch_provision_law: "inv w \<Longrightarrow> prov_BatchProvision prov rs cs w = (Ret out, w') \<Longrightarrow>
      \<forall>r \<in> set rs. acceptable r \<Longrightarrow>
      consistent_ids rid rs \<Longrightarrow> \<forall>r \<in> set rs. \<forall>h. (rid r, h) \<notin> routes w \<Longrightarrow>
      inv w' \<and> routes w' = routes w \<union> (\<lambda>r. (rid r, rr_Host r)) ` set rs"

end
