(* ===== verification/Reconciler.thy ===== *)
theory Reconciler
  imports Core
begin

text \<open>
  \<open>core/reconciler/reconciler.go\<close>: the difference between the desired and the actual routes
  and the cycle that applies it, with the result of every branch, and, over the contract of
  a provisioner, the convergence of a cycle.
\<close>

section \<open>Computing the difference\<close>

text \<open>
  The two loops of \<open>diff\<close>. A Go map that is only tested for a key is the set of its keys
  (\<open>desiredHosts\<close>); \<open>actualByHost\<close> is a map built by assignment, so a later route with the
  same host replaces an earlier one.
\<close>

definition actual_by_host :: "ProvisionedRoute list \<Rightarrow> (string \<rightharpoonup> ProvisionedRoute)" where
  "actual_by_host actualRoutes = foldl (\<lambda>m a. m(pr_Host a \<mapsto> a)) Map.empty actualRoutes"

fun diff_desired ::
  "(string \<rightharpoonup> ProvisionedRoute) \<Rightarrow> RouteRequest list \<Rightarrow> string set \<Rightarrow> RouteRequest list
   \<Rightarrow> string set \<times> RouteRequest list" where
  "diff_desired actualByHost [] desiredHosts toAdd = (desiredHosts, toAdd)"
| "diff_desired actualByHost (d # ds) desiredHosts toAdd =
     diff_desired actualByHost ds (insert (rr_Host d) desiredHosts)
       (case actualByHost (rr_Host d) of None \<Rightarrow> toAdd @ [d] | Some _ \<Rightarrow> toAdd)"

fun diff_actual :: "string set \<Rightarrow> ProvisionedRoute list \<Rightarrow> string list \<Rightarrow> string list" where
  "diff_actual desiredHosts [] toRemove = toRemove"
| "diff_actual desiredHosts (a # as) toRemove =
     diff_actual desiredHosts as
       (if pr_Host a \<in> desiredHosts then toRemove else toRemove @ [pr_RouteID a])"

definition diff ::
  "RouteRequest list \<Rightarrow> ProvisionedRoute list \<Rightarrow> RouteRequest list \<times> string list" where
  "diff desiredRoutes actualRoutes =
     (let actualByHost = actual_by_host actualRoutes;
          (desiredHosts, toAdd) = diff_desired actualByHost desiredRoutes {} []
      in (toAdd, diff_actual desiredHosts actualRoutes []))"

section \<open>The reconciliation cycle\<close>

text \<open>
  Step 5 of \<open>Reconcile\<close>: a failed issuance is logged and skipped, and the log call after a
  successful one reads \<open>cert.IssuerName\<close>, which panics on a nil certificate.
\<close>

fun issue_certs ::
  "'w Issuer \<Rightarrow> RouteRequest list \<Rightarrow> (string \<rightharpoonup> Certificate) \<Rightarrow> ('w, string \<rightharpoonup> Certificate) act" where
  "issue_certs iss [] certs = ret certs"
| "issue_certs iss (route # routes) certs =
     (if \<not> rr_TLS route then issue_certs iss routes certs
      else attempt (iss_Issue iss route)
        (\<lambda>e. issue_certs iss routes certs)
        (\<lambda>cert. case cert of
           None \<Rightarrow> panic ''nil pointer dereference''
         | Some c \<Rightarrow> issue_certs iss routes (certs(rr_Host route \<mapsto> c))))"

text \<open>Step 4: a failed batch removal is logged, not returned.\<close>

definition remove_stale :: "'w RouteProvisioner \<Rightarrow> string list \<Rightarrow> ('w, unit) act" where
  "remove_stale prov toRemove =
     (if toRemove \<noteq> []
      then attempt (prov_BatchDeprovision prov toRemove) (\<lambda>e. ret ()) (\<lambda>_. ret ())
      else ret ())"

definition Reconcile ::
  "'w DesiredStateProvider \<Rightarrow> 'w Issuer \<Rightarrow> 'w RouteProvisioner \<Rightarrow> ('w, unit) act" where
  "Reconcile des iss prov =
     bindr (des_List des) (\<lambda>desiredRoutes.
     bindr (prov_List prov) (\<lambda>actualRoutes.
       (case diff desiredRoutes actualRoutes of (toAdd, toRemove) \<Rightarrow>
          bindr (remove_stale prov toRemove) (\<lambda>_.
          bindr (issue_certs iss toAdd Map.empty) (\<lambda>certs.
            if toAdd \<noteq> [] then bindr (prov_BatchProvision prov toAdd certs) (\<lambda>_. ret ())
            else ret ())))))"

section \<open>The difference, exactly\<close>

lemma actual_by_host_None:
  "actual_by_host as h = None \<longleftrightarrow> h \<notin> pr_Host ` set as"
proof -
  have "dom (actual_by_host as) = pr_Host ` set as"
    unfolding actual_by_host_def using dom_foldl_upd [of pr_Host "\<lambda>a. a" Map.empty as] by simp
  then show ?thesis by (metis domIff)
qed

lemma diff_desired_eq:
  "diff_desired (actual_by_host as) ds hs acc =
     (hs \<union> rr_Host ` set ds, acc @ filter (\<lambda>d. rr_Host d \<notin> pr_Host ` set as) ds)"
proof (induction ds arbitrary: hs acc)
  case Nil
  then show ?case by simp
next
  case (Cons d ds)
  then show ?case
    using actual_by_host_None [of as "rr_Host d"]
    by (cases "actual_by_host as (rr_Host d)") auto
qed

lemma diff_actual_eq:
  "diff_actual hs as acc = acc @ map pr_RouteID (filter (\<lambda>a. pr_Host a \<notin> hs) as)"
  by (induction as arbitrary: acc) auto

lemma diff_eq:
  "diff ds as =
     (filter (\<lambda>d. rr_Host d \<notin> pr_Host ` set as) ds,
      map pr_RouteID (filter (\<lambda>a. pr_Host a \<notin> rr_Host ` set ds) as))"
  by (simp add: diff_def diff_desired_eq diff_actual_eq)

lemma diff_in_sync: "rr_Host ` set ds = pr_Host ` set as \<Longrightarrow> diff ds as = ([], [])"
  by (auto simp: diff_eq intro!: filter_eq_Nil)

section \<open>Issuing the certificates\<close>

context nonnil_issuer
begin

text \<open>
  With an issuer that keeps the contract, the loop never fails and never panics: the hosts
  with a certificate afterwards are among those of the TLS routes.
\<close>

lemma issue_certs_total:
  "\<exists>certs' w'. issue_certs iss rs certs w = (Ret certs', w') \<and>
     dom certs' \<subseteq> dom certs \<union> rr_Host ` {r \<in> set rs. rr_TLS r}"
proof (induction rs arbitrary: certs w)
  case Nil
  then show ?case by simp
next
  case (Cons r rs)
  show ?case
  proof (cases "rr_TLS r")
    case False
    obtain certs' w' where "issue_certs iss rs certs w = (Ret certs', w')"
      "dom certs' \<subseteq> dom certs \<union> rr_Host ` {r \<in> set rs. rr_TLS r}"
      using Cons.IH by blast
    then show ?thesis using False by auto
  next
    case True
    show ?thesis
    proof (rule issue_cases [of r w])
      fix c v assume v: "iss_Issue iss r w = (Ret (Some c), v)"
      obtain certs' w' where "issue_certs iss rs (certs(rr_Host r \<mapsto> c)) v = (Ret certs', w')"
        "dom certs' \<subseteq> dom (certs(rr_Host r \<mapsto> c)) \<union> rr_Host ` {r \<in> set rs. rr_TLS r}"
        using Cons.IH by blast
      then show ?thesis using True v by auto
    next
      fix e v assume v: "iss_Issue iss r w = (Fail e, v)"
      obtain certs' w' where "issue_certs iss rs certs v = (Ret certs', w')"
        "dom certs' \<subseteq> dom certs \<union> rr_Host ` {r \<in> set rs. rr_TLS r}"
        using Cons.IH by blast
      then show ?thesis using True v by auto
    qed
  qed
qed

end

text \<open>A predicate that issuing keeps, the whole loop keeps.\<close>

lemma issue_certs_keeps:
  assumes step: "\<And>r v x v'. P v \<Longrightarrow> iss_Issue iss r v = (x, v') \<Longrightarrow> P v'"
  shows "P w \<Longrightarrow> issue_certs iss rs certs w = (x, w') \<Longrightarrow> P w'"
proof (induction rs arbitrary: certs w)
  case Nil
  then show ?case by simp
next
  case (Cons r rs)
  show ?case
  proof (cases "rr_TLS r")
    case False
    with Cons show ?thesis by simp
  next
    case True
    obtain y v where y: "iss_Issue iss r w = (y, v)" by fastforce
    then have v: "P v" using Cons.prems(1) step by blast
    show ?thesis
    proof (cases y)
      case (Ret cert)
      then show ?thesis using Cons.prems(2) Cons.IH [OF v] True y v by (cases cert) auto
    qed (use Cons.prems(2) Cons.IH [OF v] True y v in auto)
  qed
qed

text \<open>Every host that has a certificate got it from a successful issuance.\<close>

lemma issue_certs_host:
  assumes "\<And>r v c v'. iss_Issue iss r v = (Ret (Some c), v') \<Longrightarrow> crt_Host c = rr_Host r"
  shows "issue_certs iss rs certs w = (Ret certs', w') \<Longrightarrow>
    \<forall>h c. certs h = Some c \<longrightarrow> crt_Host c = h \<Longrightarrow> certs' h = Some c \<Longrightarrow> crt_Host c = h"
proof (induction rs arbitrary: certs w)
  case Nil
  then show ?case by simp
next
  case (Cons r rs)
  show ?case
  proof (cases "rr_TLS r")
    case False
    with Cons show ?thesis by simp
  next
    case True
    obtain y v where y: "iss_Issue iss r w = (y, v)" by fastforce
    show ?thesis
    proof (cases y)
      case (Ret cert)
      show ?thesis
      proof (cases cert)
        case None
        then show ?thesis using Cons.prems(1) True y Ret by simp
      next
        case (Some c')
        then have "issue_certs iss rs (certs(rr_Host r \<mapsto> c')) v = (Ret certs', w')"
          using Cons.prems(1) True y Ret by simp
        moreover have "crt_Host c' = rr_Host r" using assms y Ret Some by blast
        ultimately show ?thesis using Cons.IH Cons.prems(2,3) by (auto split: if_splits)
      qed
    qed (use Cons True y in auto)
  qed
qed

section \<open>A cycle, step by step\<close>

lemma Reconcile_steps:
  assumes "des_List des w = (Ret ds, w1)" "prov_List prov w1 = (Ret as, w2)"
    "diff ds as = (toAdd, toRemove)" "remove_stale prov toRemove w2 = (Ret (), w3)"
    "issue_certs iss toAdd Map.empty w3 = (Ret certs, w4)"
  shows "Reconcile des iss prov w =
    (if toAdd \<noteq> [] then bindr (prov_BatchProvision prov toAdd certs) (\<lambda>_. ret ()) w4 else (Ret (), w4))"
  using assms by (simp add: Reconcile_def)

lemma remove_stale_result:
  assumes "\<And>s. fst (prov_BatchDeprovision prov ids w) \<noteq> Panic s"
  obtains w' where "remove_stale prov ids w = (Ret (), w')"
proof (cases "ids = []")
  case True
  then show ?thesis using that by (simp add: remove_stale_def)
next
  case False
  obtain y v where y: "prov_BatchDeprovision prov ids w = (y, v)" by fastforce
  then have "remove_stale prov ids w = (Ret (), v)"
    using False assms by (cases y) (auto simp: remove_stale_def)
  then show ?thesis by (rule that)
qed

section \<open>Convergence of a cycle\<close>

text \<open>
  The reconciler over a provisioner that keeps its contract, an issuer that keeps its own,
  and a desired state and an issuer that do not touch the gateway's routes.
\<close>

locale reconcile_env = route_provisioner prov rid routes inv acceptable + nonnil_issuer iss
  for prov :: "'w RouteProvisioner" and rid routes inv acceptable and iss :: "'w Issuer" +
  fixes des :: "'w DesiredStateProvider"
  assumes issue_frame: "inv w \<Longrightarrow> iss_Issue iss r w = (x, w') \<Longrightarrow> inv w' \<and> routes w' = routes w"
    and des_frame: "inv w \<Longrightarrow> des_List des w = (y, w') \<Longrightarrow> inv w' \<and> routes w' = routes w"

text \<open>
  When the IDs of the gateway's routes and of the desired ones agree with their hosts: no ID
  names both a route to keep and a route to remove, and no desired route has the ID of a kept
  route of another host.
\<close>

definition ids_agree ::
  "(RouteRequest \<Rightarrow> string) \<Rightarrow> (string \<times> string) set \<Rightarrow> RouteRequest list \<Rightarrow> bool" where
  "ids_agree rid R ds \<longleftrightarrow>
     (\<forall>(i, h) \<in> R. \<forall>(j, k) \<in> R. i = j \<longrightarrow> (h \<in> rr_Host ` set ds \<longleftrightarrow> k \<in> rr_Host ` set ds)) \<and>
     (\<forall>(i, h) \<in> R. h \<in> rr_Host ` set ds \<longrightarrow> (\<forall>d \<in> set ds. i = rid d \<longrightarrow> rr_Host d = h)) \<and>
     consistent_ids rid ds"

lemma consistent_ids_subset:
  "consistent_ids rid ds \<Longrightarrow> consistent_ids rid (filter P ds)"
  by (simp add: consistent_ids_def)

lemma ids_agreeD:
  assumes "ids_agree rid R ds" "(rid d, h) \<in> R" "h \<in> rr_Host ` set ds" "d \<in> set ds"
  shows "rr_Host d = h"
  using assms unfolding ids_agree_def by blast

text \<open>The effect a successful cycle has on the set of routes.\<close>

definition reconciled_routes ::
  "(RouteRequest \<Rightarrow> string) \<Rightarrow> (string \<times> string) set \<Rightarrow> RouteRequest list \<Rightarrow> (string \<times> string) set" where
  "reconciled_routes rid R ds =
     {r \<in> R. snd r \<in> rr_Host ` set ds} \<union>
     (\<lambda>d. (rid d, rr_Host d)) ` {d \<in> set ds. rr_Host d \<notin> snd ` R}"

lemma reconciled_routes_hosts: "snd ` reconciled_routes rid R ds = rr_Host ` set ds"
proof (intro set_eqI iffI)
  fix h assume "h \<in> snd ` reconciled_routes rid R ds"
  then show "h \<in> rr_Host ` set ds" by (auto simp: reconciled_routes_def)
next
  fix h assume "h \<in> rr_Host ` set ds"
  then obtain d where d: "d \<in> set ds" "h = rr_Host d" by blast
  show "h \<in> snd ` reconciled_routes rid R ds"
  proof (cases "h \<in> snd ` R")
    case True
    then obtain i where "(i, h) \<in> R" by auto
    then have "(i, h) \<in> reconciled_routes rid R ds" using d by (simp add: reconciled_routes_def)
    then show ?thesis by (rule image_eqI [rotated]) simp
  next
    case False
    then have "(rid d, h) \<in> reconciled_routes rid R ds" using d by (auto simp: reconciled_routes_def)
    then show ?thesis by (rule image_eqI [rotated]) simp
  qed
qed

lemma stale_removed:
  assumes "ids_agree rid R ds" and "(\<lambda>p. (pr_RouteID p, pr_Host p)) ` set as = R"
  shows "{r \<in> R. fst r \<notin> set (map pr_RouteID (filter (\<lambda>a. pr_Host a \<notin> rr_Host ` set ds) as))} =
    {r \<in> R. snd r \<in> rr_Host ` set ds}"
proof -
  have "fst r \<in> set (map pr_RouteID (filter (\<lambda>a. pr_Host a \<notin> rr_Host ` set ds) as)) \<longleftrightarrow>
      snd r \<notin> rr_Host ` set ds" if r: "r \<in> R" for r
  proof -
    have "fst r \<in> set (map pr_RouteID (filter (\<lambda>a. pr_Host a \<notin> rr_Host ` set ds) as)) \<longleftrightarrow>
        (\<exists>a \<in> set as. pr_RouteID a = fst r \<and> pr_Host a \<notin> rr_Host ` set ds)"
      by (auto simp: image_iff)
    also have "\<dots> \<longleftrightarrow> (\<exists>q \<in> R. fst q = fst r \<and> snd q \<notin> rr_Host ` set ds)"
      unfolding assms(2) [symmetric] by simp
    finally have "fst r \<in> set (map pr_RouteID (filter (\<lambda>a. pr_Host a \<notin> rr_Host ` set ds) as)) \<longleftrightarrow>
        (\<exists>q \<in> R. fst q = fst r \<and> snd q \<notin> rr_Host ` set ds)" .
    moreover have "\<And>q. q \<in> R \<Longrightarrow> fst q = fst r \<Longrightarrow>
        snd q \<in> rr_Host ` set ds \<longleftrightarrow> snd r \<in> rr_Host ` set ds"
      using assms(1) r unfolding ids_agree_def split_beta by metis
    ultimately show ?thesis using r by blast
  qed
  then show ?thesis by blast
qed

text \<open>
  A world of two parts, the gateway's and the rest: a provisioner of the first and an issuer
  and a source of routes of the second keep their contracts in the product.
\<close>

abbreviation put_fst :: "'a \<Rightarrow> 'a \<times> 'b \<Rightarrow> 'a \<times> 'b" where
  "put_fst a w \<equiv> (a, snd w)"

abbreviation put_snd :: "'b \<Rightarrow> 'a \<times> 'b \<Rightarrow> 'a \<times> 'b" where
  "put_snd b w \<equiv> (fst w, b)"

lemma on_fst_RetD: "on_part fst put_fst m w = (x, w') \<Longrightarrow> m (fst w) = (x, fst w') \<and> snd w' = snd w"
  and on_snd_RetD: "on_part snd put_snd n w = (y, w') \<Longrightarrow> n (snd w) = (y, snd w') \<and> fst w' = fst w"
  by (auto simp: on_part_def split: prod.splits)

lemma route_provisioner_fst:
  assumes "route_provisioner prov rid routes I acc"
  shows "route_provisioner (lift_Provisioner fst put_fst prov) rid (\<lambda>w. routes (fst w)) (\<lambda>w. I (fst w)) acc"
proof
  fix w :: "'a \<times> 'c" assume "I (fst w)"
  from route_provisioner.list_law [OF assms this] obtain rs where
    "prov_List prov (fst w) = (Ret rs, fst w)" "(\<lambda>p. (pr_RouteID p, pr_Host p)) ` set rs = routes (fst w)" by blast
  then show "\<exists>rs. prov_List (lift_Provisioner fst put_fst prov) w = (Ret rs, w) \<and>
      (\<lambda>p. (pr_RouteID p, pr_Host p)) ` set rs = routes (fst w)"
    by (simp add: lift_Provisioner_def)
next
  fix w w' :: "'a \<times> 'c" and ids
  assume i: "I (fst w)" and run: "prov_BatchDeprovision (lift_Provisioner fst put_fst prov) ids w = (Ret (), w')"
  have "prov_BatchDeprovision prov ids (fst w) = (Ret (), fst w')"
    using run on_fst_RetD [of "prov_BatchDeprovision prov ids" w "Ret ()" w'] by (simp add: lift_Provisioner_def)
  from route_provisioner.batch_deprovision_law [OF assms i this]
  show "I (fst w') \<and> routes (fst w') = {r \<in> routes (fst w). fst r \<notin> set ids}" .
next
  fix w w' :: "'a \<times> 'c" and rs cs out
  assume a: "I (fst w)" "\<forall>r \<in> set rs. acc r" "consistent_ids rid rs"
    "\<forall>r \<in> set rs. \<forall>h. (rid r, h) \<notin> routes (fst w)"
    and run: "prov_BatchProvision (lift_Provisioner fst put_fst prov) rs cs w = (Ret out, w')"
  have "prov_BatchProvision prov rs cs (fst w) = (Ret out, fst w')"
    using run on_fst_RetD [of "prov_BatchProvision prov rs cs" w "Ret out" w'] by (simp add: lift_Provisioner_def)
  from route_provisioner.batch_provision_law [OF assms a(1) this a(2-4)]
  show "I (fst w') \<and> routes (fst w') = routes (fst w) \<union> (\<lambda>r. (rid r, rr_Host r)) ` set rs" .
qed

definition lift_Desired ::
  "('w \<Rightarrow> 's) \<Rightarrow> ('s \<Rightarrow> 'w \<Rightarrow> 'w) \<Rightarrow> 's DesiredStateProvider \<Rightarrow> 'w DesiredStateProvider" where
  "lift_Desired get put d = \<lparr>des_List = on_part get put (des_List d), des_Name = des_Name d\<rparr>"

lemma reconcile_env_product:
  assumes "route_provisioner prov rid routes I acc" and "nonnil_issuer iss"
  shows "reconcile_env (lift_Provisioner fst put_fst prov) rid (\<lambda>w. routes (fst w)) (\<lambda>w. I (fst w)) acc
    (lift_Issuer snd put_snd iss) (lift_Desired snd put_snd des)"
proof (intro reconcile_env.intro route_provisioner_fst [OF assms(1)] nonnil_issuer.intro reconcile_env_axioms.intro)
  fix r x and w w' :: "'a \<times> 'b" assume run: "iss_Issue (lift_Issuer snd put_snd iss) r w = (x, w')"
  have i: "iss_Issue iss r (snd w) = (x, snd w') \<and> fst w' = fst w"
    using run on_snd_RetD [of "iss_Issue iss r" w x w'] by (simp add: lift_Issuer_def)
  then show "(\<exists>c. x = Ret (Some c)) \<or> (\<exists>e. x = Fail e)"
    using nonnil_issuer.issue_nonnil [OF assms(2)] by blast
  assume "I (fst w)"
  with i show "I (fst w') \<and> routes (fst w') = routes (fst w)" by simp
next
  fix y and w w' :: "'a \<times> 'b"
  assume "I (fst w)" and run: "des_List (lift_Desired snd put_snd des) w = (y, w')"
  then show "I (fst w') \<and> routes (fst w') = routes (fst w)"
    using on_snd_RetD [of "des_List des" w y w'] by (simp add: lift_Desired_def)
qed

context reconcile_env
begin

lemma remove_stale_law:
  assumes "inv w" and "remove_stale prov ids w = (Ret (), w')"
    and "fst (prov_BatchDeprovision prov ids w) = Ret ()"
  shows "inv w' \<and> routes w' = {r \<in> routes w. fst r \<notin> set ids}"
proof (cases "ids = []")
  case True
  with assms(1,2) show ?thesis by (simp add: remove_stale_def)
next
  case False
  obtain v where v: "prov_BatchDeprovision prov ids w = (Ret (), v)"
    using assms(3) by (cases "prov_BatchDeprovision prov ids w") auto
  then have "w' = v" using False assms(2) by (simp add: remove_stale_def)
  then show ?thesis using batch_deprovision_law [OF assms(1) v] by simp
qed

lemma issue_certs_frame:
  assumes "inv w" and "issue_certs iss rs certs w = (x, w')"
  shows "inv w' \<and> routes w' = routes w"
  using issue_certs_keeps [where P = "\<lambda>v. inv v \<and> routes v = routes w", OF _ _ assms(2)]
    issue_frame assms(1) by blast

lemma reconcile_converges:
  assumes "inv w" and des: "des_List des w = (Ret ds, w1)"
    and ok: "Reconcile des iss prov w = (Ret (), w')"
    and nofault: "\<And>as. prov_List prov w1 = (Ret as, w1) \<Longrightarrow>
      fst (prov_BatchDeprovision prov (snd (diff ds as)) w1) = Ret ()"
    and agree: "ids_agree rid (routes w) ds" and acc: "\<forall>d \<in> set ds. acceptable d"
  shows "inv w' \<and> routes w' = reconciled_routes rid (routes w) ds"
proof -
  have w1: "inv w1" "routes w1 = routes w" using des_frame [OF assms(1) des] by auto
  obtain as where as: "prov_List prov w1 = (Ret as, w1)"
    "(\<lambda>p. (pr_RouteID p, pr_Host p)) ` set as = routes w"
    using list_law [OF w1(1)] w1(2) by auto
  let ?add = "filter (\<lambda>d. rr_Host d \<notin> pr_Host ` set as) ds"
  let ?rem = "map pr_RouteID (filter (\<lambda>a. pr_Host a \<notin> rr_Host ` set ds) as)"
  have fine: "fst (prov_BatchDeprovision prov ?rem w1) = Ret ()"
    using nofault [OF as(1)] by (simp add: diff_eq)
  obtain w2 where w2: "remove_stale prov ?rem w1 = (Ret (), w2)"
    by (rule remove_stale_result [of prov ?rem w1]) (simp add: fine)
  have r2: "inv w2" "routes w2 = {r \<in> routes w. snd r \<in> rr_Host ` set ds}"
    using remove_stale_law [OF w1(1) w2 fine] stale_removed [OF agree as(2)] w1(2) by auto
  obtain certs w3 where w3: "issue_certs iss ?add Map.empty w2 = (Ret certs, w3)"
    using issue_certs_total by blast
  have r3: "inv w3" "routes w3 = {r \<in> routes w. snd r \<in> rr_Host ` set ds}"
    using issue_certs_frame [OF r2(1) w3] r2(2) by auto
  note steps = Reconcile_steps [OF des as(1) diff_eq w2 w3]
  have hosts: "pr_Host ` set as = snd ` routes w" using as(2) by force
  have new: "(\<lambda>d. (rid d, rr_Host d)) ` set ?add =
      (\<lambda>d. (rid d, rr_Host d)) ` {d \<in> set ds. rr_Host d \<notin> snd ` routes w}"
    by (simp add: hosts)
  show ?thesis
  proof (cases "?add = []")
    case True
    then have "w' = w3" using ok steps by (simp only: if_False simp_thms) simp
    have "(\<lambda>d. (rid d, rr_Host d)) ` {d \<in> set ds. rr_Host d \<notin> snd ` routes w} = {}"
      using new unfolding True by simp
    then have "reconciled_routes rid (routes w) ds = routes w3"
      using r3(2) unfolding reconciled_routes_def by (simp only: Un_empty_right)
    with \<open>w' = w3\<close> r3(1) show ?thesis by simp
  next
    case False
    then have "bindr (prov_BatchProvision prov ?add certs) (\<lambda>_. ret ()) w3 = (Ret (), w')"
      using ok steps by (simp only: if_True simp_thms)
    then obtain out where bp: "prov_BatchProvision prov ?add certs w3 = (Ret out, w')"
      by (rule bindr_RetD) simp
    have ci: "consistent_ids rid ?add"
      using agree unfolding ids_agree_def by (blast intro: consistent_ids_subset)
    have fresh: "\<forall>r \<in> set ?add. \<forall>h. (rid r, h) \<notin> routes w3"
    proof (intro ballI allI notI)
      fix d h assume d: "d \<in> set ?add" and h: "(rid d, h) \<in> routes w3"
      then have R: "(rid d, h) \<in> routes w" "h \<in> rr_Host ` set ds" using r3(2) by auto
      then have "rr_Host d = h" using ids_agreeD [OF agree R] d by simp
      moreover have "h \<in> snd ` routes w" using R(1) by (metis image_eqI snd_conv)
      ultimately show False using d hosts by simp
    qed
    have "\<forall>r \<in> set ?add. acceptable r" using acc by simp
    from batch_provision_law [OF r3(1) bp this ci fresh]
    show ?thesis unfolding reconciled_routes_def r3(2) new by simp
  qed
qed

end

section \<open>Properties\<close>

text \<open>
  C24: \<open>diff\<close> returns, in the order of the source of truth and with its duplicates, the
  desired routes whose host the gateway does not have, and, in the gateway's order, the IDs
  of the routes whose host is not desired.
\<close>

theorem diff_exact:
  "diff ds as =
     (filter (\<lambda>d. rr_Host d \<notin> pr_Host ` set as) ds,
      map pr_RouteID (filter (\<lambda>a. pr_Host a \<notin> rr_Host ` set ds) as))"
  by (rule diff_eq)

text \<open>
  C25: when the gateway has exactly the desired hosts, a cycle only reads: it returns nil in
  the state its two \<open>List\<close> calls leave, whatever the issuer and the write operations of the
  provisioner do. No certificate is issued or renewed and no changed backend, path or TLS
  flag of an existing host is applied.
\<close>

theorem reconcile_in_sync:
  assumes "des_List des w = (Ret ds, w1)" and "prov_List prov w1 = (Ret as, w2)"
    and "rr_Host ` set ds = pr_Host ` set as"
  shows "Reconcile des iss prov w = (Ret (), w2)"
proof -
  have "remove_stale prov [] w2 = (Ret (), w2)" by (simp add: remove_stale_def)
  moreover have "issue_certs iss [] Map.empty w2 = (Ret Map.empty, w2)" by simp
  ultimately show ?thesis
    using Reconcile_steps [OF assms(1,2) diff_in_sync [OF assms(3)]] by simp
qed

definition sample_route :: "string \<Rightarrow> string \<Rightarrow> bool \<Rightarrow> RouteRequest" where
  "sample_route i h tls = zero_RouteRequest\<lparr>rr_ID := i, rr_Host := h, rr_TLS := tls\<rparr>"

lemma sample_route_simps [simp]:
  "rr_ID (sample_route i h tls) = i" "rr_Host (sample_route i h tls) = h"
  "rr_TLS (sample_route i h tls) = tls"
  by (simp_all add: sample_route_def zero_RouteRequest_def)

definition sample_provisioned :: "string \<Rightarrow> string \<Rightarrow> ProvisionedRoute" where
  "sample_provisioned i h = \<lparr>pr_RouteID = i, pr_Host = h, pr_GatewayID = ''gw'',
     pr_CertificateID = '''', pr_Status = ''active'', pr_ProviderName = ''p''\<rparr>"

theorem reconcile_in_sync_witness:
  "Reconcile
     \<lparr>des_List = ret [sample_route ''1'' ''a.com'' True], des_Name = ''d''\<rparr>
     \<lparr>iss_Issue = (\<lambda>r. panic ''never called''), iss_Revoke = (\<lambda>c. ret ()), iss_Name = ''i''\<rparr>
     \<lparr>prov_Provision = (\<lambda>r c. panic ''x''), prov_Deprovision = (\<lambda>i. panic ''x''),
      prov_List = ret [sample_provisioned ''routes-a-com'' ''a.com''],
      prov_BatchProvision = (\<lambda>rs cs. panic ''x''), prov_BatchDeprovision = (\<lambda>ids. panic ''x''),
      prov_Name = ''p''\<rparr> (0::nat) = (Ret (), 0)"
  by (rule reconcile_in_sync
        [where ds = "[sample_route ''1'' ''a.com'' True]" and as = "[sample_provisioned ''routes-a-com'' ''a.com'']"
          and ?w1.0 = 0])
    (simp_all add: sample_provisioned_def)

end
