(* ===== verification/Orchestrator.thy ===== *)
theory Orchestrator
  imports Reconciler
begin

text \<open>
  \<open>core/orchestrator/orchestrator.go\<close>: the handler of one event as a function of the world,
  and the two concurrent loops (event loop and periodic reconciliation) of the successive
  leadership terms as a step relation, with the mutex they share.
\<close>

section \<open>Handling one event\<close>

text \<open>
  \<open>provisionRoute\<close>: the log calls after a success read fields of the returned pointers
  (\<open>cert.IssuerName\<close>, \<open>result.GatewayID\<close>), which panics when the pointer is nil.
\<close>

definition provision_with ::
  "'w RouteProvisioner \<Rightarrow> RouteRequest \<Rightarrow> Certificate option \<Rightarrow> ('w, unit) act" where
  "provision_with prov route cert =
     attempt (prov_Provision prov route cert)
       (\<lambda>e. ret ())
       (\<lambda>result. case result of None \<Rightarrow> panic ''nil pointer dereference'' | Some r \<Rightarrow> ret ())"

definition provisionRoute ::
  "'w Issuer \<Rightarrow> 'w RouteProvisioner \<Rightarrow> RouteRequest \<Rightarrow> ('w, unit) act" where
  "provisionRoute iss prov route =
     (if rr_TLS route then
        attempt (iss_Issue iss route)
          (\<lambda>e. ret ())
          (\<lambda>cert. case cert of
             None \<Rightarrow> panic ''nil pointer dereference''
           | Some c \<Rightarrow> provision_with prov route (Some c))
      else provision_with prov route None)"

definition deprovisionRoute :: "'w RouteProvisioner \<Rightarrow> RouteRequest \<Rightarrow> ('w, unit) act" where
  "deprovisionRoute prov route = attempt (prov_Deprovision prov (rr_ID route)) (\<lambda>e. ret ()) ret"

definition handleEvent ::
  "'w Issuer \<Rightarrow> 'w RouteProvisioner \<Rightarrow> RouteEvent \<Rightarrow> ('w, unit) act" where
  "handleEvent iss prov event =
     (if ev_Type event = EventRouteCreated \<or> ev_Type event = EventRouteUpdated
      then provisionRoute iss prov (ev_Route event)
      else if ev_Type event = EventRouteDeleted
      then deprovisionRoute prov (ev_Route event)
      else ret ())"

context nonnil_issuer
begin

text \<open>
  With an issuer that keeps its contract, and a provisioner that neither panics nor returns a
  nil route with a nil error, handling an event always returns normally: every error is
  logged and absorbed.
\<close>

lemma handleEvent_returns:
  assumes "\<And>r c v x v'. prov_Provision prov r c v = (x, v') \<Longrightarrow>
      (\<exists>q. x = Ret (Some q)) \<or> (\<exists>e. x = Fail e)"
    and "\<And>i v s. fst (prov_Deprovision prov i v) \<noteq> Panic s"
  shows "\<exists>w'. handleEvent iss prov ev w = (Ret (), w')"
proof -
  have pw: "\<exists>w'. provision_with prov r c v = (Ret (), w')" for r c v
  proof -
    obtain x v' where x: "prov_Provision prov r c v = (x, v')" by fastforce
    then consider q where "x = Ret (Some q)" | e where "x = Fail e" using assms(1) by blast
    then show ?thesis by cases (use x in \<open>simp_all add: provision_with_def\<close>)
  qed
  have pr: "\<exists>w'. provisionRoute iss prov r v = (Ret (), w')" for r v
  proof (cases "rr_TLS r")
    case True
    show ?thesis
    proof (rule issue_cases [of r v])
      fix c v' assume "iss_Issue iss r v = (Ret (Some c), v')"
      then show ?thesis using True pw by (simp add: provisionRoute_def)
    next
      fix e v' assume "iss_Issue iss r v = (Fail e, v')"
      then show ?thesis using True by (simp add: provisionRoute_def)
    qed
  qed (use pw in \<open>simp add: provisionRoute_def\<close>)
  have dp: "\<exists>w'. deprovisionRoute prov r v = (Ret (), w')" for r v
  proof -
    obtain x v' where x: "prov_Deprovision prov (rr_ID r) v = (x, v')" by fastforce
    show ?thesis
    proof (cases x)
      case (Panic z)
      then show ?thesis using assms(2) [of "rr_ID r" v z] x by simp
    qed (use x in \<open>simp_all add: deprovisionRoute_def\<close>)
  qed
  from pr dp show ?thesis by (simp add: handleEvent_def)
qed

end

section \<open>The loops and their mutex\<close>

text \<open>
  \<open>Run\<close> calls \<open>run\<close> once without leader election and once per leadership term with it; a
  term has its own context and, when the interval is positive, its own goroutine
  \<open>reconcileLoop\<close>. \<open>run\<close> returns when its context is cancelled, without waiting for that
  goroutine, which checks the context only between two cycles. The program counters:
  \<^item> \<open>MIdle\<close>: \<open>run\<close> is not running; \<open>MInit\<close>: the initial reconciliation, which takes no
    lock; \<open>MSelect\<close>: the \<open>select\<close> of the main loop; \<open>MLock\<close>: \<open>handleEvent\<close> waits for
    \<open>o.mu\<close>; \<open>MHandle\<close>: it holds it;
  \<^item> \<open>LSelect\<close>: the \<open>select\<close> of \<open>reconcileLoop\<close>; \<open>LLock\<close>: it waits for \<open>o.mu\<close>;
    \<open>LReconcile\<close>: it holds it; \<open>LNone\<close>: not started, or returned.
\<close>

datatype main_pc = MIdle | MInit | MSelect | MLock RouteEvent | MHandle RouteEvent

datatype loop_pc = LNone | LSelect | LLock | LReconcile

datatype mu_owner = OMain | OLoop nat

record orch_cfg =
  oc_election :: bool
  oc_reconciler :: bool
  oc_interval :: int
  oc_trigger :: bool

text \<open>
  The value that \<open>New\<close> and the options build, for triggers \<open>'t\<close> and electors \<open>'l\<close>, and the part
  of it that decides which loops run. \<open>Reconciler\<close> is what \<open>reconciler.New\<close> builds.
\<close>

record 'w Reconciler =
  rc_desired :: "'w DesiredStateProvider"
  rc_issuer :: "'w Issuer"
  rc_provisioner :: "'w RouteProvisioner"

definition rec_New :: "'w DesiredStateProvider \<Rightarrow> 'w Issuer \<Rightarrow> 'w RouteProvisioner \<Rightarrow> 'w Reconciler" where
  [simp]: "rec_New d i p = \<lparr>rc_desired = d, rc_issuer = i, rc_provisioner = p\<rparr>"

record ('w, 't, 'l) Orchestrator =
  og_trigger :: "'t option"
  og_issuer :: "'w Issuer"
  og_provisioner :: "'w RouteProvisioner"
  og_reconciler :: "'w Reconciler option"
  og_reconcileInterval :: int
  og_leaderElector :: "'l option"

definition WithReconciler ::
  "'w Reconciler \<Rightarrow> int \<Rightarrow> ('w, 't, 'l) Orchestrator \<Rightarrow> ('w, 't, 'l) Orchestrator" where
  "WithReconciler r interval o1 = o1\<lparr>og_reconciler := Some r, og_reconcileInterval := interval\<rparr>"

definition WithTrigger :: "'t option \<Rightarrow> ('w, 't, 'l) Orchestrator \<Rightarrow> ('w, 't, 'l) Orchestrator" where
  "WithTrigger t o1 = o1\<lparr>og_trigger := t\<rparr>"

definition WithLeaderElection :: "'l option \<Rightarrow> ('w, 't, 'l) Orchestrator \<Rightarrow> ('w, 't, 'l) Orchestrator" where
  "WithLeaderElection le o1 = o1\<lparr>og_leaderElector := le\<rparr>"

definition orch_New ::
  "'w Issuer \<Rightarrow> 'w RouteProvisioner \<Rightarrow> (('w, 't, 'l) Orchestrator \<Rightarrow> ('w, 't, 'l) Orchestrator) list
   \<Rightarrow> ('w, 't, 'l) Orchestrator" where
  "orch_New i p opts = foldl (\<lambda>o1 opt. opt o1)
     \<lparr>og_trigger = None, og_issuer = i, og_provisioner = p, og_reconciler = None, og_reconcileInterval = 0,
      og_leaderElector = None\<rparr> opts"

definition orch_cfg_of :: "('w, 't, 'l) Orchestrator \<Rightarrow> orch_cfg" where
  "orch_cfg_of o1 = \<lparr>oc_election = (og_leaderElector o1 \<noteq> None), oc_reconciler = (og_reconciler o1 \<noteq> None),
     oc_interval = og_reconcileInterval o1, oc_trigger = (og_trigger o1 \<noteq> None)\<rparr>"

record orch =
  o_main :: main_pc
  o_term :: nat
  o_loop :: "nat \<Rightarrow> loop_pc"
  o_cancelled :: "nat \<Rightarrow> bool"
  o_mu :: "mu_owner option"
  o_events :: bool
  o_received :: "RouteEvent list"
  o_handled :: "RouteEvent list"

definition orch_init :: orch where
  "orch_init = \<lparr>o_main = MIdle, o_term = 0, o_loop = (\<lambda>_. LNone), o_cancelled = (\<lambda>_. False),
     o_mu = None, o_events = False, o_received = [], o_handled = []\<rparr>"

text \<open>
  After the initial reconciliation: the trigger and the periodic loop are started when they
  are configured.
\<close>

definition enter_select :: "orch_cfg \<Rightarrow> orch \<Rightarrow> orch" where
  "enter_select c s = s\<lparr>o_main := MSelect, o_events := oc_trigger c,
     o_loop := (o_loop s)(o_term s := (if oc_reconciler c \<and> 0 < oc_interval c then LSelect else LNone))\<rparr>"

inductive orch_step :: "orch_cfg \<Rightarrow> orch \<Rightarrow> orch \<Rightarrow> bool" for c :: orch_cfg where
  run_start: "o_main s = MIdle \<Longrightarrow> oc_election c \<or> o_term s = 0 \<Longrightarrow> oc_reconciler c \<Longrightarrow>
    orch_step c s (s\<lparr>o_main := MInit, o_term := Suc (o_term s)\<rparr>)"
| run_start_no_reconciler: "o_main s = MIdle \<Longrightarrow> oc_election c \<or> o_term s = 0 \<Longrightarrow> \<not> oc_reconciler c \<Longrightarrow>
    orch_step c s (enter_select c (s\<lparr>o_term := Suc (o_term s)\<rparr>))"
| init_done: "o_main s = MInit \<Longrightarrow> orch_step c s (enter_select c s)"
| main_ctx_done: "o_main s = MSelect \<Longrightarrow> o_cancelled s (o_term s) \<Longrightarrow>
    orch_step c s (s\<lparr>o_main := MIdle, o_events := False\<rparr>)"
| main_trigger_err: "o_main s = MSelect \<Longrightarrow> o_events s \<Longrightarrow>
    orch_step c s (s\<lparr>o_events := False\<rparr>)"
| main_event: "o_main s = MSelect \<Longrightarrow> o_events s \<Longrightarrow>
    orch_step c s (s\<lparr>o_main := MLock ev, o_received := o_received s @ [ev]\<rparr>)"
| main_lock: "o_main s = MLock ev \<Longrightarrow> o_mu s = None \<Longrightarrow>
    orch_step c s (s\<lparr>o_main := MHandle ev, o_mu := Some OMain\<rparr>)"
| main_unlock: "o_main s = MHandle ev \<Longrightarrow>
    orch_step c s (s\<lparr>o_main := MSelect, o_mu := None, o_handled := o_handled s @ [ev]\<rparr>)"
| loop_ctx_done: "o_loop s t = LSelect \<Longrightarrow> o_cancelled s t \<Longrightarrow>
    orch_step c s (s\<lparr>o_loop := (o_loop s)(t := LNone)\<rparr>)"
| loop_tick: "o_loop s t = LSelect \<Longrightarrow>
    orch_step c s (s\<lparr>o_loop := (o_loop s)(t := LLock)\<rparr>)"
| loop_lock: "o_loop s t = LLock \<Longrightarrow> o_mu s = None \<Longrightarrow>
    orch_step c s (s\<lparr>o_loop := (o_loop s)(t := LReconcile), o_mu := Some (OLoop t)\<rparr>)"
| loop_unlock: "o_loop s t = LReconcile \<Longrightarrow>
    orch_step c s (s\<lparr>o_loop := (o_loop s)(t := LSelect), o_mu := None\<rparr>)"
| cancel: "orch_step c s (s\<lparr>o_cancelled := (o_cancelled s)(t := True)\<rparr>)"

inductive_cases orch_stepE: "orch_step c s s'"

inductive orch_reachable :: "orch_cfg \<Rightarrow> orch \<Rightarrow> bool" for c :: orch_cfg where
  orch_start: "orch_reachable c orch_init"
| orch_next: "orch_reachable c s \<Longrightarrow> orch_step c s s' \<Longrightarrow> orch_reachable c s'"

section \<open>Invariants\<close>

text \<open>The event that is received and not yet handled.\<close>

fun pending :: "main_pc \<Rightarrow> RouteEvent list" where
  "pending (MLock ev) = [ev]"
| "pending (MHandle ev) = [ev]"
| "pending _ = []"

text \<open>
  The owner of the mutex is the goroutine in its critical section (\<open>mu_inv\<close>); loops of
  later terms do not exist yet, nor does the one of a term still in its initial
  reconciliation (\<open>term_inv\<close>); the events received are those handled and the pending one,
  in order (\<open>queue_inv\<close>).
\<close>

definition mu_inv :: "orch \<Rightarrow> bool" where
  "mu_inv s \<longleftrightarrow> (case o_mu s of
       None \<Rightarrow> (\<forall>ev. o_main s \<noteq> MHandle ev) \<and> (\<forall>t. o_loop s t \<noteq> LReconcile)
     | Some OMain \<Rightarrow> (\<exists>ev. o_main s = MHandle ev) \<and> (\<forall>t. o_loop s t \<noteq> LReconcile)
     | Some (OLoop u) \<Rightarrow> (\<forall>ev. o_main s \<noteq> MHandle ev) \<and> (\<forall>t. o_loop s t = LReconcile \<longleftrightarrow> t = u))"

definition term_inv :: "orch \<Rightarrow> bool" where
  "term_inv s \<longleftrightarrow> (\<forall>t. o_term s < t \<longrightarrow> o_loop s t = LNone) \<and>
     (o_main s = MInit \<longrightarrow> o_loop s (o_term s) = LNone)"

definition queue_inv :: "orch_cfg \<Rightarrow> orch \<Rightarrow> bool" where
  "queue_inv c s \<longleftrightarrow> o_received s = o_handled s @ pending (o_main s) \<and> (o_events s \<longrightarrow> oc_trigger c)"

lemma term_inv_step: "orch_step c s s' \<Longrightarrow> term_inv s \<Longrightarrow> term_inv s'"
  by (erule orch_stepE) (force simp: term_inv_def enter_select_def)+

lemma queue_inv_step: "orch_step c s s' \<Longrightarrow> queue_inv c s \<Longrightarrow> queue_inv c s'"
  by (erule orch_stepE) (auto simp: queue_inv_def enter_select_def)

lemma mu_inv_step:
  "orch_step c s s' \<Longrightarrow> term_inv s \<Longrightarrow> mu_inv s \<Longrightarrow> mu_inv s'"
  by (erule orch_stepE; simp add: mu_inv_def term_inv_def enter_select_def
        split: option.splits mu_owner.splits) (metis lessI loop_pc.distinct)+

lemma orch_reachable_inv: "orch_reachable c s \<Longrightarrow> mu_inv s \<and> term_inv s \<and> queue_inv c s"
proof (induction rule: orch_reachable.induct)
  case orch_start
  show ?case by (simp add: mu_inv_def term_inv_def queue_inv_def orch_init_def)
next
  case (orch_next s s')
  then show ?case by (blast intro: mu_inv_step term_inv_step queue_inv_step)
qed

text \<open>Contexts stay cancelled and terms only grow.\<close>

lemma orch_step_mono: "orch_step c s s' \<Longrightarrow> o_term s \<le> o_term s' \<and> (o_cancelled s t \<longrightarrow> o_cancelled s' t)"
  by (induction rule: orch_step.induct) (auto simp: enter_select_def)

text \<open>Without leader election there is one term.\<close>

definition single_term_inv :: "orch_cfg \<Rightarrow> orch \<Rightarrow> bool" where
  "single_term_inv c s \<longleftrightarrow> (\<not> oc_election c \<longrightarrow> o_term s \<le> 1) \<and> o_loop s 0 = LNone \<and>
     (o_main s \<noteq> MIdle \<longrightarrow> 0 < o_term s)"

lemma single_term_inv_step: "orch_step c s s' \<Longrightarrow> single_term_inv c s \<Longrightarrow> single_term_inv c s'"
  by (erule orch_stepE) (auto simp: single_term_inv_def enter_select_def intro!: gr0I)

lemma orch_reachable_single: "orch_reachable c s \<Longrightarrow> single_term_inv c s"
proof (induction rule: orch_reachable.induct)
  case orch_start
  show ?case by (simp add: single_term_inv_def orch_init_def)
next
  case (orch_next s s')
  then show ?case by (blast intro: single_term_inv_step)
qed

section \<open>Properties\<close>

text \<open>
  C6: in every reachable state at most one goroutine, of any term, is in a critical section:
  the handler of an event and a periodic reconciliation exclude each other, and so do the
  reconciliations of two terms.
\<close>

theorem critical_sections_exclusive:
  assumes "orch_reachable c s"
  shows "\<not> (o_main s = MHandle ev \<and> o_loop s t = LReconcile) \<and>
    (o_loop s t = LReconcile \<and> o_loop s u = LReconcile \<longrightarrow> t = u)"
  using orch_reachable_inv [OF assms]
  by (auto simp: mu_inv_def split: option.splits mu_owner.splits)

text \<open>
  C30: events are handled one at a time in the order in which they were received, none is lost
  or handled twice, and none is received when no trigger is configured.
\<close>

theorem events_in_order:
  assumes "orch_reachable c s"
  shows "(\<exists>rest. o_received s = o_handled s @ rest \<and> length rest \<le> 1) \<and>
    (o_main s = MSelect \<longrightarrow> o_received s = o_handled s) \<and> (o_events s \<longrightarrow> oc_trigger c)"
proof -
  have q: "o_received s = o_handled s @ pending (o_main s)" "o_events s \<longrightarrow> oc_trigger c"
    using orch_reachable_inv [OF assms] by (simp_all add: queue_inv_def)
  have "length (pending (o_main s)) \<le> 1" by (cases "o_main s") simp_all
  with q show ?thesis by auto
qed

text \<open>
  The initial reconciliation takes no lock. Without leader election nothing else runs
  meanwhile, as the comment in the code says.
\<close>

lemma initial_reconciliation_alone:
  assumes "orch_reachable c s" and "\<not> oc_election c" and "o_main s = MInit"
  shows "o_mu s = None \<and> (\<forall>t. o_loop s t = LNone)"
proof -
  have inv: "mu_inv s" "term_inv s" "single_term_inv c s"
    using orch_reachable_inv [OF assms(1)] orch_reachable_single [OF assms(1)] by simp_all
  have one: "o_term s = 1" using inv(3) assms(2,3) by (simp add: single_term_inv_def)
  have t: "o_loop s 0 = LNone" "o_loop s 1 = LNone"
    using inv(2,3) assms(3) one by (simp_all add: term_inv_def single_term_inv_def)
  have "o_loop s t = LNone" for t
    using t inv(2) one by (cases "t = 0"; cases "t = 1") (simp_all add: term_inv_def)
  moreover from this have "o_mu s = None"
    using inv(1) assms(3) by (auto simp: mu_inv_def split: option.splits mu_owner.splits)
  ultimately show ?thesis by blast
qed

definition demo_orch :: "bool \<Rightarrow> orch_cfg" where
  "demo_orch election = \<lparr>oc_election = election, oc_reconciler = True, oc_interval = 1, oc_trigger = True\<rparr>"

lemmas orch_run = orch_next [OF _ orch_step.run_start] orch_next [OF _ orch_step.init_done]
  orch_next [OF _ orch_step.loop_tick] orch_next [OF _ orch_step.loop_lock]
  orch_next [OF _ orch_step.cancel] orch_next [OF _ orch_step.main_ctx_done]
  orch_next [OF _ orch_step.main_event] orch_next [OF _ orch_step.main_lock]

lemma demo_orch_init:
  "orch_reachable (demo_orch e) (orch_init\<lparr>o_main := MInit, o_term := Suc 0\<rparr>)"
  using orch_run(1) [OF orch_start, of "demo_orch e"] by (simp add: demo_orch_def orch_init_def)

text \<open>A state in which the loop of the first term reconciles under the mutex.\<close>

definition demo_reconciling :: "bool \<Rightarrow> orch" where
  "demo_reconciling b = \<lparr>o_main = MSelect, o_term = Suc 0, o_loop = (\<lambda>_. LNone)(Suc 0 := LReconcile),
     o_cancelled = (\<lambda>t. b \<and> t = Suc 0), o_mu = Some (OLoop (Suc 0)), o_events = True,
     o_received = [], o_handled = []\<rparr>"

lemma demo_reconciling_reachable: "orch_reachable (demo_orch e) (demo_reconciling b)"
proof -
  note s1 = orch_run(2) [OF demo_orch_init [of e], simplified]
  note s2 = orch_run(3) [OF s1, of "Suc 0"]
  note s3 = orch_run(4) [OF s2, of "Suc 0"]
  have s: "orch_reachable (demo_orch e) (demo_reconciling False)"
    using s3 by (simp add: enter_select_def demo_orch_def orch_init_def demo_reconciling_def)
  have c: "(\<lambda>_. False)(Suc 0 := True) = (\<lambda>t. t = Suc 0)" by (simp add: fun_eq_iff)
  from orch_run(5) [OF s, of "Suc 0"] s show ?thesis
    by (cases b) (simp_all add: demo_reconciling_def c)
qed

text \<open>
  With leader election a term's initial reconciliation can run while the periodic
  reconciliation of the previous term still does: \<open>run\<close> returns on the loss of leadership
  without waiting for its goroutine, and the next term reconciles without the mutex.
\<close>

lemma initial_reconciliation_can_overlap:
  "\<exists>s. orch_reachable (demo_orch True) s \<and> o_main s = MInit \<and> o_loop s 1 = LReconcile \<and> o_mu s = Some (OLoop 1)"
proof -
  note s0 = demo_reconciling_reachable [of True True]
  note s1 = orch_run(6) [OF s0]
  have "orch_reachable (demo_orch True) (demo_reconciling True\<lparr>o_main := MIdle, o_events := False\<rparr>)"
    using s1 by (simp add: demo_reconciling_def)
  from orch_run(1) [OF this] show ?thesis
    by (intro exI conjI) (assumption | simp add: demo_reconciling_def demo_orch_def)+
qed

theorem critical_sections_exclusive_witness:
  "o_loop (demo_reconciling False) 1 = LReconcile \<and>
     (\<forall>ev. \<not> (o_main (demo_reconciling False) = MHandle ev \<and> o_loop (demo_reconciling False) 1 = LReconcile))"
  using critical_sections_exclusive [OF demo_reconciling_reachable [of True False], of _ 1 1]
  by (simp add: demo_reconciling_def)

definition demo_event :: RouteEvent where
  "demo_event = \<lparr>ev_Type = EventRouteDeleted, ev_Route = zero_RouteRequest, ev_RawData = ''''\<rparr>"

lemma demo_pending_reachable:
  "orch_reachable (demo_orch True)
     (demo_reconciling False\<lparr>o_main := MLock demo_event, o_received := [demo_event]\<rparr>)"
  using orch_run(7) [OF demo_reconciling_reachable [of True False], of demo_event]
  by (simp add: demo_reconciling_def)

theorem events_in_order_witness:
  "\<exists>rest. o_received (demo_reconciling False\<lparr>o_main := MLock demo_event, o_received := [demo_event]\<rparr>) =
     o_handled (demo_reconciling False) @ rest \<and> length rest \<le> 1"
  using events_in_order [OF demo_pending_reachable] by (simp add: demo_reconciling_def)

lemma initial_reconciliation_alone_instance:
  "o_mu (orch_init\<lparr>o_main := MInit, o_term := Suc 0\<rparr>) = None"
  using initial_reconciliation_alone [OF demo_orch_init [of False]] by (simp add: demo_orch_def)

end
