(* ===== verification/LogProvisioner.thy ===== *)
theory LogProvisioner
  imports Reconciler "HOL-Library.AList"
begin

text \<open>
  \<open>impl/provisioner-log/provisioner.go\<close>: the provisioner that keeps its routes in memory,
  and the contract \<open>route_provisioner\<close> discharged for it. The Go map \<open>routes\<close> is an
  association list with distinct keys; Go iterates over a map in an unspecified order, and
  the order of the list stands for one such order (no lemma depends on it). The mutex makes
  each operation atomic, which a state-passing function is.
\<close>

section \<open>State and operations\<close>

record LogProvisioner =
  lp_routes :: "(string \<times> ProvisionedRoute) list"

definition log_New :: LogProvisioner where
  "log_New = \<lparr>lp_routes = []\<rparr>"

definition log_Name :: string where
  "log_Name = ''log''"

fun certHost :: "Certificate option \<Rightarrow> string" where
  "certHost None = ''''"
| "certHost (Some cert) = crt_Host cert"

definition log_routeID :: "RouteRequest \<Rightarrow> string" where
  "log_routeID req = (if rr_ID req \<noteq> '''' then rr_ID req else rr_Host req)"

definition log_route :: "RouteRequest \<Rightarrow> Certificate option \<Rightarrow> ProvisionedRoute" where
  "log_route req cert =
     \<lparr>pr_RouteID = log_routeID req, pr_Host = rr_Host req, pr_GatewayID = ''log-console'',
      pr_CertificateID = certHost cert, pr_Status = ''active'', pr_ProviderName = log_Name\<rparr>"

definition log_Provision ::
  "RouteRequest \<Rightarrow> Certificate option \<Rightarrow> (LogProvisioner, ProvisionedRoute option) act" where
  "log_Provision req cert p =
     (let route = log_route req cert
      in (Ret (Some route), p\<lparr>lp_routes := AList.update (log_routeID req) route (lp_routes p)\<rparr>))"

definition log_Deprovision :: "string \<Rightarrow> (LogProvisioner, unit) act" where
  "log_Deprovision routeID p = (Ret (), p\<lparr>lp_routes := AList.delete routeID (lp_routes p)\<rparr>)"

definition log_List :: "(LogProvisioner, ProvisionedRoute list) act" where
  "log_List p = (Ret (map snd (lp_routes p)), p)"

text \<open>\<open>*result\<close> panics on a nil pointer, which \<open>Provision\<close> never returns.\<close>

fun log_batch_loop ::
  "RouteRequest list \<Rightarrow> (string \<rightharpoonup> Certificate) \<Rightarrow> ProvisionedRoute list
   \<Rightarrow> (LogProvisioner, ProvisionedRoute list) act" where
  "log_batch_loop [] certs results = ret results"
| "log_batch_loop (req # routes) certs results =
     bindr (log_Provision req (certs (rr_Host req))) (\<lambda>result. case result of
       None \<Rightarrow> panic ''nil pointer dereference''
     | Some r \<Rightarrow> log_batch_loop routes certs (results @ [r]))"

definition log_BatchProvision ::
  "RouteRequest list \<Rightarrow> (string \<rightharpoonup> Certificate) \<Rightarrow> (LogProvisioner, ProvisionedRoute list) act" where
  "log_BatchProvision routes certs = log_batch_loop routes certs []"

fun log_BatchDeprovision :: "string list \<Rightarrow> (LogProvisioner, unit) act" where
  "log_BatchDeprovision [] = ret ()"
| "log_BatchDeprovision (i # ids) = bindr (log_Deprovision i) (\<lambda>_. log_BatchDeprovision ids)"

definition log_provisioner :: "LogProvisioner RouteProvisioner" where
  "log_provisioner =
     \<lparr>prov_Provision = log_Provision, prov_Deprovision = log_Deprovision,
      prov_List = log_List, prov_BatchProvision = log_BatchProvision,
      prov_BatchDeprovision = log_BatchDeprovision, prov_Name = log_Name\<rparr>"

section \<open>Invariant\<close>

text \<open>Keys are distinct and every route is stored under its own ID.\<close>

definition log_inv :: "LogProvisioner \<Rightarrow> bool" where
  "log_inv p \<longleftrightarrow> distinct (map fst (lp_routes p)) \<and> (\<forall>(k, r) \<in> set (lp_routes p). pr_RouteID r = k)"

definition log_pairs :: "LogProvisioner \<Rightarrow> (string \<times> string) set" where
  "log_pairs p = (\<lambda>r. (pr_RouteID r, pr_Host r)) ` snd ` set (lp_routes p)"

text \<open>The map a state stands for: under the invariant it determines the pairs.\<close>

abbreviation log_map :: "LogProvisioner \<Rightarrow> (string \<rightharpoonup> ProvisionedRoute)" where
  "log_map p \<equiv> map_of (lp_routes p)"

lemma log_inv_New [simp]: "log_inv log_New"
  by (simp add: log_inv_def log_New_def)

lemma log_inv_map: "log_inv p \<Longrightarrow> log_map p k = Some r \<Longrightarrow> pr_RouteID r = k"
  by (auto simp: log_inv_def dest: map_of_SomeD)

lemma log_inv_update:
  assumes "log_inv p" "pr_RouteID r = k"
  shows "log_inv (p\<lparr>lp_routes := AList.update k r (lp_routes p)\<rparr>)"
proof -
  have d: "distinct (map fst (AList.update k r (lp_routes p)))"
    using assms by (simp add: log_inv_def distinct_update)
  moreover have "pr_RouteID s = j" if "(j, s) \<in> set (AList.update k r (lp_routes p))" for j s
  proof -
    have "map_of (AList.update k r (lp_routes p)) j = Some s" using that d by simp
    then show ?thesis
      using assms log_inv_map [OF assms(1)] by (auto simp: update_conv' split: if_splits)
  qed
  ultimately show ?thesis by (auto simp: log_inv_def)
qed

lemma log_inv_delete:
  assumes "log_inv p"
  shows "log_inv (p\<lparr>lp_routes := AList.delete k (lp_routes p)\<rparr>)"
proof -
  have "distinct (map fst (AList.delete k (lp_routes p)))"
    using assms by (simp add: log_inv_def distinct_delete)
  moreover have "set (AList.delete k (lp_routes p)) \<subseteq> set (lp_routes p)"
    by (auto simp: AList.delete_eq)
  ultimately show ?thesis using assms by (auto simp: log_inv_def)
qed

lemma log_pairs_map:
  assumes "log_inv p"
  shows "(i, h) \<in> log_pairs p \<longleftrightarrow> (\<exists>r. log_map p i = Some r \<and> pr_Host r = h)"
proof
  assume "(i, h) \<in> log_pairs p"
  then obtain k r where r: "(k, r) \<in> set (lp_routes p)" "pr_RouteID r = i" "pr_Host r = h"
    by (auto simp: log_pairs_def)
  then have "k = i" "log_map p k = Some r" using assms by (auto simp: log_inv_def)
  with r show "\<exists>r. log_map p i = Some r \<and> pr_Host r = h" by blast
next
  assume "\<exists>r. log_map p i = Some r \<and> pr_Host r = h"
  then obtain r where r: "log_map p i = Some r" "pr_Host r = h" by blast
  then have "(i, r) \<in> set (lp_routes p)" "pr_RouteID r = i"
    using log_inv_map [OF assms] by (auto dest: map_of_SomeD)
  with r show "(i, h) \<in> log_pairs p" by (force simp: log_pairs_def)
qed

section \<open>What each operation does to the map\<close>

lemma log_Provision_map:
  "log_Provision req cert p = (x, p') \<Longrightarrow>
     log_map p' = (log_map p)(log_routeID req \<mapsto> log_route req cert)"
  by (auto simp: log_Provision_def Let_def update_conv')

lemma log_Provision_inv: "log_inv p \<Longrightarrow> log_Provision req cert p = (x, p') \<Longrightarrow> log_inv p'"
  by (auto simp: log_Provision_def Let_def log_route_def intro!: log_inv_update)

lemma log_batch_loop_run:
  "log_inv p \<Longrightarrow> \<exists>p'. log_batch_loop rs certs acc p =
       (Ret (acc @ map (\<lambda>r. log_route r (certs (rr_Host r))) rs), p') \<and> log_inv p' \<and>
     log_map p' = foldl (\<lambda>m r. m(log_routeID r \<mapsto> log_route r (certs (rr_Host r)))) (log_map p) rs"
proof (induction rs arbitrary: acc p)
  case Nil
  then show ?case by simp
next
  case (Cons r rs)
  obtain p1 where p1: "log_Provision r (certs (rr_Host r)) p = (Ret (Some (log_route r (certs (rr_Host r)))), p1)"
    by (auto simp: log_Provision_def Let_def)
  show ?case
    using Cons.IH [OF log_Provision_inv [OF Cons.prems p1], of "acc @ [log_route r (certs (rr_Host r))]"] p1
      log_Provision_map [OF p1]
    by auto
qed

lemma log_BatchDeprovision_run:
  "log_inv p \<Longrightarrow> \<exists>p'. log_BatchDeprovision ids p = (Ret (), p') \<and> log_inv p' \<and>
     log_map p' = log_map p |` (- set ids)"
proof (induction ids arbitrary: p)
  case Nil
  then show ?case by simp
next
  case (Cons i ids)
  let ?p = "p\<lparr>lp_routes := AList.delete i (lp_routes p)\<rparr>"
  obtain p' where p': "log_BatchDeprovision ids ?p = (Ret (), p')" "log_inv p'"
    "log_map p' = log_map ?p |` (- set ids)"
    using Cons.IH [OF log_inv_delete [OF Cons.prems]] by blast
  have "log_map ?p = (log_map p)(i := None)" by (simp add: delete_conv')
  then have "log_map p' = log_map p |` (- set (i # ids))"
    using p'(3) by (auto simp: restrict_map_def fun_eq_iff)
  with p'(1,2) show ?case by (auto simp: log_Deprovision_def)
qed

section \<open>The contract of a provisioner\<close>

interpretation log_prov: route_provisioner log_provisioner log_routeID log_pairs log_inv "\<lambda>_. True"
proof
  fix w :: LogProvisioner
  show "\<exists>rs. prov_List log_provisioner w = (Ret rs, w) \<and>
      (\<lambda>p. (pr_RouteID p, pr_Host p)) ` set rs = log_pairs w"
    by (simp add: log_provisioner_def log_List_def log_pairs_def image_image)
next
  fix w w' ids
  assume inv: "log_inv w" and run: "prov_BatchDeprovision log_provisioner ids w = (Ret (), w')"
  obtain p' where "log_BatchDeprovision ids w = (Ret (), p')" "log_inv p'"
    "log_map p' = log_map w |` (- set ids)"
    using log_BatchDeprovision_run [OF inv] by blast
  then have w': "log_inv w'" "log_map w' = log_map w |` (- set ids)"
    using run by (simp_all add: log_provisioner_def)
  have "(i, h) \<in> log_pairs w' \<longleftrightarrow> (i, h) \<in> {r \<in> log_pairs w. fst r \<notin> set ids}" for i h
    using log_pairs_map [OF w'(1)] log_pairs_map [OF inv] by (simp add: w'(2) restrict_map_def)
  with w'(1) show "log_inv w' \<and> log_pairs w' = {r \<in> log_pairs w. fst r \<notin> set ids}" by auto
next
  fix w w' rs cs out
  assume inv: "log_inv w" and run: "prov_BatchProvision log_provisioner rs cs w = (Ret out, w')"
    and ids: "consistent_ids log_routeID rs" and fresh: "\<forall>r \<in> set rs. \<forall>h. (log_routeID r, h) \<notin> log_pairs w"
  let ?g = "\<lambda>r. log_route r (cs (rr_Host r))"
  obtain p' out' where "log_batch_loop rs cs [] w = (Ret out', p')" "log_inv p'"
    "log_map p' = foldl (\<lambda>m r. m(log_routeID r \<mapsto> ?g r)) (log_map w) rs"
    using log_batch_loop_run [OF inv, of rs cs "[]"] by blast
  then have w': "log_inv w'" "log_map w' = foldl (\<lambda>m r. m(log_routeID r \<mapsto> ?g r)) (log_map w) rs"
    using run by (simp_all add: log_provisioner_def log_BatchProvision_def)
  have "(i, h) \<in> log_pairs w' \<longleftrightarrow> (i, h) \<in> log_pairs w \<union> (\<lambda>r. (log_routeID r, rr_Host r)) ` set rs" for i h
  proof (cases "i \<in> log_routeID ` set rs")
    case True
    from foldl_upd_in [OF this, of ?g "log_map w"]
    obtain r where r: "r \<in> set rs" "log_routeID r = i" "log_map w' i = Some (?g r)"
      unfolding w'(2) by blast
    have "(i, h) \<in> log_pairs w' \<longleftrightarrow> h = rr_Host r"
      using log_pairs_map [OF w'(1)] r(3) by (auto simp: log_route_def)
    moreover have "rr_Host b = rr_Host r" if "b \<in> set rs" "log_routeID b = i" for b
      using ids that r(1,2) unfolding consistent_ids_def by metis
    then have "(i, h) \<in> (\<lambda>r. (log_routeID r, rr_Host r)) ` set rs \<longleftrightarrow> h = rr_Host r"
      using r(1,2) by blast
    moreover have "(i, h) \<notin> log_pairs w" using fresh r by blast
    ultimately show ?thesis by blast
  next
    case False
    then have "log_map w' i = log_map w i" unfolding w'(2) by (rule map_of_fold_upd_None)
    then have "(i, h) \<in> log_pairs w' \<longleftrightarrow> (i, h) \<in> log_pairs w"
      using log_pairs_map [OF w'(1)] log_pairs_map [OF inv] by simp
    with False show ?thesis by blast
  qed
  with w'(1) show "log_inv w' \<and> log_pairs w' = log_pairs w \<union> (\<lambda>r. (log_routeID r, rr_Host r)) ` set rs"
    by auto
qed

lemma log_BatchDeprovision_ok: "fst (prov_BatchDeprovision log_provisioner ids p) = Ret ()"
  by (induction ids arbitrary: p) (simp_all add: log_provisioner_def log_Deprovision_def)

end
