(* ===== verification/CertIssuers.thy ===== *)
theory CertIssuers
  imports Core
begin

text \<open>
  The issuers \<open>impl/cert-none\<close>, \<open>impl/cert-selfsigned\<close> and \<open>impl/cert-vault\<close>, with their
  configuration options, and which contract of \<open>Core\<close> each keeps. Key generation, X.509 and
  PEM encoding (Go's \<open>crypto\<close> and \<open>encoding/pem\<close>) and the Vault client are parameters, the
  fields of \<open>crypto_env\<close> and \<open>vault_env\<close>: nothing is assumed of them.
\<close>

section \<open>The no-op issuer\<close>

definition none_Issue :: "RouteRequest \<Rightarrow> ('w, Certificate option) act" where
  "none_Issue req = ret None"

definition none_Revoke :: "Certificate \<Rightarrow> ('w, unit) act" where
  "none_Revoke cert = ret ()"

definition none_issuer :: "'w Issuer" where
  "none_issuer = \<lparr>iss_Issue = none_Issue, iss_Revoke = none_Revoke, iss_Name = ''none''\<rparr>"

lemma none_issuer_not_nonnil: "\<not> nonnil_issuer none_issuer"
proof
  assume "nonnil_issuer (none_issuer :: 'a Issuer)"
  from nonnil_issuer.issue_nonnil [OF this, of undefined undefined "Ret None" undefined]
  show False by (simp add: none_issuer_def none_Issue_def)
qed

section \<open>Self-signed certificates\<close>

record ss_config =
  ss_validity :: int
  ss_organization :: string

definition ss_defaultConfig :: ss_config where
  "ss_defaultConfig = \<lparr>ss_validity = 365 * 24 * 3600 * second, ss_organization = ''Self-Signed''\<rparr>"

definition ss_WithValidity :: "int \<Rightarrow> ss_config \<Rightarrow> ss_config" where
  "ss_WithValidity d c = c\<lparr>ss_validity := d\<rparr>"

definition ss_WithOrganization :: "string \<Rightarrow> ss_config \<Rightarrow> ss_config" where
  "ss_WithOrganization org c = c\<lparr>ss_organization := org\<rparr>"

definition ss_New :: "(ss_config \<Rightarrow> ss_config) list \<Rightarrow> ss_config" where
  "ss_New opts = foldl (\<lambda>cfg opt. opt cfg) ss_defaultConfig opts"

text \<open>The fields of the X.509 template that \<open>Issue\<close> sets.\<close>

record x509_template =
  tpl_SerialNumber :: int
  tpl_CommonName :: string
  tpl_Organization :: "string list"
  tpl_DNSNames :: "string list"
  tpl_NotBefore :: int
  tpl_NotAfter :: int
  tpl_KeyUsage :: "string list"
  tpl_ExtKeyUsage :: "string list"
  tpl_BasicConstraintsValid :: bool

text \<open>
  Go's \<open>crypto/rand\<close>, \<open>crypto/ecdsa\<close>, \<open>crypto/x509\<close>, \<open>encoding/pem\<close> and the clock.
  \<open>cr_RandInt n\<close> is \<open>rand.Int(rand.Reader, n)\<close>; a key is a string.
\<close>

record 'w crypto_env =
  cr_GenerateKey :: "('w, string) svc"
  cr_RandInt :: "int \<Rightarrow> ('w, int) svc"
  cr_Now :: "'w \<Rightarrow> int"
  cr_CreateCertificate :: "x509_template \<Rightarrow> string \<Rightarrow> ('w, string) svc"
  cr_MarshalECPrivateKey :: "string \<Rightarrow> ('w, string) svc"
  cr_PemEncode :: "string \<Rightarrow> string \<Rightarrow> string"

definition ss_template :: "ss_config \<Rightarrow> string \<Rightarrow> int \<Rightarrow> int \<Rightarrow> x509_template" where
  "ss_template cfg host serial now =
     \<lparr>tpl_SerialNumber = serial, tpl_CommonName = host, tpl_Organization = [ss_organization cfg],
      tpl_DNSNames = [host], tpl_NotBefore = now, tpl_NotAfter = now + ss_validity cfg,
      tpl_KeyUsage = [''DigitalSignature'', ''KeyEncipherment''], tpl_ExtKeyUsage = [''ServerAuth''],
      tpl_BasicConstraintsValid = True\<rparr>"

definition ss_finish ::
  "'w crypto_env \<Rightarrow> ss_config \<Rightarrow> string \<Rightarrow> string \<Rightarrow> int \<Rightarrow> int \<Rightarrow> ('w, Certificate option) act" where
  "ss_finish env cfg host key serialNumber now =
     wrapr ''create certificate''
       (ext (cr_CreateCertificate env (ss_template cfg host serialNumber now) key)) (\<lambda>certDER.
     wrapr ''marshal key'' (ext (cr_MarshalECPrivateKey env key)) (\<lambda>keyDER.
       ret (Some \<lparr>crt_Host = host, crt_CertPEM = cr_PemEncode env ''CERTIFICATE'' certDER,
         crt_KeyPEM = cr_PemEncode env ''EC PRIVATE KEY'' keyDER, crt_CACertPEM = '''',
         crt_NotBefore = now, crt_NotAfter = now + ss_validity cfg,
         crt_IssuerName = ''self-signed''\<rparr>)))"

definition ss_Issue ::
  "'w crypto_env \<Rightarrow> ss_config \<Rightarrow> RouteRequest \<Rightarrow> ('w, Certificate option) act" where
  "ss_Issue env cfg req =
     wrapr ''generate key'' (ext (cr_GenerateKey env)) (\<lambda>key.
     wrapr ''generate serial'' (ext (cr_RandInt env (2 ^ 128))) (\<lambda>serialNumber w.
       ss_finish env cfg (rr_Host req) key serialNumber (cr_Now env w) w))"

definition ss_Revoke :: "Certificate \<Rightarrow> ('w, unit) act" where
  "ss_Revoke cert = ret ()"

definition ss_issuer :: "'w crypto_env \<Rightarrow> ss_config \<Rightarrow> 'w Issuer" where
  "ss_issuer env cfg = \<lparr>iss_Issue = ss_Issue env cfg, iss_Revoke = ss_Revoke, iss_Name = ''self-signed''\<rparr>"

text \<open>A successful issuance, with the two fields that carry the validity.\<close>

lemma ss_finish_Ret:
  assumes "ss_finish env cfg host key serialNumber now w = (Ret x, w')"
  obtains c where "x = Some c" "crt_Host c = host" "crt_IssuerName c = ''self-signed''"
    "crt_NotBefore c = now" "crt_NotAfter c = now + ss_validity cfg"
  using assms unfolding ss_finish_def by (auto elim!: wrapr_RetD)

lemma ss_Issue_Ret:
  assumes "ss_Issue env cfg req w = (Ret x, w')"
  obtains c where "x = Some c" "crt_Host c = rr_Host req" "crt_IssuerName c = ''self-signed''"
    "crt_NotAfter c = crt_NotBefore c + ss_validity cfg"
  using assms unfolding ss_Issue_def
  by (elim wrapr_RetD ss_finish_Ret) simp

lemma ss_no_panic: "fst (ss_Issue env cfg req w) \<noteq> Panic s"
proof -
  have "no_panic (ss_finish env cfg h k sn now)" for h k sn now
    unfolding ss_finish_def by (intro no_panic_intros) simp_all
  then have "no_panic (\<lambda>w. ss_finish env cfg h k sn (cr_Now env w) w)" for h k sn
    by (simp add: no_panic_def)
  then have "no_panic (ss_Issue env cfg req)"
    unfolding ss_Issue_def by (intro no_panic_intros) simp_all
  then show ?thesis by (simp add: no_panic_def)
qed

text \<open>The self-signed issuer keeps both contracts.\<close>

interpretation ss: host_issuer "ss_issuer env cfg" for env cfg
proof
  fix r w x w'
  assume run: "iss_Issue (ss_issuer env cfg) r w = (x, w')"
  then have "x \<noteq> Panic s" for s
    using ss_no_panic [of env cfg r w s] by (auto simp: ss_issuer_def)
  then show "(\<exists>c. x = Ret (Some c)) \<or> (\<exists>e. x = Fail e)"
    using run by (cases x) (auto simp: ss_issuer_def elim: ss_Issue_Ret)
next
  fix r w c w'
  assume "iss_Issue (ss_issuer env cfg) r w = (Ret (Some c), w')"
  then show "crt_Host c = rr_Host r" by (auto simp: ss_issuer_def elim: ss_Issue_Ret)
qed

end
