(* ===== verification/KubeIngress.thy ===== *)
theory KubeIngress
  imports Core "HOL-Library.Multiset"
begin

text \<open>
  The Kubernetes side of \<open>impl/provisioner-ingress\<close>: the fields of \<open>networking/v1\<close> that
  the code reads and writes, the JSON Patch operations it sends, the client as a parameter
  (\<open>kube_api\<close>) and the documented behaviour of the API server that the theorems about the
  provisioner assume (\<open>kube_ok\<close>): RFC 6902 for patches, names unique in a namespace, label
  selectors, and the rejection of an Ingress without rules that the comments of the code
  name.
\<close>

section \<open>Ingress objects\<close>

record IngressPath =
  ip_Path :: string
  ip_PathType :: string
  ip_ServiceName :: string
  ip_ServicePort :: int

record IngressRule =
  ir_Host :: string
  ir_Paths :: "IngressPath list"

record IngressTLS =
  it_Hosts :: "string list"
  it_SecretName :: string

record Ingress =
  ig_Name :: string
  ig_Namespace :: string
  ig_Labels :: "string \<rightharpoonup> string"
  ig_Annotations :: "string \<rightharpoonup> string"
  ig_ClassName :: "string option"
  ig_Rules :: "IngressRule list"
  ig_TLS :: "IngressTLS list"

section \<open>JSON Patch\<close>

text \<open>
  The values the code puts into a patch. \<open>PNone\<close> is the nil interface, which \<open>omitempty\<close>
  drops; \<open>PTLSs []\<close> is a nil slice, which is encoded as null.
\<close>

datatype patch_value =
    PNone
  | PRule IngressRule
  | PTLS IngressTLS
  | PRules "IngressRule list"
  | PTLSs "IngressTLS list"

record jsonPatch =
  jp_Op :: string
  jp_Path :: string
  jp_Value :: patch_value

record 'w kube_api =
  ka_List :: "string \<Rightarrow> string \<Rightarrow> ('w, Ingress list) svc"
  ka_Create :: "string \<Rightarrow> Ingress \<Rightarrow> ('w, Ingress) svc"
  ka_Delete :: "string \<Rightarrow> string \<Rightarrow> ('w, unit) svc"
  ka_Patch :: "string \<Rightarrow> string \<Rightarrow> jsonPatch list \<Rightarrow> ('w, unit) svc"

text \<open>
  The two array members of the \<open>spec\<close> of an Ingress document. Both Go fields are
  \<open>omitempty\<close>: an empty list is an absent member.
\<close>

datatype 'a member = Absent | Null | Arr "'a list"

type_synonym spec_doc = "IngressRule member \<times> IngressTLS member"

definition member_of_list :: "'a list \<Rightarrow> 'a member" where
  "member_of_list xs = (if xs = [] then Absent else Arr xs)"

fun list_of_member :: "'a member \<Rightarrow> 'a list" where
  "list_of_member (Arr xs) = xs"
| "list_of_member _ = []"

datatype ptr = PtrAll | PtrEnd | PtrIndex nat

definition strip_prefix :: "string \<Rightarrow> string \<Rightarrow> string option" where
  "strip_prefix p s = (if take (length p) s = p then Some (drop (length p) s) else None)"

definition parse_index :: "string \<Rightarrow> ptr option" where
  "parse_index s =
     (if s = [] then Some PtrAll
      else if s = ''/-'' then Some PtrEnd
      else if hd s = CHR ''/'' then map_option PtrIndex (atoi (tl s)) else None)"

text \<open>RFC 6902 on one array member: section 4.1 (add), 4.2 (remove), 4.3 (replace).\<close>

fun member_add :: "ptr \<Rightarrow> 'a \<Rightarrow> 'a member \<Rightarrow> 'a member option" where
  "member_add PtrEnd x (Arr xs) = Some (Arr (xs @ [x]))"
| "member_add (PtrIndex i) x (Arr xs) =
     (if i \<le> length xs then Some (Arr (take i xs @ x # drop i xs)) else None)"
| "member_add _ _ _ = None"

fun member_remove :: "ptr \<Rightarrow> 'a member \<Rightarrow> 'a member option" where
  "member_remove (PtrIndex i) (Arr xs) =
     (if i < length xs then Some (Arr (take i xs @ drop (Suc i) xs)) else None)"
| "member_remove PtrAll (Arr xs) = Some Absent"
| "member_remove PtrAll Null = Some Absent"
| "member_remove _ _ = None"

fun member_replace :: "ptr \<Rightarrow> 'a \<Rightarrow> 'a member \<Rightarrow> 'a member option" where
  "member_replace (PtrIndex i) x (Arr xs) = (if i < length xs then Some (Arr (xs[i := x])) else None)"
| "member_replace _ _ _ = None"

fun member_replace_all :: "'a list \<Rightarrow> 'a member \<Rightarrow> 'a member option" where
  "member_replace_all ys Absent = None"
| "member_replace_all ys m = Some (if ys = [] then Null else Arr ys)"

definition apply_patch_op :: "jsonPatch \<Rightarrow> spec_doc \<Rightarrow> spec_doc option" where
  "apply_patch_op p d =
     (let rules = Option.bind (strip_prefix ''/spec/rules'' (jp_Path p)) parse_index;
          tls = Option.bind (strip_prefix ''/spec/tls'' (jp_Path p)) parse_index in
      if jp_Op p = ''add'' then
        (case (rules, tls, jp_Value p) of
           (Some t, _, PRule r) \<Rightarrow> map_option (\<lambda>m. (m, snd d)) (member_add t r (fst d))
         | (_, Some t, PTLS x) \<Rightarrow> map_option (\<lambda>m. (fst d, m)) (member_add t x (snd d))
         | _ \<Rightarrow> None)
      else if jp_Op p = ''remove'' then
        (case (rules, tls) of
           (Some t, _) \<Rightarrow> map_option (\<lambda>m. (m, snd d)) (member_remove t (fst d))
         | (_, Some t) \<Rightarrow> map_option (\<lambda>m. (fst d, m)) (member_remove t (snd d))
         | _ \<Rightarrow> None)
      else if jp_Op p = ''replace'' then
        (case (rules, tls, jp_Value p) of
           (Some t, _, PRule r) \<Rightarrow> map_option (\<lambda>m. (m, snd d)) (member_replace t r (fst d))
         | (Some PtrAll, _, PRules rs) \<Rightarrow> map_option (\<lambda>m. (m, snd d)) (member_replace_all rs (fst d))
         | (_, Some t, PTLS x) \<Rightarrow> map_option (\<lambda>m. (fst d, m)) (member_replace t x (snd d))
         | (_, Some PtrAll, PTLSs xs) \<Rightarrow> map_option (\<lambda>m. (fst d, m)) (member_replace_all xs (snd d))
         | _ \<Rightarrow> None)
      else None)"

text \<open>A patch document is applied operation by operation; the first error rejects it whole.\<close>

fun apply_patch_ops :: "jsonPatch list \<Rightarrow> spec_doc \<Rightarrow> spec_doc option" where
  "apply_patch_ops [] d = Some d"
| "apply_patch_ops (p # ps) d = Option.bind (apply_patch_op p d) (apply_patch_ops ps)"

definition apply_patch :: "jsonPatch list \<Rightarrow> Ingress \<Rightarrow> Ingress option" where
  "apply_patch ps ing =
     map_option (\<lambda>(rs, ts). ing\<lparr>ig_Rules := list_of_member rs, ig_TLS := list_of_member ts\<rparr>)
       (apply_patch_ops ps (member_of_list (ig_Rules ing), member_of_list (ig_TLS ing)))"

section \<open>The API server\<close>

text \<open>An equality-based label selector \<open>key=value\<close>.\<close>

definition selects :: "string \<Rightarrow> Ingress \<Rightarrow> bool" where
  "selects sel ing \<longleftrightarrow> (\<exists>k v. sel = k @ ''='' @ v \<and> ig_Labels ing k = Some v)"

text \<open>
  The documented behaviour, in the absence of transport errors. \<open>objs w\<close> are the Ingresses
  of the namespace \<open>ns\<close> in the state \<open>w\<close> of the cluster, with distinct names (\<open>kube_wf\<close>).
  An object is created at some position of the list order.
\<close>

definition kube_names :: "('w \<Rightarrow> Ingress list) \<Rightarrow> 'w \<Rightarrow> string set" where
  "kube_names objs w = ig_Name ` set (objs w)"

definition kube_wf :: "('w \<Rightarrow> Ingress list) \<Rightarrow> 'w \<Rightarrow> bool" where
  "kube_wf objs w \<longleftrightarrow> distinct (map ig_Name (objs w))"

definition kube_list_ok :: "'w kube_api \<Rightarrow> string \<Rightarrow> ('w \<Rightarrow> Ingress list) \<Rightarrow> bool" where
  "kube_list_ok api ns objs \<longleftrightarrow>
     (\<forall>sel w. ka_List api ns sel w = (Inr (filter (selects sel) (objs w)), w))"

definition kube_create_ok :: "'w kube_api \<Rightarrow> string \<Rightarrow> ('w \<Rightarrow> Ingress list) \<Rightarrow> bool" where
  "kube_create_ok api ns objs \<longleftrightarrow>
     (\<forall>ing w. ig_Name ing \<in> kube_names objs w \<longrightarrow> ka_Create api ns ing w = (Inl ErrAlreadyExists, w)) \<and>
     (\<forall>ing w. ig_Name ing \<notin> kube_names objs w \<and> ig_Rules ing = [] \<longrightarrow>
        (\<exists>e. ka_Create api ns ing w = (Inl e, w))) \<and>
     (\<forall>ing w. ig_Name ing \<notin> kube_names objs w \<and> ig_Rules ing \<noteq> [] \<longrightarrow>
        (\<exists>w' xs ys. ka_Create api ns ing w = (Inr ing, w') \<and>
           objs w = xs @ ys \<and> objs w' = xs @ ing # ys))"

definition kube_delete_ok :: "'w kube_api \<Rightarrow> string \<Rightarrow> ('w \<Rightarrow> Ingress list) \<Rightarrow> bool" where
  "kube_delete_ok api ns objs \<longleftrightarrow>
     (\<forall>n w. n \<notin> kube_names objs w \<longrightarrow> ka_Delete api ns n w = (Inl ErrNotFound, w)) \<and>
     (\<forall>n w. n \<in> kube_names objs w \<longrightarrow>
        (\<exists>w'. ka_Delete api ns n w = (Inr (), w') \<and> objs w' = filter (\<lambda>i. ig_Name i \<noteq> n) (objs w)))"

text \<open>What a patch makes of one object, if the server accepts it.\<close>

definition patched :: "jsonPatch list \<Rightarrow> Ingress \<Rightarrow> Ingress option" where
  "patched ps ing = (case apply_patch ps ing of
      None \<Rightarrow> None | Some ing' \<Rightarrow> if ig_Rules ing' = [] then None else Some ing')"

definition kube_patch_ok :: "'w kube_api \<Rightarrow> string \<Rightarrow> ('w \<Rightarrow> Ingress list) \<Rightarrow> bool" where
  "kube_patch_ok api ns objs \<longleftrightarrow>
     (\<forall>n ps w. n \<notin> kube_names objs w \<longrightarrow> ka_Patch api ns n ps w = (Inl ErrNotFound, w)) \<and>
     (\<forall>ps w. kube_wf objs w \<longrightarrow> (\<forall>ing \<in> set (objs w). case patched ps ing of
          None \<Rightarrow> \<exists>e. ka_Patch api ns (ig_Name ing) ps w = (Inl e, w)
        | Some ing' \<Rightarrow> \<exists>w'. ka_Patch api ns (ig_Name ing) ps w = (Inr (), w') \<and>
            objs w' = map (\<lambda>i. if ig_Name i = ig_Name ing then ing' else i) (objs w)))"

definition kube_ok :: "'w kube_api \<Rightarrow> string \<Rightarrow> ('w \<Rightarrow> Ingress list) \<Rightarrow> bool" where
  "kube_ok api ns objs \<longleftrightarrow>
     kube_list_ok api ns objs \<and> kube_create_ok api ns objs \<and>
     kube_delete_ok api ns objs \<and> kube_patch_ok api ns objs"

lemma kube_okD:
  assumes "kube_ok api ns objs"
  shows "kube_list_ok api ns objs" "kube_create_ok api ns objs"
    "kube_delete_ok api ns objs" "kube_patch_ok api ns objs"
  using assms by (simp_all add: kube_ok_def)

section \<open>Calls that succeed\<close>

lemma kube_List:
  "kube_ok api ns objs \<Longrightarrow> ka_List api ns sel w = (Inr (filter (selects sel) (objs w)), w)"
  by (simp add: kube_ok_def kube_list_ok_def)

lemma kube_Create_Ret:
  assumes "kube_ok api ns objs" and "ka_Create api ns ing w = (Inr created, w')"
  obtains xs ys where "created = ing" "objs w = xs @ ys" "objs w' = xs @ ing # ys"
    "ig_Rules ing \<noteq> []" "ig_Name ing \<notin> kube_names objs w"
proof -
  have c: "kube_create_ok api ns objs" using assms(1) by (rule kube_okD)
  have fresh: "ig_Name ing \<notin> kube_names objs w"
    using c assms(2) unfolding kube_create_ok_def by (metis Inl_Inr_False prod.inject)
  moreover have rules: "ig_Rules ing \<noteq> []"
    using c assms(2) fresh unfolding kube_create_ok_def by (metis Inl_Inr_False prod.inject)
  ultimately obtain v xs ys where "ka_Create api ns ing w = (Inr ing, v)"
    "objs w = xs @ ys" "objs v = xs @ ing # ys"
    using c unfolding kube_create_ok_def by metis
  with assms(2) fresh rules show ?thesis using that by simp
qed

lemma kube_Create_refused:
  assumes "kube_ok api ns objs" and "ka_Create api ns ing w = (Inl e, w')"
  shows "w' = w"
proof -
  have c: "kube_create_ok api ns objs" using assms(1) by (rule kube_okD)
  show ?thesis
  proof (cases "ig_Name ing \<in> kube_names objs w")
    case True
    with c assms(2) show ?thesis by (simp add: kube_create_ok_def)
  next
    case False
    then have "(\<exists>e. ka_Create api ns ing w = (Inl e, w)) \<or> (\<exists>v. ka_Create api ns ing w = (Inr ing, v))"
      using c unfolding kube_create_ok_def by (metis (no_types))
    with assms(2) show ?thesis by auto
  qed
qed

lemma kube_Create_exists:
  assumes "kube_ok api ns objs" and "ig_Name ing \<in> kube_names objs w"
  shows "ka_Create api ns ing w = (Inl ErrAlreadyExists, w)"
  using assms by (simp add: kube_ok_def kube_create_ok_def)

lemma kube_Delete_Ret:
  assumes "kube_ok api ns objs" and "n \<in> kube_names objs w"
  obtains w' where "ka_Delete api ns n w = (Inr (), w')"
    "objs w' = filter (\<lambda>i. ig_Name i \<noteq> n) (objs w)"
  using assms unfolding kube_ok_def kube_delete_ok_def by blast

lemma kube_Patch_cases:
  assumes "kube_ok api ns objs" and "kube_wf objs w" and "ing \<in> set (objs w)"
  shows "case patched ps ing of
      None \<Rightarrow> \<exists>e. ka_Patch api ns (ig_Name ing) ps w = (Inl e, w)
    | Some ing' \<Rightarrow> \<exists>w'. ka_Patch api ns (ig_Name ing) ps w = (Inr (), w') \<and>
        objs w' = map (\<lambda>i. if ig_Name i = ig_Name ing then ing' else i) (objs w)"
  using kube_okD(4) [OF assms(1)] assms(2,3) unfolding kube_patch_ok_def by blast

lemma kube_Patch_accept:
  assumes "kube_ok api ns objs" and "kube_wf objs w" and "ing \<in> set (objs w)" and "patched ps ing = Some ing'"
  obtains w' where "ka_Patch api ns (ig_Name ing) ps w = (Inr (), w')"
    "objs w' = map (\<lambda>i. if ig_Name i = ig_Name ing then ing' else i) (objs w)"
  using kube_Patch_cases [OF assms(1-3), of ps] assms(4) by auto

lemma kube_Patch_reject:
  assumes "kube_ok api ns objs" and "kube_wf objs w" and "ing \<in> set (objs w)" and "patched ps ing = None"
  obtains e where "ka_Patch api ns (ig_Name ing) ps w = (Inl e, w)"
  using kube_Patch_cases [OF assms(1-3), of ps] assms(4) by auto

lemma kube_Patch_Ret:
  assumes "kube_ok api ns objs" and "kube_wf objs w" and "ing \<in> set (objs w)"
    and "ka_Patch api ns (ig_Name ing) ps w = (Inr u, w')"
  obtains ing' where "patched ps ing = Some ing'"
    "objs w' = map (\<lambda>i. if ig_Name i = ig_Name ing then ing' else i) (objs w)"
  using kube_Patch_cases [OF assms(1-3), of ps] assms(4) by (cases "patched ps ing") auto

section \<open>A cluster that behaves so\<close>

text \<open>An in-memory cluster of one namespace: the hypothesis \<open>kube_ok\<close> can hold.\<close>

definition mem_create :: "Ingress \<Rightarrow> (Ingress list, Ingress) svc" where
  "mem_create ing os =
     (if ig_Name ing \<in> ig_Name ` set os then (Inl ErrAlreadyExists, os)
      else if ig_Rules ing = [] then (Inl (ErrExt ''invalid''), os)
      else (Inr ing, os @ [ing]))"

definition mem_delete :: "string \<Rightarrow> (Ingress list, unit) svc" where
  "mem_delete n os =
     (if n \<in> ig_Name ` set os then (Inr (), filter (\<lambda>i. ig_Name i \<noteq> n) os) else (Inl ErrNotFound, os))"

definition mem_patch :: "string \<Rightarrow> jsonPatch list \<Rightarrow> (Ingress list, unit) svc" where
  "mem_patch n ps os =
     (case find (\<lambda>i. ig_Name i = n) os of
        None \<Rightarrow> (Inl ErrNotFound, os)
      | Some ing \<Rightarrow> (case patched ps ing of
            None \<Rightarrow> (Inl (ErrExt ''invalid''), os)
          | Some ing' \<Rightarrow> (Inr (), map (\<lambda>i. if ig_Name i = n then ing' else i) os)))"

definition mem_api :: "Ingress list kube_api" where
  "mem_api = \<lparr>ka_List = (\<lambda>ns sel os. (Inr (filter (selects sel) os), os)),
     ka_Create = (\<lambda>ns. mem_create), ka_Delete = (\<lambda>ns. mem_delete),
     ka_Patch = (\<lambda>ns. mem_patch)\<rparr>"

lemma find_by_name:
  "distinct (map ig_Name os) \<Longrightarrow> ing \<in> set os \<Longrightarrow> find (\<lambda>i. ig_Name i = ig_Name ing) os = Some ing"
  by (induction os) (auto simp: image_iff)

lemma find_by_name_None: "n \<notin> ig_Name ` set os \<Longrightarrow> find (\<lambda>i. ig_Name i = n) os = None"
  by (induction os) auto

lemma patched_name:
  "patched ps ing = Some ing' \<Longrightarrow> ig_Name ing' = ig_Name ing \<and> ig_Labels ing' = ig_Labels ing"
  by (auto simp: patched_def apply_patch_def split: option.splits if_splits)

lemma mem_kube_ok: "kube_ok mem_api ns (\<lambda>os. os)"
proof -
  have "kube_list_ok mem_api ns (\<lambda>os. os)"
    by (simp add: kube_list_ok_def mem_api_def)
  moreover have "kube_create_ok mem_api ns (\<lambda>os. os)"
    by (auto simp: kube_create_ok_def mem_api_def mem_create_def kube_names_def)
  moreover have "kube_delete_ok mem_api ns (\<lambda>os. os)"
    by (simp add: kube_delete_ok_def mem_api_def mem_delete_def kube_names_def)
  moreover have "kube_patch_ok mem_api ns (\<lambda>os. os)"
    unfolding kube_patch_ok_def kube_names_def kube_wf_def
    by (auto simp: mem_api_def mem_patch_def find_by_name find_by_name_None split: option.split)
  ultimately show ?thesis by (simp add: kube_ok_def)
qed

end
