(* ===== verification/IngressMapping.thy ===== *)
theory IngressMapping
  imports KubeIngress
begin

text \<open>
  The interface \<open>IngressMapper\<close> of \<open>impl/provisioner-ingress/mapper.go\<close> as a record of its
  methods, the contract its comments state as the locale \<open>ingress_mapper\<close>, and the mapper of
  the application, \<open>cmd/routes-provisioner/internal/provisioner/ingress_mapper.go\<close>, with the
  contract discharged for it.
\<close>

section \<open>The interface\<close>

record IngressMapper =
  im_MapRule :: "RouteRequest \<Rightarrow> gerror + IngressRule"
  im_MapTLS :: "RouteRequest \<Rightarrow> gerror + IngressTLS option"
  im_IngressName :: "nat \<Rightarrow> string"
  im_Annotations :: "string \<rightharpoonup> string"
  im_Labels :: "string \<rightharpoonup> string"
  im_IngressClass :: string
  im_RouteID :: "RouteRequest \<Rightarrow> string"
  im_ExtractRouteID :: "IngressRule \<Rightarrow> string"

text \<open>
  \<open>ExtractRouteID\<close> is the reverse of \<open>RouteID\<close>, a rule is for the host of its route, and a
  TLS entry names that host only.
\<close>

locale ingress_mapper =
  fixes m :: IngressMapper
  assumes extract_id: "im_MapRule m r = Inr rule \<Longrightarrow> im_ExtractRouteID m rule = im_RouteID m r"
    and rule_host: "im_MapRule m r = Inr rule \<Longrightarrow> ir_Host rule = rr_Host r"
    and tls_host: "im_MapTLS m r = Inr (Some t) \<Longrightarrow> it_Hosts t = [rr_Host r]"

section \<open>The application's mapper\<close>

record AppIngressMapper =
  am_SecretNameFunc :: "string \<Rightarrow> string"
  am_IngressClassName :: string
  am_ExtraAnnotations :: "string \<rightharpoonup> string"

definition DefaultSecretName :: "string \<Rightarrow> string" where
  "DefaultSecretName host =
     (let safe = replace_dots_stars host; name = ''tls-'' @ safe
      in if length name > 253 then take 253 name else name)"

definition app_RouteID :: "RouteRequest \<Rightarrow> string" where
  "app_RouteID req = ''routes-'' @ ReplaceAll1 (rr_Host req) CHR ''.'' ''-''"

definition app_ExtractRouteID :: "IngressRule \<Rightarrow> string" where
  "app_ExtractRouteID rule = ''routes-'' @ ReplaceAll1 (ir_Host rule) CHR ''.'' ''-''"

fun app_MapRule :: "RouteRequest \<Rightarrow> gerror + IngressRule" where
  "app_MapRule req =
     (case rr_Backends req of
        [] \<Rightarrow> Inl (ErrMsg (''route '' @ rr_ID req @ '' has no backends''))
      | backend # _ \<Rightarrow>
          let path = (if rr_Path req = '''' then ''/'' else rr_Path req) in
          Inr \<lparr>ir_Host = rr_Host req,
               ir_Paths = [\<lparr>ip_Path = path, ip_PathType = ''Prefix'',
                 ip_ServiceName = be_ServiceName backend,
                 ip_ServicePort = to_int32 (be_Port backend)\<rparr>]\<rparr>)"

definition app_MapTLS :: "AppIngressMapper \<Rightarrow> RouteRequest \<Rightarrow> gerror + IngressTLS option" where
  "app_MapTLS m req =
     Inr (Some \<lparr>it_Hosts = [rr_Host req], it_SecretName = am_SecretNameFunc m (rr_Host req)\<rparr>)"

definition app_IngressName :: "nat \<Rightarrow> string" where
  "app_IngressName index = ''routes-'' @ itoa index"

definition app_Labels :: "string \<rightharpoonup> string" where
  "app_Labels = [''app.kubernetes.io/managed-by'' \<mapsto> ''dynamic-route-provisioner'']"

definition app_mapper :: "AppIngressMapper \<Rightarrow> IngressMapper" where
  "app_mapper m = \<lparr>im_MapRule = app_MapRule, im_MapTLS = app_MapTLS m,
     im_IngressName = app_IngressName, im_Annotations = am_ExtraAnnotations m,
     im_Labels = app_Labels, im_IngressClass = am_IngressClassName m,
     im_RouteID = app_RouteID, im_ExtractRouteID = app_ExtractRouteID\<rparr>"

lemma app_MapRule_host: "app_MapRule r = Inr rule \<Longrightarrow> ir_Host rule = rr_Host r"
  by (auto simp: Let_def split: list.splits)

declare app_MapRule.simps [simp del]

interpretation app: ingress_mapper "app_mapper cfg" for cfg
  by unfold_locales
    (auto simp: app_mapper_def app_MapTLS_def app_ExtractRouteID_def app_RouteID_def dest: app_MapRule_host)

lemma app_IngressName_inj [simp]: "app_IngressName i = app_IngressName j \<longleftrightarrow> i = j"
  by (simp add: app_IngressName_def)

text \<open>Two hosts without dashes have different route IDs; the dash is what makes IDs collide.\<close>

lemma app_RouteID_inj:
  assumes "CHR ''-'' \<notin> set (rr_Host r)" "CHR ''-'' \<notin> set (rr_Host q)" "app_RouteID r = app_RouteID q"
  shows "rr_Host r = rr_Host q"
  using assms ReplaceAll1_inj_char unfolding app_RouteID_def by simp

text \<open>
  The rule of a route carries its host, one \<open>Prefix\<close> path (the root when the route has
  none) and the first backend only, with the port kept to 32 bits; a route without backends is
  an error.
\<close>

lemma app_MapRule_spec:
  "app_MapRule r =
     (if rr_Backends r = [] then Inl (ErrMsg (''route '' @ rr_ID r @ '' has no backends''))
      else Inr \<lparr>ir_Host = rr_Host r,
        ir_Paths = [\<lparr>ip_Path = (if rr_Path r = '''' then ''/'' else rr_Path r), ip_PathType = ''Prefix'',
          ip_ServiceName = be_ServiceName (hd (rr_Backends r)),
          ip_ServicePort = (be_Port (hd (rr_Backends r)) + 2 ^ 31) mod 2 ^ 32 - 2 ^ 31\<rparr>]\<rparr>)"
proof -
  have "to_int32 p = (p + 2 ^ 31) mod 2 ^ 32 - 2 ^ 31" for p
    by (simp add: to_int32_def sint_sbintrunc' signed_take_bit_eq_take_bit_shift take_bit_eq_mod)
  then show ?thesis by (cases "rr_Backends r") (simp_all add: app_MapRule.simps)
qed

end
