(* ===== verification/IngressProvisioner.thy ===== *)
theory IngressProvisioner
  imports IngressMapping
begin

text \<open>
  \<open>impl/provisioner-ingress/provisioner.go\<close> and \<open>options.go\<close>: the operations of the
  provisioner, which packs routes as rules into Ingress buckets. The Kubernetes client and
  the mapper are parameters, fields of the record \<open>IngressProvisioner\<close>; a JSON Patch is
  the list of its operations. \<open>BatchProvision\<close> contains a loop that does not end for a
  capacity of zero, so it is a \<open>partial_function\<close> whose value \<open>None\<close> is "does not return".
\<close>

section \<open>Configuration\<close>

record ingress_config =
  ic_namespace :: string
  ic_maxRoutesPerIngress :: int
  ic_managementLabel :: string
  ic_managementValue :: string

record 'w IngressProvisioner =
  ing_api :: "'w kube_api"
  ing_mapper :: IngressMapper
  ing_cfg :: ingress_config

definition ing_defaultConfig :: ingress_config where
  "ing_defaultConfig = \<lparr>ic_namespace = ''default'', ic_maxRoutesPerIngress = 50,
     ic_managementLabel = ''app.kubernetes.io/managed-by'',
     ic_managementValue = ''dynamic-route-provisioner''\<rparr>"

text \<open>An option sets the client or changes the configuration, or fails.\<close>

type_synonym 'w ing_option =
  "ingress_config \<times> 'w kube_api option \<Rightarrow> gerror + ingress_config \<times> 'w kube_api option"

definition ing_WithNamespace :: "string \<Rightarrow> 'w ing_option" where
  "ing_WithNamespace ns = (\<lambda>(c, k). Inr (c\<lparr>ic_namespace := ns\<rparr>, k))"

definition ing_WithMaxRoutesPerIngress :: "int \<Rightarrow> 'w ing_option" where
  "ing_WithMaxRoutesPerIngress n = (\<lambda>(c, k). Inr (c\<lparr>ic_maxRoutesPerIngress := n\<rparr>, k))"

definition ing_WithKubeClient :: "'w kube_api option \<Rightarrow> 'w ing_option" where
  "ing_WithKubeClient cs = (\<lambda>(c, k). Inr (c, cs))"

text \<open>
  The two options that make a client: \<open>load\<close> and \<open>parse\<close> are the results of
  \<open>rest.InClusterConfig\<close> and of \<open>clientcmd.BuildConfigFromFlags\<close> with an empty master URL,
  \<open>mk\<close> is \<open>kubernetes.NewForConfig\<close>.
\<close>

definition ing_client_from :: "gerror + 'r \<Rightarrow> ('r \<Rightarrow> gerror + 'w kube_api) \<Rightarrow> 'w ing_option" where
  "ing_client_from rest mk =
     (\<lambda>(c, k). case rest of
        Inl err \<Rightarrow> Inl err
      | Inr r \<Rightarrow> (case mk r of Inl err \<Rightarrow> Inl err | Inr cs \<Rightarrow> Inr (c, Some cs)))"

definition ing_WithInClusterConfig :: "gerror + 'r \<Rightarrow> ('r \<Rightarrow> gerror + 'w kube_api) \<Rightarrow> 'w ing_option" where
  "ing_WithInClusterConfig load mk = ing_client_from load mk"

definition ing_WithKubeConfig ::
  "(string \<Rightarrow> gerror + 'r) \<Rightarrow> ('r \<Rightarrow> gerror + 'w kube_api) \<Rightarrow> string \<Rightarrow> 'w ing_option" where
  "ing_WithKubeConfig parse mk path = ing_client_from (parse path) mk"

definition ing_WithManagementLabel :: "string \<Rightarrow> string \<Rightarrow> 'w ing_option" where
  "ing_WithManagementLabel key v =
     (\<lambda>(c, k). Inr (c\<lparr>ic_managementLabel := key, ic_managementValue := v\<rparr>, k))"

fun ing_apply_options ::
  "'w ing_option list \<Rightarrow> ingress_config \<times> 'w kube_api option
   \<Rightarrow> gerror + ingress_config \<times> 'w kube_api option" where
  "ing_apply_options [] s = Inr s"
| "ing_apply_options (opt # opts) s =
     (case opt s of Inl e \<Rightarrow> Inl (ErrWrap ''apply option'' e) | Inr s' \<Rightarrow> ing_apply_options opts s')"

definition ing_New :: "IngressMapper \<Rightarrow> 'w ing_option list \<Rightarrow> gerror + 'w IngressProvisioner" where
  "ing_New mapper opts =
     (case ing_apply_options opts (ing_defaultConfig, None) of
        Inl e \<Rightarrow> Inl e
      | Inr (cfg, None) \<Rightarrow> Inl (ErrMsg ''kubernetes client not configured: use WithKubeClient, WithInClusterConfig, or WithKubeConfig'')
      | Inr (cfg, Some cs) \<Rightarrow> Inr \<lparr>ing_api = cs, ing_mapper = mapper, ing_cfg = cfg\<rparr>)"

definition ing_Name :: string where
  "ing_Name = ''ingress-k8s''"

text \<open>A provisioner has the client that the options leave; a failing option is reported.\<close>

lemma ing_New_needs_client:
  "ing_New mapper opts = Inr p \<Longrightarrow> \<exists>cs. ing_apply_options opts (ing_defaultConfig, None) = Inr (ing_cfg p, Some cs) \<and>
     ing_api p = cs \<and> ing_mapper p = mapper"
  by (auto simp: ing_New_def split: sum.splits option.splits)

lemma ing_New_client_error:
  "ing_New mapper [ing_WithInClusterConfig (Inl e) mk] = Inl (ErrWrap ''apply option'' e)"
  "parse path = Inl e \<Longrightarrow> ing_New mapper [ing_WithKubeConfig parse mk path] = Inl (ErrWrap ''apply option'' e)"
  by (simp_all add: ing_New_def ing_WithInClusterConfig_def ing_WithKubeConfig_def ing_client_from_def)

section \<open>Internal helpers\<close>

definition labelSelector :: "'w IngressProvisioner \<Rightarrow> string" where
  "labelSelector p = ic_managementLabel (ing_cfg p) @ ''='' @ ic_managementValue (ing_cfg p)"

definition listManagedIngresses :: "'w IngressProvisioner \<Rightarrow> ('w, Ingress list) act" where
  "listManagedIngresses p =
     wrapr ''list managed ingresses''
       (ext (ka_List (ing_api p) (ic_namespace (ing_cfg p)) (labelSelector p))) ret"

fun findWithCapacity :: "'w IngressProvisioner \<Rightarrow> Ingress list \<Rightarrow> Ingress option" where
  "findWithCapacity p [] = None"
| "findWithCapacity p (ing # ings) =
     (if int (length (ig_Rules ing)) < ic_maxRoutesPerIngress (ing_cfg p) then Some ing
      else findWithCapacity p ings)"

definition new_ingress ::
  "'w IngressProvisioner \<Rightarrow> nat \<Rightarrow> IngressRule list \<Rightarrow> IngressTLS list \<Rightarrow> Ingress" where
  "new_ingress p index rules tls =
     (let ingressClass = im_IngressClass (ing_mapper p) in
      \<lparr>ig_Name = im_IngressName (ing_mapper p) index, ig_Namespace = ic_namespace (ing_cfg p),
       ig_Labels = im_Labels (ing_mapper p), ig_Annotations = im_Annotations (ing_mapper p),
       ig_ClassName = (if ingressClass \<noteq> '''' then Some ingressClass else None),
       ig_Rules = rules, ig_TLS = tls\<rparr>)"

definition createIngressWithRules ::
  "'w IngressProvisioner \<Rightarrow> nat \<Rightarrow> IngressRule list \<Rightarrow> IngressTLS list \<Rightarrow> ('w, Ingress) act" where
  "createIngressWithRules p index rules tls =
     wrapr ''create ingress''
       (ext (ka_Create (ing_api p) (ic_namespace (ing_cfg p)) (new_ingress p index rules tls))) ret"

definition deleteIngress :: "'w IngressProvisioner \<Rightarrow> string \<Rightarrow> ('w, unit) act" where
  "deleteIngress p name =
     attempt (ext (ka_Delete (ing_api p) (ic_namespace (ing_cfg p)) name))
       (\<lambda>err. if err = ErrNotFound then ret () else fail (ErrWrap (''delete ingress '' @ name) err))
       ret"

definition applyJSONPatch :: "'w IngressProvisioner \<Rightarrow> string \<Rightarrow> jsonPatch list \<Rightarrow> ('w, unit) act" where
  "applyJSONPatch p ingressName patches =
     ext (ka_Patch (ing_api p) (ic_namespace (ing_cfg p)) ingressName patches)"

text \<open>\<open>fmt.Sprintf("/spec/rules/%d", i)\<close> and \<open>fmt.Sprintf("/spec/tls/%d", i)\<close>\<close>

definition rule_path :: "nat \<Rightarrow> string" where
  "rule_path i = ''/spec/rules/'' @ itoa i"

definition tls_path :: "nat \<Rightarrow> string" where
  "tls_path i = ''/spec/tls/'' @ itoa i"

definition add_rule :: "IngressRule \<Rightarrow> jsonPatch" where
  "add_rule r = \<lparr>jp_Op = ''add'', jp_Path = ''/spec/rules/-'', jp_Value = PRule r\<rparr>"

definition add_tls :: "IngressTLS \<Rightarrow> jsonPatch" where
  "add_tls t = \<lparr>jp_Op = ''add'', jp_Path = ''/spec/tls/-'', jp_Value = PTLS t\<rparr>"

definition patchAddRule ::
  "'w IngressProvisioner \<Rightarrow> string \<Rightarrow> IngressRule \<Rightarrow> IngressTLS option \<Rightarrow> ('w, unit) act" where
  "patchAddRule p ingressName rule tls =
     applyJSONPatch p ingressName
       (add_rule rule # (case tls of None \<Rightarrow> [] | Some t \<Rightarrow> [add_tls t]))"

definition patchAddRules ::
  "'w IngressProvisioner \<Rightarrow> string \<Rightarrow> IngressRule list \<Rightarrow> IngressTLS list \<Rightarrow> ('w, unit) act" where
  "patchAddRules p ingressName rules tlsEntries =
     applyJSONPatch p ingressName (map add_rule rules @ map add_tls tlsEntries)"

text \<open>The nested loops that look for the first TLS entry that names the host.\<close>

fun find_tls :: "string \<Rightarrow> nat \<Rightarrow> IngressTLS list \<Rightarrow> nat option" where
  "find_tls host i [] = None"
| "find_tls host i (t # ts) = (if host \<in> set (it_Hosts t) then Some i else find_tls host (Suc i) ts)"

definition patchRemoveRule :: "'w IngressProvisioner \<Rightarrow> Ingress \<Rightarrow> nat \<Rightarrow> ('w, unit) act" where
  "patchRemoveRule p ing ruleIndex =
     (let host = ir_Host (ig_Rules ing ! ruleIndex) in
      applyJSONPatch p (ig_Name ing)
        (\<lparr>jp_Op = ''remove'', jp_Path = rule_path ruleIndex, jp_Value = PNone\<rparr> #
         (case find_tls host 0 (ig_TLS ing) of
            None \<Rightarrow> []
          | Some i \<Rightarrow> [\<lparr>jp_Op = ''remove'', jp_Path = tls_path i, jp_Value = PNone\<rparr>])))"

definition patchReplaceSpec ::
  "'w IngressProvisioner \<Rightarrow> string \<Rightarrow> IngressRule list \<Rightarrow> IngressTLS list \<Rightarrow> ('w, unit) act" where
  "patchReplaceSpec p ingressName rules tls =
     applyJSONPatch p ingressName
       [\<lparr>jp_Op = ''replace'', jp_Path = ''/spec/rules'', jp_Value = PRules rules\<rparr>,
        \<lparr>jp_Op = ''replace'', jp_Path = ''/spec/tls'', jp_Value = PTLSs tls\<rparr>]"

definition buildProvisionedRoute ::
  "'w IngressProvisioner \<Rightarrow> string \<Rightarrow> string \<Rightarrow> string \<Rightarrow> Certificate option \<Rightarrow> ProvisionedRoute" where
  "buildProvisionedRoute p routeID host ingressName cert =
     \<lparr>pr_RouteID = routeID, pr_Host = host,
      pr_GatewayID = ic_namespace (ing_cfg p) @ ''/'' @ ingressName,
      pr_CertificateID = (case cert of None \<Rightarrow> '''' | Some c \<Rightarrow> crt_Host c),
      pr_Status = ''active'', pr_ProviderName = ing_Name\<rparr>"

definition update_patch :: "Ingress \<Rightarrow> nat \<Rightarrow> IngressRule \<Rightarrow> IngressTLS option \<Rightarrow> jsonPatch list" where
  "update_patch ing ruleIndex rule tls =
     \<lparr>jp_Op = ''replace'', jp_Path = rule_path ruleIndex, jp_Value = PRule rule\<rparr> #
     (case tls of None \<Rightarrow> []
      | Some t \<Rightarrow>
          (case find_tls (ir_Host (ig_Rules ing ! ruleIndex)) 0 (ig_TLS ing) of
             Some i \<Rightarrow> [\<lparr>jp_Op = ''replace'', jp_Path = tls_path i, jp_Value = PTLS t\<rparr>]
           | None \<Rightarrow> [add_tls t]))"

definition updateRule ::
  "'w IngressProvisioner \<Rightarrow> Ingress \<Rightarrow> nat \<Rightarrow> IngressRule \<Rightarrow> IngressTLS option \<Rightarrow> RouteRequest
   \<Rightarrow> ('w, ProvisionedRoute option) act" where
  "updateRule p ing ruleIndex rule tls req =
     wrapr ''patch update rule'' (applyJSONPatch p (ig_Name ing) (update_patch ing ruleIndex rule tls))
       (\<lambda>_. ret (Some (buildProvisionedRoute p (im_RouteID (ing_mapper p) req) (rr_Host req) (ig_Name ing) None)))"

definition collectTLSHosts :: "Ingress \<Rightarrow> string set" where
  "collectTLSHosts ing = foldl (\<lambda>hs t. foldl (\<lambda>hs h. insert h hs) hs (it_Hosts t)) {} (ig_TLS ing)"

section \<open>One route at a time\<close>

text \<open>The nested loops over the Ingresses and their rules, up to the first match.\<close>

fun find_rule :: "(IngressRule \<Rightarrow> string) \<Rightarrow> string \<Rightarrow> nat \<Rightarrow> IngressRule list \<Rightarrow> nat option" where
  "find_rule extract routeID j [] = None"
| "find_rule extract routeID j (r # rs) =
     (if extract r = routeID then Some j else find_rule extract routeID (Suc j) rs)"

fun find_route :: "(IngressRule \<Rightarrow> string) \<Rightarrow> string \<Rightarrow> Ingress list \<Rightarrow> (Ingress \<times> nat) option" where
  "find_route extract routeID [] = None"
| "find_route extract routeID (ing # ings) =
     (case find_rule extract routeID 0 (ig_Rules ing) of
        Some j \<Rightarrow> Some (ing, j)
      | None \<Rightarrow> find_route extract routeID ings)"

definition map_tls_of :: "IngressMapper \<Rightarrow> RouteRequest \<Rightarrow> gerror + IngressTLS option" where
  "map_tls_of m req = (if rr_TLS req then im_MapTLS m req else Inr None)"

definition ing_place ::
  "'w IngressProvisioner \<Rightarrow> RouteRequest \<Rightarrow> Certificate option \<Rightarrow> IngressRule \<Rightarrow> IngressTLS option
   \<Rightarrow> Ingress list \<Rightarrow> ('w, ProvisionedRoute option) act" where
  "ing_place p req cert rule tlsEntry ingresses =
     (let routeID = im_RouteID (ing_mapper p) req in
      case find_route (im_ExtractRouteID (ing_mapper p)) routeID ingresses of
        Some (ing, j) \<Rightarrow> updateRule p ing j rule tlsEntry req
      | None \<Rightarrow>
        (case findWithCapacity p ingresses of
           Some existing \<Rightarrow>
             wrapr ''patch add rule'' (patchAddRule p (ig_Name existing) rule tlsEntry)
               (\<lambda>_. ret (Some (buildProvisionedRoute p routeID (rr_Host req) (ig_Name existing) cert)))
         | None \<Rightarrow>
             bindr (createIngressWithRules p (length ingresses) [rule]
                      (case tlsEntry of None \<Rightarrow> [] | Some t \<Rightarrow> [t]))
               (\<lambda>created. ret (Some (buildProvisionedRoute p routeID (rr_Host req) (ig_Name created) cert)))))"

definition ing_Provision ::
  "'w IngressProvisioner \<Rightarrow> RouteRequest \<Rightarrow> Certificate option \<Rightarrow> ('w, ProvisionedRoute option) act" where
  "ing_Provision p req cert =
     (case im_MapRule (ing_mapper p) req of
        Inl e \<Rightarrow> fail (ErrWrap ''map rule'' e)
      | Inr rule \<Rightarrow>
        (case map_tls_of (ing_mapper p) req of
           Inl e \<Rightarrow> fail (ErrWrap ''map tls'' e)
         | Inr tlsEntry \<Rightarrow>
             bindr (listManagedIngresses p) (ing_place p req cert rule tlsEntry)))"

definition ing_Deprovision :: "'w IngressProvisioner \<Rightarrow> string \<Rightarrow> ('w, unit) act" where
  "ing_Deprovision p routeID =
     bindr (listManagedIngresses p) (\<lambda>ingresses.
       case find_route (im_ExtractRouteID (ing_mapper p)) routeID ingresses of
         None \<Rightarrow> ret ()
       | Some (ing, j) \<Rightarrow>
           if length (ig_Rules ing) = 1 then deleteIngress p (ig_Name ing)
           else wrapr ''patch remove rule'' (patchRemoveRule p ing j) ret)"

text \<open>\<open>List\<close>: one route per rule of every managed Ingress.\<close>

definition listed_route :: "'w IngressProvisioner \<Rightarrow> Ingress \<Rightarrow> IngressRule \<Rightarrow> ProvisionedRoute" where
  "listed_route p ing rule =
     (let host = ir_Host rule in
      \<lparr>pr_RouteID = im_ExtractRouteID (ing_mapper p) rule, pr_Host = host,
       pr_GatewayID = ic_namespace (ing_cfg p) @ ''/'' @ ig_Name ing,
       pr_CertificateID = (if host \<in> collectTLSHosts ing then host else ''''),
       pr_Status = ''active'', pr_ProviderName = ing_Name\<rparr>)"

fun list_routes :: "'w IngressProvisioner \<Rightarrow> Ingress list \<Rightarrow> ProvisionedRoute list \<Rightarrow> ProvisionedRoute list" where
  "list_routes p [] routes = routes"
| "list_routes p (ing # ings) routes = list_routes p ings (routes @ map (listed_route p ing) (ig_Rules ing))"

definition ing_List :: "'w IngressProvisioner \<Rightarrow> ('w, ProvisionedRoute list) act" where
  "ing_List p = bindr (listManagedIngresses p) (\<lambda>ingresses. ret (list_routes p ingresses []))"

end
