(* ===== verification/IngressBatch.thy ===== *)
theory IngressBatch
  imports IngressProvisioner
begin

text \<open>
  The batch operations of \<open>impl/provisioner-ingress/provisioner.go\<close>: the packing of routes
  into existing and new Ingresses and the grouped removal. \<open>sort.Slice\<close> is not stable: the
  order of Ingresses with equally many rules is unspecified, and \<open>sort_key\<close> gives one of the
  permitted orders (the one Go's insertion sort gives for fewer than 12 of them).
\<close>

section \<open>Packing\<close>

record mappedRoute =
  mr_req :: RouteRequest
  mr_rule :: IngressRule
  mr_tls :: "IngressTLS option"

record batch =
  b_ingressName :: string
  b_routes :: "mappedRoute list"
  b_needsPatch :: bool

fun map_routes :: "IngressMapper \<Rightarrow> RouteRequest list \<Rightarrow> mappedRoute list \<Rightarrow> gerror + mappedRoute list" where
  "map_routes m [] mapped = Inr mapped"
| "map_routes m (req # routes) mapped =
     (case im_MapRule m req of
        Inl e \<Rightarrow> Inl (ErrWrap (''map route '' @ rr_ID req) e)
      | Inr rule \<Rightarrow>
        (case map_tls_of m req of
           Inl e \<Rightarrow> Inl (ErrWrap (''map tls '' @ rr_ID req) e)
         | Inr tlsEntry \<Rightarrow>
             map_routes m routes (mapped @ [\<lparr>mr_req = req, mr_rule = rule, mr_tls = tlsEntry\<rparr>])))"

text \<open>The loop that fills the Ingresses with free capacity.\<close>

fun fill_existing ::
  "int \<Rightarrow> mappedRoute list \<Rightarrow> Ingress list \<Rightarrow> nat \<Rightarrow> batch list \<Rightarrow> nat \<times> batch list" where
  "fill_existing maxRoutes mapped [] cursor batches = (cursor, batches)"
| "fill_existing maxRoutes mapped (ing # ings) cursor batches =
     (if cursor \<ge> length mapped then (cursor, batches)
      else
        let capacity = maxRoutes - int (length (ig_Rules ing)) in
        if capacity \<le> 0 then fill_existing maxRoutes mapped ings cursor batches
        else
          let stop = min (cursor + nat capacity) (length mapped) in
          fill_existing maxRoutes mapped ings stop
            (batches @ [\<lparr>b_ingressName = ig_Name ing, b_routes = go_slice mapped cursor stop,
                         b_needsPatch = True\<rparr>]))"

definition tls_entries :: "mappedRoute list \<Rightarrow> IngressTLS list" where
  "tls_entries rs = List.map_filter mr_tls rs"

text \<open>
  The loop that creates Ingresses for the rest. \<open>mapped[cursor:end]\<close> panics when \<open>end\<close> is
  below \<open>cursor\<close>, which a negative capacity makes it.
\<close>

partial_function (option) create_overflow ::
  "'w IngressProvisioner \<Rightarrow> mappedRoute list \<Rightarrow> nat \<Rightarrow> nat \<Rightarrow> batch list \<Rightarrow> 'w
   \<Rightarrow> (batch list res \<times> 'w) option" where
  "create_overflow p mapped cursor newIndex batches w =
     (if cursor < length mapped then
        let stop = min (int cursor + ic_maxRoutesPerIngress (ing_cfg p)) (int (length mapped)) in
        if stop < int cursor then Some (Panic ''slice bounds out of range'', w)
        else
          let batchRoutes = go_slice mapped cursor (nat stop) in
          (case createIngressWithRules p newIndex (map mr_rule batchRoutes) (tls_entries batchRoutes) w of
             (Ret ing, w') \<Rightarrow>
               create_overflow p mapped (nat stop) (Suc newIndex)
                 (batches @ [\<lparr>b_ingressName = ig_Name ing, b_routes = batchRoutes, b_needsPatch = False\<rparr>]) w'
           | (Fail e, w') \<Rightarrow> Some (Fail e, w')
           | (Panic s, w') \<Rightarrow> Some (Panic s, w'))
      else Some (Ret batches, w))"

definition batch_results ::
  "'w IngressProvisioner \<Rightarrow> (string \<rightharpoonup> Certificate) \<Rightarrow> batch \<Rightarrow> ProvisionedRoute list" where
  "batch_results p certs b =
     map (\<lambda>mr. buildProvisionedRoute p (im_RouteID (ing_mapper p) (mr_req mr)) (rr_Host (mr_req mr))
            (b_ingressName b) (certs (rr_Host (mr_req mr)))) (b_routes b)"

fun apply_batches ::
  "'w IngressProvisioner \<Rightarrow> (string \<rightharpoonup> Certificate) \<Rightarrow> batch list \<Rightarrow> ProvisionedRoute list
   \<Rightarrow> ('w, ProvisionedRoute list) act" where
  "apply_batches p certs [] results = ret results"
| "apply_batches p certs (b # bs) results =
     (if b_needsPatch b
      then wrapr (''patch ingress '' @ b_ingressName b)
             (patchAddRules p (b_ingressName b) (map mr_rule (b_routes b)) (tls_entries (b_routes b)))
             (\<lambda>_. apply_batches p certs bs (results @ batch_results p certs b))
      else apply_batches p certs bs (results @ batch_results p certs b))"

definition ing_BatchProvision_run ::
  "'w IngressProvisioner \<Rightarrow> RouteRequest list \<Rightarrow> (string \<rightharpoonup> Certificate) \<Rightarrow> 'w
   \<Rightarrow> (ProvisionedRoute list res \<times> 'w) option" where
  "ing_BatchProvision_run p routes certs w =
     (case map_routes (ing_mapper p) routes [] of
        Inl e \<Rightarrow> Some (Fail e, w)
      | Inr mapped \<Rightarrow>
        (case listManagedIngresses p w of
           (Ret listed, w1) \<Rightarrow>
             let ingresses = sort_key (\<lambda>i. length (ig_Rules i)) listed;
                 (cursor, batches) = fill_existing (ic_maxRoutesPerIngress (ing_cfg p)) mapped ingresses 0 []
             in (case create_overflow p mapped cursor (length ingresses) batches w1 of
                   None \<Rightarrow> None
                 | Some (Ret bs, w2) \<Rightarrow> Some (apply_batches p certs bs [] w2)
                 | Some (Fail e, w2) \<Rightarrow> Some (Fail e, w2)
                 | Some (Panic s, w2) \<Rightarrow> Some (Panic s, w2))
         | (Fail e, w1) \<Rightarrow> Some (Fail e, w1)
         | (Panic s, w1) \<Rightarrow> Some (Panic s, w1)))"

section \<open>Grouped removal\<close>

definition keep_tls :: "string set \<Rightarrow> IngressTLS list \<Rightarrow> IngressTLS list" where
  "keep_tls removedHosts ts =
     filter (\<lambda>t. it_Hosts t \<noteq> [])
       (map (\<lambda>t. t\<lparr>it_Hosts := filter (\<lambda>h. h \<notin> removedHosts) (it_Hosts t)\<rparr>) ts)"

definition prune ::
  "'w IngressProvisioner \<Rightarrow> string set \<Rightarrow> Ingress \<Rightarrow> ('w, unit) act" where
  "prune p toRemove ing =
     (let gone = (\<lambda>r. im_ExtractRouteID (ing_mapper p) r \<in> toRemove);
          keepRules = filter (\<lambda>r. \<not> gone r) (ig_Rules ing);
          removedHosts = ir_Host ` set (filter gone (ig_Rules ing));
          keepTLS = keep_tls removedHosts (ig_TLS ing) in
      if filter gone (ig_Rules ing) = [] then ret ()
      else if keepRules = [] then deleteIngress p (ig_Name ing)
      else wrapr (''patch ingress '' @ ig_Name ing) (patchReplaceSpec p (ig_Name ing) keepRules keepTLS) ret)"

fun prune_all :: "'w IngressProvisioner \<Rightarrow> string set \<Rightarrow> Ingress list \<Rightarrow> ('w, unit) act" where
  "prune_all p toRemove [] = ret ()"
| "prune_all p toRemove (ing # ings) = bindr (prune p toRemove ing) (\<lambda>_. prune_all p toRemove ings)"

definition ing_BatchDeprovision :: "'w IngressProvisioner \<Rightarrow> string list \<Rightarrow> ('w, unit) act" where
  "ing_BatchDeprovision p routeIDs =
     bindr (listManagedIngresses p) (prune_all p (set routeIDs))"

section \<open>The provisioner as an interface value\<close>

text \<open>
  A call of \<open>BatchProvision\<close> that does not return has no result; in the interface value it
  stands as a panic.
\<close>

definition ing_BatchProvision ::
  "'w IngressProvisioner \<Rightarrow> RouteRequest list \<Rightarrow> (string \<rightharpoonup> Certificate) \<Rightarrow> ('w, ProvisionedRoute list) act" where
  "ing_BatchProvision p routes certs w =
     (case ing_BatchProvision_run p routes certs w of
        None \<Rightarrow> (Panic ''does not return'', w)
      | Some r \<Rightarrow> r)"

definition ingress_provisioner :: "'w IngressProvisioner \<Rightarrow> 'w RouteProvisioner" where
  "ingress_provisioner p =
     \<lparr>prov_Provision = ing_Provision p, prov_Deprovision = ing_Deprovision p, prov_List = ing_List p,
      prov_BatchProvision = ing_BatchProvision p, prov_BatchDeprovision = ing_BatchDeprovision p,
      prov_Name = ing_Name\<rparr>"

section \<open>The packing loops\<close>

text \<open>The batches cover the routes up to the cursor, in order.\<close>

definition covered :: "batch list \<Rightarrow> mappedRoute list" where
  "covered bs = concat (map b_routes bs)"

lemma covered_snoc [simp]: "covered (bs @ [b]) = covered bs @ b_routes b"
  and covered_Nil [simp]: "covered [] = []"
  by (simp_all add: covered_def)

lemma fill_existing_covers:
  assumes "fill_existing m mapped ings cursor bs = (c, bs')"
    and "cursor \<le> length mapped" and "covered bs = go_slice mapped 0 cursor"
  shows "cursor \<le> c \<and> c \<le> length mapped \<and> covered bs' = go_slice mapped 0 c"
  using assms
proof (induction m mapped ings cursor bs rule: fill_existing.induct)
  case (1 m mapped cursor bs)
  then show ?case by simp
next
  case (2 m mapped ing ings cursor bs)
  show ?case
  proof (cases "cursor \<ge> length mapped \<or> m - int (length (ig_Rules ing)) \<le> 0")
    case True
    then show ?thesis using 2 by (auto simp: Let_def split: if_splits)
  next
    case False
    let ?stop = "min (cursor + nat (m - int (length (ig_Rules ing)))) (length mapped)"
    have "go_slice mapped 0 cursor @ go_slice mapped cursor ?stop = go_slice mapped 0 ?stop"
      using False by (intro go_slice_append) auto
    moreover have "cursor \<le> ?stop" "?stop \<le> length mapped" using False by auto
    ultimately show ?thesis using "2.IH"(2) [OF _ refl _ refl] "2.prems" False
      by (simp add: Let_def del: min.bounded_iff)
  qed
qed

end
