(* ===== verification/IngressPatches.thy ===== *)
theory IngressPatches
  imports IngressBatch
begin

text \<open>
  What the patches of the Ingress provisioner make of a document under RFC 6902, and what an
  accepted patch, creation or deletion makes of the rules of the managed Ingresses.
\<close>

section \<open>The patch operations the code builds\<close>

lemma itoa_not_dash [simp]: "itoa n \<noteq> ''-''"
proof
  assume "itoa n = ''-''"
  then have "atoi ''-'' = Some n" using atoi_itoa [of n] by simp
  then show False by (simp add: atoi_def char_digit_def)
qed

lemma parse_index_itoa [simp]: "parse_index (CHR ''/'' # itoa n) = Some (PtrIndex n)"
  by (simp add: parse_index_def)

lemma parse_index_end [simp]: "parse_index ''/-'' = Some PtrEnd"
  and parse_index_all [simp]: "parse_index '''' = Some PtrAll"
  by (simp_all add: parse_index_def)

lemma strip_rules [simp]:
  "strip_prefix ''/spec/rules'' (''/spec/rules'' @ s) = Some s"
  "strip_prefix ''/spec/rules'' (''/spec/tls'' @ s) = None"
  "strip_prefix ''/spec/tls'' (''/spec/tls'' @ s) = Some s"
  "strip_prefix ''/spec/tls'' (''/spec/rules'' @ s) = None"
  by (simp_all add: strip_prefix_def)

lemma strip_paths [simp]:
  "strip_prefix ''/spec/rules'' (rule_path i) = Some (CHR ''/'' # itoa i)"
  "strip_prefix ''/spec/tls'' (rule_path i) = None"
  "strip_prefix ''/spec/tls'' (tls_path i) = Some (CHR ''/'' # itoa i)"
  "strip_prefix ''/spec/rules'' (tls_path i) = None"
  by (simp_all add: strip_prefix_def rule_path_def tls_path_def)

lemma op_add_rule [simp]:
  "apply_patch_op (add_rule r) (m, t) = map_option (\<lambda>m'. (m', t)) (member_add PtrEnd r m)"
  using strip_rules(1,4) [of "''/-''"] by (simp add: apply_patch_op_def add_rule_def)

lemma op_add_tls [simp]:
  "apply_patch_op (add_tls x) (m, t) = map_option (\<lambda>t'. (m, t')) (member_add PtrEnd x t)"
  using strip_rules(2,3) [of "''/-''"] by (simp add: apply_patch_op_def add_tls_def)

lemma op_remove_rule [simp]:
  "apply_patch_op \<lparr>jp_Op = ''remove'', jp_Path = rule_path i, jp_Value = v\<rparr> (m, t) =
     map_option (\<lambda>m'. (m', t)) (member_remove (PtrIndex i) m)"
  by (simp add: apply_patch_op_def)

lemma op_remove_tls [simp]:
  "apply_patch_op \<lparr>jp_Op = ''remove'', jp_Path = tls_path i, jp_Value = v\<rparr> (m, t) =
     map_option (\<lambda>t'. (m, t')) (member_remove (PtrIndex i) t)"
  by (simp add: apply_patch_op_def)

lemma op_replace_rule [simp]:
  "apply_patch_op \<lparr>jp_Op = ''replace'', jp_Path = rule_path i, jp_Value = PRule r\<rparr> (m, t) =
     map_option (\<lambda>m'. (m', t)) (member_replace (PtrIndex i) r m)"
  by (simp add: apply_patch_op_def)

lemma op_replace_tls [simp]:
  "apply_patch_op \<lparr>jp_Op = ''replace'', jp_Path = tls_path i, jp_Value = PTLS x\<rparr> (m, t) =
     map_option (\<lambda>t'. (m, t')) (member_replace (PtrIndex i) x t)"
  by (simp add: apply_patch_op_def)

lemma op_replace_rules [simp]:
  "apply_patch_op \<lparr>jp_Op = ''replace'', jp_Path = ''/spec/rules'', jp_Value = PRules rs\<rparr> (m, t) =
     map_option (\<lambda>m'. (m', t)) (member_replace_all rs m)"
  using strip_rules(1,4) [of "''''"] by (simp add: apply_patch_op_def)

lemma op_replace_tlss [simp]:
  "apply_patch_op \<lparr>jp_Op = ''replace'', jp_Path = ''/spec/tls'', jp_Value = PTLSs ts\<rparr> (m, t) =
     map_option (\<lambda>t'. (m, t')) (member_replace_all ts t)"
  using strip_rules(2,3) [of "''''"] by (simp add: apply_patch_op_def)

lemma ops_append:
  "apply_patch_ops (ps @ qs) d = Option.bind (apply_patch_ops ps d) (apply_patch_ops qs)"
  by (induction ps arbitrary: d) (auto split: Option.bind_splits)

lemma ops_add_rules:
  "apply_patch_ops (map add_rule rs) (Arr xs, t) = Some (Arr (xs @ rs), t)"
  by (induction rs arbitrary: xs) simp_all

lemma ops_add_tls:
  "apply_patch_ops (map add_tls ts) (m, Arr xs) = Some (m, Arr (xs @ ts))"
  by (induction ts arbitrary: xs) simp_all

lemma ops_add_tls_absent:
  "apply_patch_ops (map add_tls ts) (m, Absent) = (if ts = [] then Some (m, Absent) else None)"
  by (cases ts) simp_all

section \<open>Whole patches\<close>

text \<open>
  Appending rules and TLS entries to an Ingress with rules: accepted exactly when no TLS entry
  is to be added or the Ingress has one already, since \<open>/spec/tls/-\<close> needs the array.
\<close>

lemma patched_add:
  assumes "ig_Rules ing \<noteq> []"
  shows "patched (map add_rule rs @ map add_tls ts) ing =
    (if ts = [] \<or> ig_TLS ing \<noteq> []
     then Some (ing\<lparr>ig_Rules := ig_Rules ing @ rs, ig_TLS := ig_TLS ing @ ts\<rparr>) else None)"
  using assms
  by (cases "ig_TLS ing = []")
    (simp_all add: patched_def apply_patch_def ops_append ops_add_rules ops_add_tls
      ops_add_tls_absent member_of_list_def)

lemma patched_add_no_rules:
  assumes "ig_Rules ing = []" "rs \<noteq> []"
  shows "patched (map add_rule rs @ ps) ing = None"
  using assms by (cases rs) (simp_all add: patched_def apply_patch_def member_of_list_def)

lemma find_tls_Some:
  "find_tls host k ts = Some i \<Longrightarrow>
     k \<le> i \<and> i - k < length ts \<and> host \<in> set (it_Hosts (ts ! (i - k)))"
proof (induction ts arbitrary: k)
  case Nil
  then show ?case by simp
next
  case (Cons t ts)
  show ?case
  proof (cases "host \<in> set (it_Hosts t)")
    case True
    with Cons.prems show ?thesis by simp
  next
    case False
    with Cons.prems have "find_tls host (Suc k) ts = Some i" by simp
    note ih = Cons.IH [OF this]
    then have "i - k = Suc (i - Suc k)" by arith
    with ih show ?thesis by simp
  qed
qed

lemma find_tls_0:
  "find_tls host 0 ts = Some i \<Longrightarrow> i < length ts \<and> host \<in> set (it_Hosts (ts ! i))"
  using find_tls_Some [of host 0 ts i] by simp

lemma find_tls_None: "find_tls host k ts = None \<longleftrightarrow> (\<forall>t \<in> set ts. host \<notin> set (it_Hosts t))"
  by (induction ts arbitrary: k) auto

text \<open>Removing rule \<open>j\<close> and the first TLS entry of its host.\<close>

definition drop_nth :: "nat \<Rightarrow> 'a list \<Rightarrow> 'a list" where
  "drop_nth i xs = take i xs @ drop (Suc i) xs"

definition tls_without :: "string \<Rightarrow> IngressTLS list \<Rightarrow> IngressTLS list" where
  "tls_without host ts = (case find_tls host 0 ts of None \<Rightarrow> ts | Some i \<Rightarrow> drop_nth i ts)"

definition remove_patch :: "Ingress \<Rightarrow> nat \<Rightarrow> jsonPatch list" where
  "remove_patch ing j =
     \<lparr>jp_Op = ''remove'', jp_Path = rule_path j, jp_Value = PNone\<rparr> #
     (case find_tls (ir_Host (ig_Rules ing ! j)) 0 (ig_TLS ing) of
        None \<Rightarrow> []
      | Some i \<Rightarrow> [\<lparr>jp_Op = ''remove'', jp_Path = tls_path i, jp_Value = PNone\<rparr>])"

lemma patchRemoveRule_patch:
  "patchRemoveRule p ing j = applyJSONPatch p (ig_Name ing) (remove_patch ing j)"
  by (simp add: patchRemoveRule_def remove_patch_def Let_def)

lemma patched_remove:
  assumes "j < length (ig_Rules ing)" and "1 < length (ig_Rules ing)"
  shows "patched (remove_patch ing j) ing =
    Some (ing\<lparr>ig_Rules := drop_nth j (ig_Rules ing),
              ig_TLS := tls_without (ir_Host (ig_Rules ing ! j)) (ig_TLS ing)\<rparr>)"
proof -
  have ne: "ig_Rules ing \<noteq> []" "drop_nth j (ig_Rules ing) \<noteq> []"
    using assms by (auto simp: drop_nth_def)
  show ?thesis
  proof (cases "find_tls (ir_Host (ig_Rules ing ! j)) 0 (ig_TLS ing)")
    case None
    then show ?thesis using assms ne
      by (auto simp: patched_def apply_patch_def remove_patch_def member_of_list_def tls_without_def
          simp flip: drop_nth_def)
  next
    case (Some i)
    then have "i < length (ig_TLS ing)" "ig_TLS ing \<noteq> []" using find_tls_0 by fastforce+
    with Some show ?thesis using assms ne
      by (auto simp: patched_def apply_patch_def remove_patch_def member_of_list_def tls_without_def
          simp flip: drop_nth_def)
  qed
qed

text \<open>Replacing rule \<open>j\<close> and, for a TLS route, the TLS entry of the old rule's host.\<close>

definition tls_updated :: "string \<Rightarrow> IngressTLS option \<Rightarrow> IngressTLS list \<Rightarrow> IngressTLS list option" where
  "tls_updated host tls ts =
     (case tls of None \<Rightarrow> Some ts
      | Some t \<Rightarrow> (case find_tls host 0 ts of
            Some i \<Rightarrow> Some (ts[i := t])
          | None \<Rightarrow> if ts = [] then None else Some (ts @ [t])))"

lemma patched_update:
  assumes "j < length (ig_Rules ing)"
  shows "patched (update_patch ing j rule tls) ing =
    map_option (\<lambda>ts. ing\<lparr>ig_Rules := (ig_Rules ing)[j := rule], ig_TLS := ts\<rparr>)
      (tls_updated (ir_Host (ig_Rules ing ! j)) tls (ig_TLS ing))"
proof -
  have ne: "ig_Rules ing \<noteq> []" using assms by auto
  show ?thesis
  proof (cases tls)
    case None
    then show ?thesis using assms ne
      by (simp add: patched_def apply_patch_def update_patch_def member_of_list_def tls_updated_def)
  next
    case (Some t)
    show ?thesis
    proof (cases "find_tls (ir_Host (ig_Rules ing ! j)) 0 (ig_TLS ing)")
      case None
      with Some show ?thesis using assms ne
        by (cases "ig_TLS ing = []")
          (simp_all add: patched_def apply_patch_def update_patch_def member_of_list_def tls_updated_def)
    next
      case (Some i)
      then have "i < length (ig_TLS ing)" "ig_TLS ing \<noteq> []" using find_tls_0 by fastforce+
      with Some \<open>tls = Some t\<close> show ?thesis using assms ne
        by (simp add: patched_def apply_patch_def update_patch_def member_of_list_def tls_updated_def)
    qed
  qed
qed

text \<open>
  Replacing both arrays: rejected when the Ingress has no TLS entry, since \<open>replace\<close> needs its
  target to exist.
\<close>

definition replace_patch :: "IngressRule list \<Rightarrow> IngressTLS list \<Rightarrow> jsonPatch list" where
  "replace_patch rs ts =
     [\<lparr>jp_Op = ''replace'', jp_Path = ''/spec/rules'', jp_Value = PRules rs\<rparr>,
      \<lparr>jp_Op = ''replace'', jp_Path = ''/spec/tls'', jp_Value = PTLSs ts\<rparr>]"

lemma patchReplaceSpec_patch: "patchReplaceSpec p n rs ts = applyJSONPatch p n (replace_patch rs ts)"
  by (simp add: patchReplaceSpec_def replace_patch_def)

lemma patched_replace:
  assumes "ig_Rules ing \<noteq> []" "rs \<noteq> []"
  shows "patched (replace_patch rs ts) ing =
    (if ig_TLS ing = [] then None else Some (ing\<lparr>ig_Rules := rs, ig_TLS := ts\<rparr>))"
  using assms by (simp add: patched_def apply_patch_def replace_patch_def member_of_list_def)

end
