(* ===== verification/IngressCorrect.thy ===== *)
theory IngressCorrect
  imports IngressPatches Reconciler
begin

text \<open>
  What the operations of the Ingress provisioner do to the routes of a cluster that behaves
  as documented (\<open>kube_ok\<close>): the multiset of rules of the managed Ingresses after each
  operation, the capacity of every bucket, and the contract of a provisioner.
\<close>

section \<open>The managed Ingresses\<close>

definition managed :: "'w IngressProvisioner \<Rightarrow> ('w \<Rightarrow> Ingress list) \<Rightarrow> 'w \<Rightarrow> Ingress list" where
  "managed p objs w = filter (selects (labelSelector p)) (objs w)"

definition rules_of :: "Ingress list \<Rightarrow> IngressRule multiset" where
  "rules_of ings = mset (concat (map ig_Rules ings))"

definition managed_rules ::
  "'w IngressProvisioner \<Rightarrow> ('w \<Rightarrow> Ingress list) \<Rightarrow> 'w \<Rightarrow> IngressRule multiset" where
  "managed_rules p objs w = rules_of (managed p objs w)"

text \<open>No bucket holds more rules than the configuration allows.\<close>

definition within_capacity :: "'w IngressProvisioner \<Rightarrow> ('w \<Rightarrow> Ingress list) \<Rightarrow> 'w \<Rightarrow> bool" where
  "within_capacity p objs w \<longleftrightarrow>
     (\<forall>ing \<in> set (managed p objs w). int (length (ig_Rules ing)) \<le> ic_maxRoutesPerIngress (ing_cfg p))"

text \<open>
  A provisioner on such a cluster whose new objects carry the label it selects by, which the
  comment on \<open>Labels\<close> asks of a mapper, over a state with distinct names.
\<close>

definition cluster_ok :: "'w IngressProvisioner \<Rightarrow> ('w \<Rightarrow> Ingress list) \<Rightarrow> 'w \<Rightarrow> bool" where
  "cluster_ok p objs w \<longleftrightarrow>
     kube_ok (ing_api p) (ic_namespace (ing_cfg p)) objs \<and> kube_wf objs w \<and>
     im_Labels (ing_mapper p) (ic_managementLabel (ing_cfg p)) = Some (ic_managementValue (ing_cfg p))"

lemma cluster_okD:
  assumes "cluster_ok p objs w"
  shows "kube_ok (ing_api p) (ic_namespace (ing_cfg p)) objs" "kube_wf objs w"
    "selects (labelSelector p) (new_ingress p i rs ts)"
  using assms by (auto simp: cluster_ok_def selects_def labelSelector_def new_ingress_def Let_def)

lemma cluster_ok_wf: "cluster_ok p objs w \<Longrightarrow> kube_wf objs w' \<Longrightarrow> cluster_ok p objs w'"
  by (simp add: cluster_ok_def)

lemma rules_of_simps [simp]:
  "rules_of [] = {#}" "rules_of (i # is) = mset (ig_Rules i) + rules_of is"
  "rules_of (is @ js) = rules_of is + rules_of js"
  by (simp_all add: rules_of_def)

lemma listManagedIngresses_run [simp]:
  assumes "cluster_ok p objs w"
  shows "listManagedIngresses p w = (Ret (managed p objs w), w)"
  using kube_List [OF cluster_okD(1) [OF assms]]
  by (simp add: listManagedIngresses_def managed_def ext_def wrapr_def)

section \<open>One object patched, created or deleted\<close>

lemma map_update_split:
  assumes "distinct (map ig_Name (xs @ ing # ys))"
  shows "map (\<lambda>i. if ig_Name i = ig_Name ing then ing' else i) (xs @ ing # ys) = xs @ ing' # ys"
proof -
  have "\<And>i. i \<in> set xs \<union> set ys \<Longrightarrow> ig_Name i \<noteq> ig_Name ing"
    using assms by (auto dest: sym)
  then show ?thesis by (simp add: map_idI)
qed

text \<open>
  The effect of an accepted patch on a managed Ingress: it is replaced in its place.
\<close>

lemma patch_effect:
  assumes ok: "cluster_ok p objs w" and mem: "ing \<in> set (managed p objs w)"
    and run: "applyJSONPatch p (ig_Name ing) ps w = (Ret u, w')"
  obtains ing' xs ys where "patched ps ing = Some ing'"
    "managed p objs w = xs @ ing # ys" "managed p objs w' = xs @ ing' # ys" "cluster_ok p objs w'"
    "ig_Name ing' = ig_Name ing"
proof -
  have in_objs: "ing \<in> set (objs w)" and sel: "selects (labelSelector p) ing"
    using mem by (auto simp: managed_def)
  have "ka_Patch (ing_api p) (ic_namespace (ing_cfg p)) (ig_Name ing) ps w = (Inr u, w')"
    using run unfolding applyJSONPatch_def by (rule ext_RetD)
  from kube_Patch_Ret [OF cluster_okD(1) [OF ok] cluster_okD(2) [OF ok] in_objs this]
  obtain ing' where ing': "patched ps ing = Some ing'"
    "objs w' = map (\<lambda>i. if ig_Name i = ig_Name ing then ing' else i) (objs w)" by blast
  obtain xs ys where split: "objs w = xs @ ing # ys" using in_objs by (meson split_list)
  have "distinct (map ig_Name (objs w))" using cluster_okD(2) [OF ok] by (simp add: kube_wf_def)
  then have objs': "objs w' = xs @ ing' # ys"
    unfolding ing'(2) split by (rule map_update_split)
  have name: "ig_Name ing' = ig_Name ing" "selects (labelSelector p) ing'"
    using patched_name [OF ing'(1)] sel by (simp_all add: selects_def)
  let ?f = "filter (selects (labelSelector p))"
  have "managed p objs w = ?f xs @ ing # ?f ys" "managed p objs w' = ?f xs @ ing' # ?f ys"
    using split objs' sel name by (simp_all add: managed_def)
  moreover have "kube_wf objs w'"
    using cluster_okD(2) [OF ok] objs' split name by (simp add: kube_wf_def)
  ultimately show ?thesis using that [OF ing'(1)] cluster_ok_wf [OF ok] name by blast
qed

lemma create_effect:
  assumes ok: "cluster_ok p objs w"
    and run: "createIngressWithRules p index rules tls w = (Ret ing, w')"
  obtains xs ys where "ing = new_ingress p index rules tls" "rules \<noteq> []"
    "managed p objs w = xs @ ys" "managed p objs w' = xs @ ing # ys" "cluster_ok p objs w'"
    "ig_Name ing \<notin> ig_Name ` set (objs w)"
proof -
  let ?new = "new_ingress p index rules tls"
  have "ka_Create (ing_api p) (ic_namespace (ing_cfg p)) ?new w = (Inr ing, w')"
    using run unfolding createIngressWithRules_def
    by (rule wrapr_RetD) (drule ext_RetD, simp)
  from kube_Create_Ret [OF cluster_okD(1) [OF ok] this]
  obtain xs ys where c: "ing = ?new" "objs w = xs @ ys" "objs w' = xs @ ?new # ys"
    "ig_Rules ?new \<noteq> []" "ig_Name ?new \<notin> kube_names objs w" by blast
  let ?f = "filter (selects (labelSelector p))"
  have m: "managed p objs w = ?f xs @ ?f ys" "managed p objs w' = ?f xs @ ing # ?f ys"
    using c cluster_okD(3) [OF ok] by (simp_all add: managed_def)
  have wf: "kube_wf objs w'"
    using cluster_okD(2) [OF ok] c(2,3,5) by (auto simp: kube_wf_def kube_names_def)
  have ne: "rules \<noteq> []" using c(4) by (simp add: new_ingress_def Let_def)
  have fresh: "ig_Name ing \<notin> ig_Name ` set (objs w)"
    using c(1,5) by (simp add: kube_names_def)
  show ?thesis by (rule that [OF c(1) ne m cluster_ok_wf [OF ok wf] fresh])
qed

lemma delete_effect:
  assumes ok: "cluster_ok p objs w" and mem: "ing \<in> set (managed p objs w)"
  obtains w' xs ys where "deleteIngress p (ig_Name ing) w = (Ret (), w')"
    "managed p objs w = xs @ ing # ys" "managed p objs w' = xs @ ys" "cluster_ok p objs w'"
proof -
  have in_objs: "ing \<in> set (objs w)" and sel: "selects (labelSelector p) ing"
    using mem by (auto simp: managed_def)
  then have "ig_Name ing \<in> kube_names objs w" by (simp add: kube_names_def)
  then obtain w' where w': "ka_Delete (ing_api p) (ic_namespace (ing_cfg p)) (ig_Name ing) w = (Inr (), w')"
    "objs w' = filter (\<lambda>i. ig_Name i \<noteq> ig_Name ing) (objs w)"
    using kube_Delete_Ret [OF cluster_okD(1) [OF ok]] by blast
  obtain xs ys where split: "objs w = xs @ ing # ys" using in_objs by (meson split_list)
  have d: "distinct (map ig_Name (objs w))" using cluster_okD(2) [OF ok] by (simp add: kube_wf_def)
  have "\<And>i. i \<in> set xs \<union> set ys \<Longrightarrow> ig_Name i \<noteq> ig_Name ing"
    using d split by (auto dest: sym)
  then have objs': "objs w' = xs @ ys"
    using w'(2) split by (simp add: filter_eq_self)
  let ?f = "filter (selects (labelSelector p))"
  have m: "managed p objs w = ?f xs @ ing # ?f ys" "managed p objs w' = ?f xs @ ?f ys"
    using split objs' sel by (simp_all add: managed_def)
  have wf: "kube_wf objs w'" using d objs' split by (simp add: kube_wf_def)
  have run: "deleteIngress p (ig_Name ing) w = (Ret (), w')"
    using w'(1) by (simp add: deleteIngress_def)
  show ?thesis by (rule that [OF run m cluster_ok_wf [OF ok wf]])
qed

section \<open>Finding a route and a free bucket\<close>

lemma find_rule_Some:
  "find_rule f i k rs = Some j \<Longrightarrow> k \<le> j \<and> j - k < length rs \<and> f (rs ! (j - k)) = i"
proof (induction rs arbitrary: k)
  case Nil
  then show ?case by simp
next
  case (Cons r rs)
  show ?case
  proof (cases "f r = i")
    case True
    with Cons.prems show ?thesis by simp
  next
    case False
    with Cons.prems have "find_rule f i (Suc k) rs = Some j" by simp
    note ih = Cons.IH [OF this]
    then have "j - k = Suc (j - Suc k)" by arith
    with ih show ?thesis by simp
  qed
qed

lemma find_rule_None: "find_rule f i k rs = None \<longleftrightarrow> (\<forall>r \<in> set rs. f r \<noteq> i)"
  by (induction rs arbitrary: k) auto

lemma find_route_Some:
  assumes "find_route f i ings = Some (ing, j)"
  shows "ing \<in> set ings \<and> j < length (ig_Rules ing) \<and> f (ig_Rules ing ! j) = i"
  using assms
proof (induction ings)
  case Nil
  then show ?case by simp
next
  case (Cons a ings)
  then show ?case
    by (cases "find_rule f i 0 (ig_Rules a)") (auto dest!: find_rule_Some [where k = 0, simplified])
qed

lemma find_route_None:
  "find_route f i ings = None \<longleftrightarrow> (\<forall>r \<in># rules_of ings. f r \<noteq> i)"
proof (induction ings)
  case Nil
  then show ?case by simp
next
  case (Cons a ings)
  show ?case
  proof (cases "find_rule f i 0 (ig_Rules a)")
    case None
    with Cons show ?thesis using find_rule_None [THEN iffD1, OF None] by auto
  next
    case (Some j)
    then have "j < length (ig_Rules a)" "f (ig_Rules a ! j) = i"
      using find_rule_Some [OF Some] by simp_all
    with Some show ?thesis using nth_mem by force
  qed
qed

lemma findWithCapacity_Some:
  "findWithCapacity p ings = Some ing \<Longrightarrow>
     ing \<in> set ings \<and> int (length (ig_Rules ing)) < ic_maxRoutesPerIngress (ing_cfg p)"
  by (induction ings) (auto split: if_splits)

lemma findWithCapacity_None:
  "findWithCapacity p ings = None \<longleftrightarrow>
     (\<forall>ing \<in> set ings. ic_maxRoutesPerIngress (ing_cfg p) \<le> int (length (ig_Rules ing)))"
  by (induction ings) auto

lemma mset_drop_nth: "j < length xs \<Longrightarrow> mset (drop_nth j xs) = mset xs - {#xs ! j#}"
proof -
  assume j: "j < length xs"
  have "mset xs = mset (take j xs @ xs ! j # drop (Suc j) xs)"
    by (rule arg_cong [OF id_take_nth_drop [OF j]])
  also have "\<dots> = add_mset (xs ! j) (mset (drop_nth j xs))" by (simp add: drop_nth_def)
  finally show ?thesis by simp
qed

lemma length_drop_nth: "j < length xs \<Longrightarrow> length (drop_nth j xs) = length xs - 1"
  by (simp add: drop_nth_def)

end
