(* ===== verification/IngressEffects.thy ===== *)
theory IngressEffects
  imports IngressCorrect
begin

text \<open>
  The effect of every operation of the Ingress provisioner on the rules of the managed
  Ingresses of a cluster that behaves as documented: the operations of one route, the grouped
  removal and the batch packing, which is also shown to return.
\<close>

section \<open>The managed objects as a multiset\<close>

definition objects :: "'w IngressProvisioner \<Rightarrow> ('w \<Rightarrow> Ingress list) \<Rightarrow> 'w \<Rightarrow> Ingress multiset" where
  "objects p objs w = mset (managed p objs w)"

definition rules_in :: "Ingress multiset \<Rightarrow> IngressRule multiset" where
  "rules_in M = sum_mset (image_mset (\<lambda>i. mset (ig_Rules i)) M)"

lemma rules_in_simps [simp]:
  "rules_in {#} = {#}" "rules_in (add_mset i M) = mset (ig_Rules i) + rules_in M"
  "rules_in (M + N) = rules_in M + rules_in N"
  by (simp_all add: rules_in_def)

lemma rules_in_mset [simp]: "rules_in (mset ings) = rules_of ings"
  by (induction ings) simp_all

lemma managed_rules_objects: "managed_rules p objs w = rules_in (objects p objs w)"
  by (simp add: managed_rules_def objects_def)

definition fits :: "'w IngressProvisioner \<Rightarrow> Ingress \<Rightarrow> bool" where
  "fits p ing \<longleftrightarrow> int (length (ig_Rules ing)) \<le> ic_maxRoutesPerIngress (ing_cfg p)"

lemma within_capacity_objects:
  "within_capacity p objs w \<longleftrightarrow> (\<forall>ing \<in># objects p objs w. fits p ing)"
  by (simp add: within_capacity_def objects_def fits_def)

text \<open>One object patched, created or deleted, on the multiset.\<close>

lemma patch_objects:
  assumes "cluster_ok p objs w" "ing \<in># objects p objs w"
    and "applyJSONPatch p (ig_Name ing) ps w = (Ret u, w')"
  obtains ing' M where "patched ps ing = Some ing'" "objects p objs w = add_mset ing M"
    "objects p objs w' = add_mset ing' M" "cluster_ok p objs w'" "ig_Name ing' = ig_Name ing"
proof -
  have "ing \<in> set (managed p objs w)" using assms(2) by (simp add: objects_def)
  from patch_effect [OF assms(1) this assms(3)]
  obtain ing' xs ys where e: "patched ps ing = Some ing'" "managed p objs w = xs @ ing # ys"
    "managed p objs w' = xs @ ing' # ys" "cluster_ok p objs w'" "ig_Name ing' = ig_Name ing" .
  have "objects p objs w = add_mset ing (mset (xs @ ys))"
    "objects p objs w' = add_mset ing' (mset (xs @ ys))"
    using e(2,3) by (simp_all add: objects_def)
  from that [OF e(1) this e(4,5)] show ?thesis .
qed

lemma create_objects:
  assumes "cluster_ok p objs w"
    and "createIngressWithRules p index rules tls w = (Ret ing, w')"
  shows "ing = new_ingress p index rules tls" "rules \<noteq> []"
    "objects p objs w' = add_mset ing (objects p objs w)" "cluster_ok p objs w'"
proof -
  from create_effect [OF assms]
  obtain xs ys where e: "ing = new_ingress p index rules tls" "rules \<noteq> []"
    "managed p objs w = xs @ ys" "managed p objs w' = xs @ ing # ys" "cluster_ok p objs w'"
    "ig_Name ing \<notin> ig_Name ` set (objs w)" .
  show "ing = new_ingress p index rules tls" "rules \<noteq> []" "cluster_ok p objs w'"
    by (rule e)+
  show "objects p objs w' = add_mset ing (objects p objs w)"
    using e(3,4) by (simp add: objects_def)
qed

lemma delete_objects:
  assumes "cluster_ok p objs w" "ing \<in># objects p objs w"
  obtains w' M where "deleteIngress p (ig_Name ing) w = (Ret (), w')"
    "objects p objs w = add_mset ing M" "objects p objs w' = M" "cluster_ok p objs w'"
proof -
  have "ing \<in> set (managed p objs w)" using assms(2) by (simp add: objects_def)
  from delete_effect [OF assms(1) this]
  obtain w' xs ys where e: "deleteIngress p (ig_Name ing) w = (Ret (), w')"
    "managed p objs w = xs @ ing # ys" "managed p objs w' = xs @ ys" "cluster_ok p objs w'" .
  have "objects p objs w = add_mset ing (mset (xs @ ys))" "objects p objs w' = mset (xs @ ys)"
    using e(2,3) by (simp_all add: objects_def)
  from that [OF e(1) this e(4)] show ?thesis .
qed

lemma new_ingress_rules [simp]: "ig_Rules (new_ingress p i rs ts) = rs"
  and new_ingress_tls [simp]: "ig_TLS (new_ingress p i rs ts) = ts"
  by (simp_all add: new_ingress_def Let_def)

lemma listManaged_bind:
  assumes "cluster_ok p objs w"
  shows "bindr (listManagedIngresses p) k w = k (managed p objs w) w"
  by (rule bindr_Ret) (rule listManagedIngresses_run [OF assms])

section \<open>One route\<close>

text \<open>
  Adding \<open>rule\<close> under the ID \<open>i\<close>: one rule with this ID is replaced if there is one, else
  the rule is added to the others.
\<close>

definition rule_put ::
  "(IngressRule \<Rightarrow> string) \<Rightarrow> string \<Rightarrow> IngressRule \<Rightarrow> IngressRule multiset \<Rightarrow> IngressRule multiset \<Rightarrow> bool" where
  "rule_put E i rule R R' \<longleftrightarrow>
     (if \<exists>r \<in># R. E r = i then \<exists>r \<in># R. E r = i \<and> R' = add_mset rule (R - {#r#})
      else R' = add_mset rule R)"

definition rule_dropped ::
  "(IngressRule \<Rightarrow> string) \<Rightarrow> string \<Rightarrow> IngressRule multiset \<Rightarrow> IngressRule multiset \<Rightarrow> bool" where
  "rule_dropped E i R R' \<longleftrightarrow>
     (if \<exists>r \<in># R. E r = i then \<exists>r \<in># R. E r = i \<and> R' = R - {#r#} else R' = R)"

lemma find_route_objects:
  assumes "find_route E i (managed p objs w) = Some (ing, j)"
  shows "ing \<in># objects p objs w" "j < length (ig_Rules ing)" "E (ig_Rules ing ! j) = i"
    "ig_Rules ing ! j \<in># managed_rules p objs w"
proof -
  have f: "ing \<in> set (managed p objs w)" "j < length (ig_Rules ing)" "E (ig_Rules ing ! j) = i"
    using find_route_Some [OF assms] by simp_all
  then show "ing \<in># objects p objs w" "j < length (ig_Rules ing)" "E (ig_Rules ing ! j) = i"
    by (simp_all add: objects_def)
  have "ig_Rules ing ! j \<in> set (ig_Rules ing)" using f(2) by (rule nth_mem)
  with f(1) show "ig_Rules ing ! j \<in># managed_rules p objs w"
    by (auto simp: managed_rules_def rules_of_def)
qed

lemma updateRule_effect:
  assumes ok: "cluster_ok p objs w"
    and found: "find_route E i (managed p objs w) = Some (ing, j)"
    and run: "updateRule p ing j rule tls req w = (Ret out, w')"
  shows "cluster_ok p objs w' \<and> rule_put E i rule (managed_rules p objs w) (managed_rules p objs w') \<and>
    (within_capacity p objs w \<longrightarrow> within_capacity p objs w')"
proof -
  note f = find_route_objects [OF found]
  obtain u where "applyJSONPatch p (ig_Name ing) (update_patch ing j rule tls) w = (Ret u, w')"
    using run unfolding updateRule_def by (rule wrapr_RetD) simp
  from patch_objects [OF ok f(1) this]
  obtain ing' M where e: "patched (update_patch ing j rule tls) ing = Some ing'"
    "objects p objs w = add_mset ing M" "objects p objs w' = add_mset ing' M" "cluster_ok p objs w'" .
  have r: "ig_Rules ing' = (ig_Rules ing)[j := rule]"
    using e(1) patched_update [OF f(2)] by auto
  have "managed_rules p objs w' = add_mset rule (mset (ig_Rules ing) - {#ig_Rules ing ! j#}) + rules_in M"
    using e(3) r mset_update [OF f(2)] by (simp add: managed_rules_objects)
  also have "\<dots> = add_mset rule (managed_rules p objs w - {#ig_Rules ing ! j#})"
    using e(2) f(2) by (simp add: managed_rules_objects)
  finally have "rule_put E i rule (managed_rules p objs w) (managed_rules p objs w')"
    using f(3,4) unfolding rule_put_def by auto
  moreover have "within_capacity p objs w \<longrightarrow> within_capacity p objs w'"
    using e(2,3) r by (auto simp: within_capacity_objects fits_def)
  ultimately show ?thesis using e(4) by simp
qed

lemma map_add_single: "map add_rule [rule] @ map add_tls (case tls of None \<Rightarrow> [] | Some t \<Rightarrow> [t]) =
    add_rule rule # (case tls of None \<Rightarrow> [] | Some t \<Rightarrow> [add_tls t])"
  by (simp split: option.split)

lemma add_rules_effect:
  assumes ok: "cluster_ok p objs w" and mem: "ing \<in># objects p objs w" and rules: "rules \<noteq> []"
    and run: "applyJSONPatch p (ig_Name ing) (map add_rule rules @ map add_tls ts) w = (Ret u, w')"
  obtains ing' M where "objects p objs w = add_mset ing M" "objects p objs w' = add_mset ing' M"
    "ig_Rules ing' = ig_Rules ing @ rules" "ig_TLS ing' = ig_TLS ing @ ts" "ig_Name ing' = ig_Name ing"
    "ts = [] \<or> ig_TLS ing \<noteq> []" "cluster_ok p objs w'"
proof -
  from patch_objects [OF ok mem run]
  obtain ing' M where e: "patched (map add_rule rules @ map add_tls ts) ing = Some ing'"
    "objects p objs w = add_mset ing M" "objects p objs w' = add_mset ing' M" "cluster_ok p objs w'"
    "ig_Name ing' = ig_Name ing" .
  have ne: "ig_Rules ing \<noteq> []" using e(1) patched_add_no_rules [OF _ rules] by force
  have "ts = [] \<or> ig_TLS ing \<noteq> []"
    "ing' = ing\<lparr>ig_Rules := ig_Rules ing @ rules, ig_TLS := ig_TLS ing @ ts\<rparr>"
    using e(1) unfolding patched_add [OF ne] by (simp_all split: if_splits)
  then show ?thesis using that [OF e(2,3)] e(4,5) by simp
qed

lemma ing_place_effect:
  assumes ok: "cluster_ok p objs w"
    and run: "ing_place p req cert rule tls (managed p objs w) w = (Ret out, w')"
  shows "cluster_ok p objs w' \<and>
    rule_put (im_ExtractRouteID (ing_mapper p)) (im_RouteID (ing_mapper p) req) rule
      (managed_rules p objs w) (managed_rules p objs w') \<and>
    (within_capacity p objs w \<longrightarrow> 0 < ic_maxRoutesPerIngress (ing_cfg p) \<longrightarrow> within_capacity p objs w')"
proof (cases "find_route (im_ExtractRouteID (ing_mapper p)) (im_RouteID (ing_mapper p) req) (managed p objs w)")
  case (Some found)
  obtain ing j where found: "found = (ing, j)" by (cases found)
  have "updateRule p ing j rule tls req w = (Ret out, w')"
    using run Some found by (simp add: ing_place_def)
  from updateRule_effect [OF ok Some [unfolded found] this] show ?thesis by blast
next
  case None
  then have absent: "\<not> (\<exists>r \<in># managed_rules p objs w.
      im_ExtractRouteID (ing_mapper p) r = im_RouteID (ing_mapper p) req)"
    by (simp add: find_route_None managed_rules_def)
  show ?thesis
  proof (cases "findWithCapacity p (managed p objs w)")
    case (Some ing)
    note cap = findWithCapacity_Some [OF Some]
    have "wrapr ''patch add rule'' (patchAddRule p (ig_Name ing) rule tls) (\<lambda>_. ret (Some
        (buildProvisionedRoute p (im_RouteID (ing_mapper p) req) (rr_Host req) (ig_Name ing) cert))) w = (Ret out, w')"
      using run None Some by (simp add: ing_place_def Let_def)
    then obtain u where "patchAddRule p (ig_Name ing) rule tls w = (Ret u, w')"
      by (rule wrapr_RetD) simp
    then have run': "applyJSONPatch p (ig_Name ing) (map add_rule [rule] @
        map add_tls (case tls of None \<Rightarrow> [] | Some t \<Rightarrow> [t])) w = (Ret u, w')"
      unfolding map_add_single patchAddRule_def .
    have mem: "ing \<in># objects p objs w" using cap by (simp add: objects_def)
    from add_rules_effect [OF ok mem not_Cons_self2 [of rule "[]"] run']
    obtain ing' M where e: "objects p objs w = add_mset ing M" "objects p objs w' = add_mset ing' M"
      "ig_Rules ing' = ig_Rules ing @ [rule]" "cluster_ok p objs w'"
.
    with absent cap show ?thesis
      by (auto simp: managed_rules_objects rule_put_def within_capacity_objects fits_def)
  next
    case none: None
    have "bindr (createIngressWithRules p (length (managed p objs w)) [rule]
        (case tls of None \<Rightarrow> [] | Some t \<Rightarrow> [t])) (\<lambda>created. ret (Some
        (buildProvisionedRoute p (im_RouteID (ing_mapper p) req) (rr_Host req) (ig_Name created) cert))) w = (Ret out, w')"
      using run None none by (simp add: ing_place_def Let_def)
    then obtain ing where "createIngressWithRules p (length (managed p objs w)) [rule]
        (case tls of None \<Rightarrow> [] | Some t \<Rightarrow> [t]) w = (Ret ing, w')"
      by (rule bindr_RetD) simp
    note e = create_objects [OF ok this]
    with absent show ?thesis
      by (auto simp: managed_rules_objects rule_put_def within_capacity_objects fits_def)
  qed
qed

lemma ing_Provision_effect:
  assumes ok: "cluster_ok p objs w" and run: "ing_Provision p req cert w = (Ret out, w')"
  obtains rule where "im_MapRule (ing_mapper p) req = Inr rule" "cluster_ok p objs w'"
    "rule_put (im_ExtractRouteID (ing_mapper p)) (im_RouteID (ing_mapper p) req) rule
      (managed_rules p objs w) (managed_rules p objs w')"
    "within_capacity p objs w \<longrightarrow> 0 < ic_maxRoutesPerIngress (ing_cfg p) \<longrightarrow> within_capacity p objs w'"
proof -
  from run obtain rule tls where m: "im_MapRule (ing_mapper p) req = Inr rule"
    "ing_place p req cert rule tls (managed p objs w) w = (Ret out, w')"
    by (auto simp: ing_Provision_def listManaged_bind [OF ok] split: sum.splits)
  from ing_place_effect [OF ok m(2)] show ?thesis using that [OF m(1)] by blast
qed

lemma ing_Deprovision_effect:
  assumes ok: "cluster_ok p objs w" and run: "ing_Deprovision p i w = (Ret out, w')"
  shows "cluster_ok p objs w' \<and>
    rule_dropped (im_ExtractRouteID (ing_mapper p)) i (managed_rules p objs w) (managed_rules p objs w') \<and>
    (within_capacity p objs w \<longrightarrow> within_capacity p objs w')"
proof (cases "find_route (im_ExtractRouteID (ing_mapper p)) i (managed p objs w)")
  case None
  then have "w' = w" using run by (simp add: ing_Deprovision_def listManaged_bind [OF ok])
  with None ok show ?thesis by (simp add: find_route_None managed_rules_def rule_dropped_def)
next
  case (Some found)
  obtain ing j where found: "found = (ing, j)" by (cases found)
  note f = find_route_objects [OF Some [unfolded found]]
  have step: "cluster_ok p objs w' \<and> managed_rules p objs w' = managed_rules p objs w - {#ig_Rules ing ! j#} \<and>
    (within_capacity p objs w \<longrightarrow> within_capacity p objs w')"
  proof (cases "length (ig_Rules ing) = 1")
    case True
    then obtain r where r: "ig_Rules ing = [r]" by (auto simp: length_Suc_conv)
    from delete_objects [OF ok f(1)]
    obtain v M where e: "deleteIngress p (ig_Name ing) w = (Ret (), v)"
      "objects p objs w = add_mset ing M" "objects p objs v = M" "cluster_ok p objs v" .
    have "v = w'" using run Some found True e(1)
      by (simp add: ing_Deprovision_def listManaged_bind [OF ok])
    with e r f(2) show ?thesis
      by (simp add: managed_rules_objects within_capacity_objects)
  next
    case False
    then have many: "1 < length (ig_Rules ing)" using f(2) by linarith
    have "wrapr ''patch remove rule'' (patchRemoveRule p ing j) ret w = (Ret out, w')"
      using run Some found False by (simp add: ing_Deprovision_def listManaged_bind [OF ok])
    then obtain u where "applyJSONPatch p (ig_Name ing) (remove_patch ing j) w = (Ret u, w')"
      unfolding patchRemoveRule_patch by (rule wrapr_RetD) simp
    from patch_objects [OF ok f(1) this]
    obtain ing' M where e: "patched (remove_patch ing j) ing = Some ing'"
      "objects p objs w = add_mset ing M" "objects p objs w' = add_mset ing' M" "cluster_ok p objs w'" .
    have r: "ig_Rules ing' = drop_nth j (ig_Rules ing)"
      using e(1) patched_remove [OF f(2) many] by auto
    have "managed_rules p objs w' = managed_rules p objs w - {#ig_Rules ing ! j#}"
      using e(2,3) r mset_drop_nth [OF f(2)] f(2) by (simp add: managed_rules_objects)
    moreover have "length (ig_Rules ing') \<le> length (ig_Rules ing)"
      using r length_drop_nth [OF f(2)] by simp
    ultimately show ?thesis using e(2-4) by (auto simp: within_capacity_objects fits_def)
  qed
  with f(3,4) show ?thesis unfolding rule_dropped_def by auto
qed

section \<open>Grouped removal\<close>

text \<open>An Ingress that loses some of its rules to the removal, but not all.\<close>

definition partly_hit :: "'w IngressProvisioner \<Rightarrow> string set \<Rightarrow> Ingress \<Rightarrow> bool" where
  "partly_hit p ids ing \<longleftrightarrow>
     (\<exists>r \<in> set (ig_Rules ing). im_ExtractRouteID (ing_mapper p) r \<in> ids) \<and>
     (\<exists>r \<in> set (ig_Rules ing). im_ExtractRouteID (ing_mapper p) r \<notin> ids)"

definition kept :: "'w IngressProvisioner \<Rightarrow> string set \<Rightarrow> Ingress \<Rightarrow> IngressRule list" where
  "kept p ids ing = filter (\<lambda>r. im_ExtractRouteID (ing_mapper p) r \<notin> ids) (ig_Rules ing)"

definition kept_tls :: "'w IngressProvisioner \<Rightarrow> string set \<Rightarrow> Ingress \<Rightarrow> IngressTLS list" where
  "kept_tls p ids ing = keep_tls (ir_Host ` set (filter (\<lambda>r. im_ExtractRouteID (ing_mapper p) r \<in> ids)
     (ig_Rules ing))) (ig_TLS ing)"

lemma prune_cases:
  "prune p ids ing =
     (if \<not> (\<exists>r \<in> set (ig_Rules ing). im_ExtractRouteID (ing_mapper p) r \<in> ids) then ret ()
      else if kept p ids ing = [] then deleteIngress p (ig_Name ing)
      else wrapr (''patch ingress '' @ ig_Name ing)
             (applyJSONPatch p (ig_Name ing) (replace_patch (kept p ids ing) (kept_tls p ids ing))) ret)"
  by (simp add: prune_def Let_def kept_def kept_tls_def filter_empty_conv patchReplaceSpec_patch)

lemma partly_hit_kept:
  "partly_hit p ids ing \<longleftrightarrow>
     (\<exists>r \<in> set (ig_Rules ing). im_ExtractRouteID (ing_mapper p) r \<in> ids) \<and> kept p ids ing \<noteq> []"
  by (simp add: partly_hit_def kept_def filter_empty_conv)

lemma replace_objects:
  assumes ok: "cluster_ok p objs w" and mem: "ing \<in># objects p objs w"
    and hit: "partly_hit p ids ing"
    and run: "applyJSONPatch p (ig_Name ing) (replace_patch (kept p ids ing) ts) w = (Ret u, w')"
  obtains ing' M where "objects p objs w = add_mset ing M" "objects p objs w' = add_mset ing' M"
    "ig_Rules ing' = kept p ids ing" "ig_TLS ing \<noteq> []" "cluster_ok p objs w'"
proof -
  from patch_objects [OF ok mem run]
  obtain ing' M where e: "patched (replace_patch (kept p ids ing) ts) ing = Some ing'"
    "objects p objs w = add_mset ing M" "objects p objs w' = add_mset ing' M" "cluster_ok p objs w'" .
  have ne: "ig_Rules ing \<noteq> []" "kept p ids ing \<noteq> []"
    using hit by (auto simp: partly_hit_def kept_def filter_empty_conv)
  have "ig_TLS ing \<noteq> []" "ig_Rules ing' = kept p ids ing"
    using e(1) unfolding patched_replace [OF ne] by (auto split: if_splits)
  then show ?thesis using that [OF e(2,3)] e(4) by simp
qed

text \<open>The removal from one Ingress: it goes through unless the Ingress is hit in part and has no TLS.\<close>

lemma prune_Ret:
  assumes ok: "cluster_ok p objs w" and mem: "ing \<in># objects p objs w"
    and run: "prune p ids ing w = (Ret u, w')"
  obtains N M where "objects p objs w = add_mset ing M" "objects p objs w' = N + M" "cluster_ok p objs w'"
    "rules_in N = filter_mset (\<lambda>r. im_ExtractRouteID (ing_mapper p) r \<notin> ids) (mset (ig_Rules ing))"
    "fits p ing \<longrightarrow> (\<forall>i \<in># N. fits p i)"
proof (cases "\<exists>r \<in> set (ig_Rules ing). im_ExtractRouteID (ing_mapper p) r \<in> ids")
  case False
  then have "w' = w" using run by (simp add: prune_cases)
  moreover obtain M where "objects p objs w = add_mset ing M" using mem by (rule multi_member_split [THEN exE])
  moreover have "filter_mset (\<lambda>r. im_ExtractRouteID (ing_mapper p) r \<notin> ids) (mset (ig_Rules ing)) = mset (ig_Rules ing)"
    using False by (auto simp: filter_mset_eq_conv)
  ultimately show ?thesis using that [of M "{#ing#}"] ok by simp
next
  case hit: True
  show ?thesis
  proof (cases "kept p ids ing = []")
    case True
    from delete_objects [OF ok mem]
    obtain v M where e: "deleteIngress p (ig_Name ing) w = (Ret (), v)"
      "objects p objs w = add_mset ing M" "objects p objs v = M" "cluster_ok p objs v" .
    have "v = w'" using run hit True e(1) by (simp add: prune_cases)
    moreover have "filter_mset (\<lambda>r. im_ExtractRouteID (ing_mapper p) r \<notin> ids) (mset (ig_Rules ing)) = {#}"
      using True by (simp add: kept_def flip: mset_filter)
    ultimately show ?thesis using that [of M "{#}"] e by simp
  next
    case False
    with hit have part: "partly_hit p ids ing" by (simp add: partly_hit_kept)
    have "wrapr (''patch ingress '' @ ig_Name ing) (applyJSONPatch p (ig_Name ing)
        (replace_patch (kept p ids ing) (kept_tls p ids ing))) ret w = (Ret u, w')"
      using run hit False by (simp add: prune_cases)
    then obtain v where "applyJSONPatch p (ig_Name ing) (replace_patch (kept p ids ing) (kept_tls p ids ing)) w = (Ret v, w')"
      by (rule wrapr_RetD) simp
    from replace_objects [OF ok mem part this]
    obtain ing' M where e: "objects p objs w = add_mset ing M" "objects p objs w' = add_mset ing' M"
      "ig_Rules ing' = kept p ids ing" "cluster_ok p objs w'" .
    have "length (ig_Rules ing') \<le> length (ig_Rules ing)" using e(3) by (simp add: kept_def)
    then have "fits p ing \<longrightarrow> fits p ing'" unfolding fits_def by linarith
    with e show ?thesis using that [of M "{#ing'#}"] by (simp add: kept_def)
  qed
qed

lemma prune_all_Ret:
  assumes "cluster_ok p objs w" "objects p objs w = mset ings + M"
    and "prune_all p ids ings w = (Ret u, w')"
  shows "cluster_ok p objs w' \<and> (\<exists>N. objects p objs w' = N + M \<and>
    rules_in N = filter_mset (\<lambda>r. im_ExtractRouteID (ing_mapper p) r \<notin> ids) (rules_of ings) \<and>
    ((\<forall>i \<in> set ings. fits p i) \<longrightarrow> (\<forall>i \<in># N. fits p i)))"
  using assms
proof (induction ings arbitrary: w M)
  case Nil
  then show ?case by simp
next
  case (Cons ing ings)
  from Cons.prems(3) obtain v where step: "prune p ids ing w = (Ret (), v)"
    and rest: "prune_all p ids ings v = (Ret u, w')"
    by (auto elim!: bindr_RetD)
  have "ing \<in># objects p objs w" using Cons.prems(2) by simp
  from prune_Ret [OF Cons.prems(1) this step]
  obtain K L where K: "objects p objs w = add_mset ing L" "objects p objs v = K + L" "cluster_ok p objs v"
    "rules_in K = filter_mset (\<lambda>r. im_ExtractRouteID (ing_mapper p) r \<notin> ids) (mset (ig_Rules ing))"
    "fits p ing \<longrightarrow> (\<forall>i \<in># K. fits p i)" .
  have "objects p objs v = mset ings + (K + M)" using K(1,2) Cons.prems(2) by simp
  from Cons.IH [OF K(3) this rest]
  obtain N where N: "cluster_ok p objs w'" "objects p objs w' = N + (K + M)"
    "rules_in N = filter_mset (\<lambda>r. im_ExtractRouteID (ing_mapper p) r \<notin> ids) (rules_of ings)"
    "(\<forall>i \<in> set ings. fits p i) \<longrightarrow> (\<forall>i \<in># N. fits p i)" by blast
  have "objects p objs w' = (N + K) + M" using N(2) by simp
  moreover have "rules_in (N + K) =
      filter_mset (\<lambda>r. im_ExtractRouteID (ing_mapper p) r \<notin> ids) (rules_of (ing # ings))"
    using N(3) K(4) by simp
  moreover have "(\<forall>i \<in> set (ing # ings). fits p i) \<longrightarrow> (\<forall>i \<in># N + K. fits p i)"
    using N(4) K(5) unfolding set_mset_union list.set by blast
  ultimately show ?case using N(1) by (intro conjI exI [of _ "N + K"])
qed

lemma ing_BatchDeprovision_effect:
  assumes ok: "cluster_ok p objs w" and run: "ing_BatchDeprovision p ids w = (Ret u, w')"
  shows "cluster_ok p objs w' \<and>
    managed_rules p objs w' =
      filter_mset (\<lambda>r. im_ExtractRouteID (ing_mapper p) r \<notin> set ids) (managed_rules p objs w) \<and>
    (within_capacity p objs w \<longrightarrow> within_capacity p objs w')"
proof -
  have "prune_all p (set ids) (managed p objs w) w = (Ret u, w')"
    using run by (simp add: ing_BatchDeprovision_def listManaged_bind [OF ok])
  from prune_all_Ret [OF ok _ this, of "{#}"]
  show ?thesis by (auto simp: managed_rules_objects within_capacity_objects objects_def)
qed

end
