(* ===== verification/IngressPacking.thy ===== *)
theory IngressPacking
  imports IngressEffects
begin

text \<open>
  The batch operations of the Ingress provisioner: exactly when the grouped removal goes
  through, that the packing of a batch returns for a positive capacity and what it makes of
  the managed Ingresses.
\<close>

section \<open>When the grouped removal goes through\<close>

lemma patch_runs:
  assumes ok: "cluster_ok p objs w" and mem: "ing \<in># objects p objs w"
  shows "patched ps ing = None \<Longrightarrow> \<exists>e. applyJSONPatch p (ig_Name ing) ps w = (Fail e, w)"
    and "patched ps ing = Some ing' \<Longrightarrow> \<exists>w'. applyJSONPatch p (ig_Name ing) ps w = (Ret (), w')"
proof -
  have in_objs: "ing \<in> set (objs w)" using mem by (simp add: objects_def managed_def)
  note c = cluster_okD(1) [OF ok] cluster_okD(2) [OF ok]
  show "\<exists>e. applyJSONPatch p (ig_Name ing) ps w = (Fail e, w)" if "patched ps ing = None"
    using kube_Patch_reject [OF c in_objs that] unfolding applyJSONPatch_def by (metis ext_Fail)
  show "\<exists>w'. applyJSONPatch p (ig_Name ing) ps w = (Ret (), w')" if "patched ps ing = Some ing'"
    using kube_Patch_accept [OF c in_objs that] unfolding applyJSONPatch_def by (metis ext_Ret)
qed

text \<open>
  The patch of an Ingress that is hit in part replaces \<open>/spec/tls\<close>, which the API server
  refuses when the Ingress has no TLS entry.
\<close>

definition stuck :: "'w IngressProvisioner \<Rightarrow> string set \<Rightarrow> Ingress \<Rightarrow> bool" where
  "stuck p ids ing \<longleftrightarrow> partly_hit p ids ing \<and> ig_TLS ing = []"

lemma prune_outcome:
  assumes ok: "cluster_ok p objs w" and mem: "ing \<in># objects p objs w"
  shows "stuck p ids ing \<Longrightarrow> \<exists>e. prune p ids ing w = (Fail e, w)"
    and "\<not> stuck p ids ing \<Longrightarrow> \<exists>w'. prune p ids ing w = (Ret (), w')"
proof -
  let ?rs = "kept p ids ing" and ?ts = "kept_tls p ids ing"
  note part = partly_hit_kept [of p ids ing]
  have patched: "patched (replace_patch ?rs ?ts) ing =
      (if ig_TLS ing = [] then None else Some (ing\<lparr>ig_Rules := ?rs, ig_TLS := ?ts\<rparr>))"
    if "?rs \<noteq> []"
    using that by (intro patched_replace) (auto simp: kept_def)
  show "\<exists>e. prune p ids ing w = (Fail e, w)" if s: "stuck p ids ing"
  proof -
    have "patched (replace_patch ?rs ?ts) ing = None" using s part patched by (simp add: stuck_def)
    from patch_runs(1) [OF ok mem this] s part show ?thesis by (auto simp: prune_cases stuck_def)
  qed
  show "\<exists>w'. prune p ids ing w = (Ret (), w')" if s: "\<not> stuck p ids ing"
  proof (cases "partly_hit p ids ing")
    case True
    then obtain ing' where "patched (replace_patch ?rs ?ts) ing = Some ing'"
      using s part patched by (simp add: stuck_def)
    from patch_runs(2) [OF ok mem this] show ?thesis
      using True part by (auto simp: prune_cases)
  next
    case False
    from delete_objects [OF ok mem] obtain v where "deleteIngress p (ig_Name ing) w = (Ret (), v)" by blast
    with False part show ?thesis by (cases "kept p ids ing = []") (auto simp: prune_cases)
  qed
qed

lemma prune_all_outcome:
  assumes "cluster_ok p objs w" "objects p objs w = mset ings + M"
  shows "(\<exists>w'. prune_all p ids ings w = (Ret (), w')) \<longleftrightarrow> (\<forall>ing \<in> set ings. \<not> stuck p ids ing)"
  using assms
proof (induction ings arbitrary: w M)
  case Nil
  then show ?case by simp
next
  case (Cons ing ings)
  have mem: "ing \<in># objects p objs w" using Cons.prems(2) by simp
  note out = prune_outcome [OF Cons.prems(1) mem, of ids]
  show ?case
  proof (cases "stuck p ids ing")
    case True
    with out(1) show ?thesis by auto
  next
    case False
    then obtain v where step: "prune p ids ing w = (Ret (), v)" using out(2) by blast
    from prune_Ret [OF Cons.prems(1) mem step]
    obtain N L where N: "objects p objs w = add_mset ing L" "objects p objs v = N + L" "cluster_ok p objs v" .
    have "objects p objs v = mset ings + (N + M)" using N(1,2) Cons.prems(2) by simp
    from Cons.IH [OF N(3) this] show ?thesis using step False by simp
  qed
qed

lemma ing_BatchDeprovision_outcome:
  assumes ok: "cluster_ok p objs w"
  shows "(\<exists>w'. ing_BatchDeprovision p ids w = (Ret (), w')) \<longleftrightarrow>
    (\<forall>ing \<in> set (managed p objs w). \<not> stuck p (set ids) ing)"
  using prune_all_outcome [OF ok, of "managed p objs w" "{#}"]
  by (simp add: ing_BatchDeprovision_def listManaged_bind [OF ok] objects_def)

section \<open>Filling the Ingresses with free capacity\<close>

text \<open>A batch to be patched into an Ingress of the list, within its capacity.\<close>

definition batch_fits :: "int \<Rightarrow> Ingress list \<Rightarrow> batch \<Rightarrow> bool" where
  "batch_fits m ings b \<longleftrightarrow> b_needsPatch b \<and> b_routes b \<noteq> [] \<and>
     (\<exists>ing \<in> set ings. ig_Name ing = b_ingressName b \<and>
        int (length (ig_Rules ing)) + int (length (b_routes b)) \<le> m)"

lemma fill_existing_new:
  assumes "fill_existing m mapped ings cursor bs = (c, bs')" "distinct (map ig_Name ings)"
  shows "\<exists>new. bs' = bs @ new \<and> distinct (map b_ingressName new) \<and> (\<forall>b \<in> set new. batch_fits m ings b)"
  using assms
proof (induction m mapped ings cursor bs rule: fill_existing.induct)
  case (1 m mapped cursor bs)
  then show ?case by simp
next
  case (2 m mapped ing ings cursor bs)
  have weaken: "batch_fits m ings b \<Longrightarrow> batch_fits m (ing # ings) b" for b
    by (auto simp: batch_fits_def)
  consider "cursor \<ge> length mapped" | "cursor < length mapped" "m - int (length (ig_Rules ing)) \<le> 0"
    | "cursor < length mapped" "0 < m - int (length (ig_Rules ing))" by linarith
  then show ?case
  proof cases
    case 1
    with 2 show ?thesis by simp
  next
    case 2
    with "2.prems" have "fill_existing m mapped ings cursor bs = (c, bs')" by (simp add: Let_def)
    from "2.IH"(1) [OF _ refl _ this] 2 "2.prems"(2) weaken show ?thesis by auto
  next
    case 3
    let ?cap = "m - int (length (ig_Rules ing))"
    let ?stop = "min (cursor + nat ?cap) (length mapped)"
    let ?b = "\<lparr>b_ingressName = ig_Name ing, b_routes = go_slice mapped cursor ?stop, b_needsPatch = True\<rparr>"
    have "fill_existing m mapped ings ?stop (bs @ [?b]) = (c, bs')"
      using 3 "2.prems"(1) by (simp add: Let_def)
    from "2.IH"(2) [OF _ refl _ refl this] 3 "2.prems"(2)
    obtain new where new: "bs' = (bs @ [?b]) @ new" "distinct (map b_ingressName new)"
      "\<forall>b \<in> set new. batch_fits m ings b" by auto
    have len: "length (go_slice mapped cursor ?stop) = ?stop - cursor" by (intro length_go_slice) simp
    have "?stop - cursor \<le> nat ?cap" "0 < ?stop - cursor" using 3 by auto
    then have "batch_fits m (ing # ings) ?b"
      using len 3 by (auto simp: batch_fits_def simp del: length_0_conv simp flip: length_greater_0_conv)
    moreover have "ig_Name ing \<notin> b_ingressName ` set new"
      using new(3) "2.prems"(2) by (force simp: batch_fits_def)
    ultimately show ?thesis using new weaken by (intro exI [of _ "?b # new"]) auto
  qed
qed

section \<open>Creating Ingresses for the rest\<close>

text \<open>
  With a positive capacity every round of the loop advances the cursor, so the loop ends
  whatever the client answers.
\<close>

lemma create_overflow_returns:
  assumes "0 < ic_maxRoutesPerIngress (ing_cfg p)"
  shows "\<exists>r. create_overflow p mapped cursor index bs w = Some r"
proof (induction "length mapped - cursor" arbitrary: cursor index bs w rule: less_induct)
  case less
  show ?case
  proof (cases "cursor < length mapped")
    case False
    then show ?thesis by (subst create_overflow.simps) simp
  next
    case True
    let ?stop = "min (int cursor + ic_maxRoutesPerIngress (ing_cfg p)) (int (length mapped))"
    have adv: "length mapped - nat ?stop < length mapped - cursor" "\<not> ?stop < int cursor"
      using True assms by auto
    let ?rs = "go_slice mapped cursor (nat ?stop)"
    obtain x v where run: "createIngressWithRules p index (map mr_rule ?rs) (tls_entries ?rs) w = (x, v)"
      by (cases "createIngressWithRules p index (map mr_rule ?rs) (tls_entries ?rs) w")
    show ?thesis
      using True adv(2) run less [OF adv(1)]
      by (subst create_overflow.simps) (cases x; simp add: Let_def)
  qed
qed

text \<open>What the loop adds: new Ingresses within the capacity that hold the rest of the routes.\<close>

lemma create_overflow_effect:
  assumes "0 < ic_maxRoutesPerIngress (ing_cfg p)" "cluster_ok p objs w" "cursor \<le> length mapped"
    and "create_overflow p mapped cursor index bs w = Some (Ret bs', w')"
  shows "\<exists>N new. cluster_ok p objs w' \<and> objects p objs w' = N + objects p objs w \<and>
    rules_in N = mset (map mr_rule (drop cursor mapped)) \<and> (\<forall>i \<in># N. fits p i) \<and>
    bs' = bs @ new \<and> (\<forall>b \<in> set new. \<not> b_needsPatch b) \<and> covered new = drop cursor mapped"
  using assms(2-4)
proof (induction "length mapped - cursor" arbitrary: cursor index bs w rule: less_induct)
  case less
  show ?case
  proof (cases "cursor < length mapped")
    case False
    with less.prems(3) have "bs' = bs" "w' = w" by (simp_all add: create_overflow.simps [of _ _ cursor])
    with less.prems(1) False show ?thesis
      by (intro exI [of _ "{#}"] exI [of _ "[]"]) simp
  next
    case True
    let ?m = "ic_maxRoutesPerIngress (ing_cfg p)"
    let ?stop = "min (int cursor + ?m) (int (length mapped))"
    let ?rs = "go_slice mapped cursor (nat ?stop)"
    have adv: "length mapped - nat ?stop < length mapped - cursor" "\<not> ?stop < int cursor"
      "nat ?stop \<le> length mapped" "cursor \<le> nat ?stop" "int (nat ?stop) - int cursor \<le> ?m"
      using True assms(1) by auto
    obtain x v where run: "createIngressWithRules p index (map mr_rule ?rs) (tls_entries ?rs) w = (x, v)"
      by (cases "createIngressWithRules p index (map mr_rule ?rs) (tls_entries ?rs) w")
    from less.prems(3) True adv(2) run obtain ing where x: "x = Ret ing"
      by (subst (asm) create_overflow.simps) (cases x; simp add: Let_def)
    let ?b = "\<lparr>b_ingressName = ig_Name ing, b_routes = ?rs, b_needsPatch = False\<rparr>"
    from less.prems(3) True adv(2) run x
    have rest: "create_overflow p mapped (nat ?stop) (Suc index) (bs @ [?b]) v = Some (Ret bs', w')"
      by (subst (asm) create_overflow.simps) (simp add: Let_def)
    note c = create_objects [OF less.prems(1) run [unfolded x]]
    from less.hyps [OF adv(1) c(4) adv(3) rest]
    obtain N new where N: "cluster_ok p objs w'" "objects p objs w' = N + objects p objs v"
      "rules_in N = mset (map mr_rule (drop (nat ?stop) mapped))" "\<forall>i \<in># N. fits p i"
      "bs' = (bs @ [?b]) @ new" "\<forall>b \<in> set new. \<not> b_needsPatch b" "covered new = drop (nat ?stop) mapped"
      by blast
    have split: "drop cursor mapped = ?rs @ drop (nat ?stop) mapped"
      using adv(4) unfolding go_slice_def
      by (metis append_take_drop_id drop_drop le_add_diff_inverse2)
    have "fits p ing" using c(1) adv(3-5) by (simp add: fits_def length_go_slice)
    then have "\<forall>i \<in># add_mset ing N. fits p i" using N(4) by simp
    moreover have "rules_in (add_mset ing N) = mset (map mr_rule (drop cursor mapped))"
      using N(3) c(1) split by simp
    moreover have "objects p objs w' = add_mset ing N + objects p objs w" using N(2) c(3) by simp
    moreover have "covered (?b # new) = drop cursor mapped"
      using N(7) split by (simp add: covered_def)
    moreover have "bs' = bs @ (?b # new)" "\<forall>b \<in> set (?b # new). \<not> b_needsPatch b" using N(5,6) by simp_all
    ultimately show ?thesis using N(1) by blast
  qed
qed

section \<open>Applying the batches\<close>

text \<open>A batch that is to be patched finds its Ingress, with room for its routes.\<close>

definition patchable :: "'w IngressProvisioner \<Rightarrow> Ingress multiset \<Rightarrow> batch \<Rightarrow> bool" where
  "patchable p M b \<longleftrightarrow> b_routes b \<noteq> [] \<and> (\<exists>ing \<in># M. ig_Name ing = b_ingressName b \<and>
     int (length (ig_Rules ing)) + int (length (b_routes b)) \<le> ic_maxRoutesPerIngress (ing_cfg p))"

lemma patchable_other:
  assumes "patchable p (add_mset ing M) b" "ig_Name ing \<noteq> b_ingressName b"
  shows "patchable p (add_mset ing' M) b"
  using assms by (auto simp: patchable_def)

lemma patchable_mono: "patchable p M b \<Longrightarrow> patchable p (N + M) b"
  by (auto simp: patchable_def)

lemma batch_fits_patchable:
  "batch_fits (ic_maxRoutesPerIngress (ing_cfg p)) ings b \<Longrightarrow> patchable p (mset ings) b"
  by (auto simp: patchable_def batch_fits_def)

lemma apply_batches_effect:
  assumes "cluster_ok p objs w" "apply_batches p certs bs rs w = (Ret out, w')"
    and "distinct (map b_ingressName (filter b_needsPatch bs))"
    and "\<forall>b \<in> set (filter b_needsPatch bs). patchable p (objects p objs w) b"
  shows "cluster_ok p objs w' \<and> out = rs @ concat (map (batch_results p certs) bs) \<and>
    managed_rules p objs w' =
      mset (map mr_rule (covered (filter b_needsPatch bs))) + managed_rules p objs w \<and>
    (within_capacity p objs w \<longrightarrow> within_capacity p objs w')"
  using assms
proof (induction bs arbitrary: w rs)
  case Nil
  then show ?case by simp
next
  case (Cons b bs)
  show ?case
  proof (cases "b_needsPatch b")
    case False
    with Cons.prems have "apply_batches p certs bs (rs @ batch_results p certs b) w = (Ret out, w')" by simp
    from Cons.IH [OF Cons.prems(1) this] Cons.prems(3,4) False show ?thesis by simp
  next
    case True
    let ?ap = "applyJSONPatch p (b_ingressName b)
      (map add_rule (map mr_rule (b_routes b)) @ map add_tls (tls_entries (b_routes b)))"
    from Cons.prems(2) True obtain u v where step: "?ap w = (Ret u, v)"
      and rest: "apply_batches p certs bs (rs @ batch_results p certs b) v = (Ret out, w')"
      by (auto simp: patchAddRules_def elim!: wrapr_RetD)
    from Cons.prems(4) True have "patchable p (objects p objs w) b" by simp
    then obtain ing where ing: "ing \<in># objects p objs w" "ig_Name ing = b_ingressName b" "b_routes b \<noteq> []"
      "int (length (ig_Rules ing)) + int (length (b_routes b)) \<le> ic_maxRoutesPerIngress (ing_cfg p)"
      by (auto simp: patchable_def)
    from ing(3) have "map mr_rule (b_routes b) \<noteq> []" by simp
    from add_rules_effect [OF Cons.prems(1) ing(1) this step [folded ing(2)]]
    obtain ing' M where e: "objects p objs w = add_mset ing M" "objects p objs v = add_mset ing' M"
      "ig_Rules ing' = ig_Rules ing @ map mr_rule (b_routes b)" "cluster_ok p objs v" .
    have "\<forall>c \<in> set (filter b_needsPatch bs). patchable p (objects p objs v) c"
    proof
      fix c assume c: "c \<in> set (filter b_needsPatch bs)"
      then have "b_ingressName c \<noteq> b_ingressName b" using Cons.prems(3) True by (auto simp: image_iff)
      moreover have "patchable p (objects p objs w) c" using Cons.prems(4) True c by simp
      ultimately show "patchable p (objects p objs v) c"
        using patchable_other [of p ing M c ing'] e(1,2) ing(2) by simp
    qed
    from Cons.IH [OF e(4) rest _ this] Cons.prems(3) True
    have ih: "cluster_ok p objs w'" "out = (rs @ batch_results p certs b) @ concat (map (batch_results p certs) bs)"
      "managed_rules p objs w' = mset (map mr_rule (covered (filter b_needsPatch bs))) + managed_rules p objs v"
      "within_capacity p objs v \<longrightarrow> within_capacity p objs w'" by simp_all
    have "managed_rules p objs v = mset (map mr_rule (b_routes b)) + managed_rules p objs w"
      using e(1-3) by (simp add: managed_rules_objects)
    moreover have "fits p ing'" using e(3) ing(4) by (simp add: fits_def)
    then have "within_capacity p objs w \<longrightarrow> within_capacity p objs v"
      using e(1,2) by (simp add: within_capacity_objects)
    ultimately show ?thesis using ih True by (simp add: covered_def)
  qed
qed

section \<open>The whole batch\<close>

lemma ing_BatchProvision_run_returns:
  assumes "0 < ic_maxRoutesPerIngress (ing_cfg p)"
  shows "\<exists>r. ing_BatchProvision_run p routes certs w = Some r"
proof (cases "map_routes (ing_mapper p) routes []")
  case (Inl e)
  then show ?thesis by (simp add: ing_BatchProvision_run_def)
next
  case (Inr mapped)
  obtain x w1 where l: "listManagedIngresses p w = (x, w1)" by (cases "listManagedIngresses p w")
  show ?thesis
  proof (cases x)
    case (Ret listed)
    obtain c bs where "fill_existing (ic_maxRoutesPerIngress (ing_cfg p)) mapped
        (sort_key (\<lambda>i. length (ig_Rules i)) listed) 0 [] = (c, bs)" by (cases "fill_existing
        (ic_maxRoutesPerIngress (ing_cfg p)) mapped (sort_key (\<lambda>i. length (ig_Rules i)) listed) 0 []")
    moreover obtain y w2 where "create_overflow p mapped c (length listed) bs w1 = Some (y, w2)"
      using create_overflow_returns [OF assms] by (metis surj_pair)
    ultimately show ?thesis using Inr l Ret by (cases y) (simp_all add: ing_BatchProvision_run_def)
  qed (use Inr l in \<open>simp_all add: ing_BatchProvision_run_def\<close>)
qed

text \<open>The routes of a batch with their rules, in order.\<close>

lemma map_routes_acc:
  "map_routes m reqs acc = Inr mapped \<Longrightarrow> \<exists>rest. mapped = acc @ rest \<and> map mr_req rest = reqs \<and>
     (\<forall>mr \<in> set rest. im_MapRule m (mr_req mr) = Inr (mr_rule mr) \<and> map_tls_of m (mr_req mr) = Inr (mr_tls mr))"
proof (induction reqs arbitrary: acc)
  case Nil
  then show ?case by simp
next
  case (Cons req reqs)
  from Cons.prems obtain rule tls where r: "im_MapRule m req = Inr rule" "map_tls_of m req = Inr tls"
    "map_routes m reqs (acc @ [\<lparr>mr_req = req, mr_rule = rule, mr_tls = tls\<rparr>]) = Inr mapped"
    by (auto split: sum.splits)
  from Cons.IH [OF r(3)] obtain rest where
    "mapped = (acc @ [\<lparr>mr_req = req, mr_rule = rule, mr_tls = tls\<rparr>]) @ rest" "map mr_req rest = reqs"
    "\<forall>mr \<in> set rest. im_MapRule m (mr_req mr) = Inr (mr_rule mr) \<and> map_tls_of m (mr_req mr) = Inr (mr_tls mr)"
    by blast
  with r(1,2) show ?case
    by (intro exI [of _ "\<lparr>mr_req = req, mr_rule = rule, mr_tls = tls\<rparr> # rest"]) simp
qed

lemma batch_results_covered:
  "map pr_RouteID (concat (map (batch_results p certs) bs)) =
     map (\<lambda>mr. im_RouteID (ing_mapper p) (mr_req mr)) (covered bs)"
  by (induction bs) (simp_all add: covered_def batch_results_def buildProvisionedRoute_def)

end
