(* ===== verification/IngressContract.thy ===== *)
theory IngressContract
  imports IngressPacking
begin

text \<open>
  The effect of a whole batch, the contract \<open>route_provisioner\<close> for the Ingress provisioner
  with a mapper that keeps the contract of the interface, and the properties of the
  provisioner.
\<close>

section \<open>The effect of a batch\<close>

lemma map_routes_spec:
  assumes "map_routes m reqs [] = Inr mapped"
  shows "map mr_req mapped = reqs" "map (im_MapRule m) reqs = map Inr (map mr_rule mapped)"
proof -
  from map_routes_acc [OF assms]
  have m: "map mr_req mapped = reqs" "\<forall>mr \<in> set mapped. im_MapRule m (mr_req mr) = Inr (mr_rule mr)"
    by auto
  then show "map mr_req mapped = reqs" by simp
  have "map (im_MapRule m) (map mr_req mapped) = map Inr (map mr_rule mapped)" using m(2) by simp
  then show "map (im_MapRule m) reqs = map Inr (map mr_rule mapped)" using m(1) by simp
qed

lemma covered_append [simp]: "covered (bs @ cs) = covered bs @ covered cs"
  by (simp add: covered_def)

lemma batch_results_host:
  "map pr_Host (concat (map (batch_results p certs) bs)) = map (\<lambda>mr. rr_Host (mr_req mr)) (covered bs)"
  by (induction bs) (simp_all add: covered_def batch_results_def buildProvisionedRoute_def)

lemma managed_sorted_distinct:
  assumes "cluster_ok p objs w"
  shows "distinct (map ig_Name (sort_key f (managed p objs w)))"
proof -
  have "distinct (map ig_Name (managed p objs w))"
    using cluster_okD(2) [OF assms] by (simp add: managed_def kube_wf_def distinct_map_filter)
  then show ?thesis by (simp add: distinct_map)
qed

lemma ing_BatchProvision_effect:
  assumes ok: "cluster_ok p objs w" and max: "0 < ic_maxRoutesPerIngress (ing_cfg p)"
    and run: "ing_BatchProvision_run p routes certs w = Some (Ret out, w')"
  obtains rules where "map (im_MapRule (ing_mapper p)) routes = map Inr rules"
    "cluster_ok p objs w'" "managed_rules p objs w' = mset rules + managed_rules p objs w"
    "map pr_RouteID out = map (im_RouteID (ing_mapper p)) routes" "map pr_Host out = map rr_Host routes"
    "within_capacity p objs w \<longrightarrow> within_capacity p objs w'"
proof -
  let ?m = "ic_maxRoutesPerIngress (ing_cfg p)"
  let ?ings = "sort_key (\<lambda>i. length (ig_Rules i)) (managed p objs w)"
  from run obtain mapped where mapped: "map_routes (ing_mapper p) routes [] = Inr mapped"
    by (auto simp: ing_BatchProvision_run_def split: sum.splits)
  obtain c bs where fill: "fill_existing ?m mapped ?ings 0 [] = (c, bs)"
    by (cases "fill_existing ?m mapped ?ings 0 []")
  obtain x w2 where over: "create_overflow p mapped c (length (managed p objs w)) bs w = Some (x, w2)"
    using create_overflow_returns [OF max] by (metis surj_pair)
  from run mapped fill over ok obtain bs' where x: "x = Ret bs'"
    and appl: "apply_batches p certs bs' [] w2 = (Ret out, w')"
    by (cases x) (simp_all add: ing_BatchProvision_run_def)
  from fill_existing_new [OF fill managed_sorted_distinct [OF ok]] have bs: "distinct (map b_ingressName bs)"
    "\<forall>b \<in> set bs. batch_fits ?m ?ings b" by auto
  from fill_existing_covers [OF fill] have cov: "c \<le> length mapped" "covered bs = take c mapped"
    by (simp_all add: go_slice_def)
  from create_overflow_effect [OF max ok cov(1) over [unfolded x]]
  obtain N new where N: "cluster_ok p objs w2" "objects p objs w2 = N + objects p objs w"
    "rules_in N = mset (map mr_rule (drop c mapped))" "\<forall>i \<in># N. fits p i" "bs' = bs @ new"
    "\<forall>b \<in> set new. \<not> b_needsPatch b" "covered new = drop c mapped" by blast
  have "filter b_needsPatch bs = bs" using bs(2) by (intro filter_eq_self) (simp add: batch_fits_def)
  moreover have "filter b_needsPatch new = []" using N(6) by (intro filter_eq_Nil) simp
  ultimately have pending: "filter b_needsPatch bs' = bs" using N(5) by simp
  have "mset ?ings = objects p objs w" by (simp add: objects_def)
  then have "\<forall>b \<in> set bs. patchable p (objects p objs w2) b"
    using bs(2) batch_fits_patchable patchable_mono N(2) by metis
  from apply_batches_effect [OF N(1) appl, unfolded pending, OF bs(1) this]
  have a: "cluster_ok p objs w'" "out = concat (map (batch_results p certs) bs')"
    "managed_rules p objs w' = mset (map mr_rule (covered bs)) + managed_rules p objs w2"
    "within_capacity p objs w2 \<longrightarrow> within_capacity p objs w'" by simp_all
  have all: "covered bs' = mapped" using N(5,7) cov(2) by simp
  have ids: "map pr_RouteID out = map (im_RouteID (ing_mapper p)) routes" "map pr_Host out = map rr_Host routes"
    unfolding a(2) batch_results_covered batch_results_host all
    by (simp_all flip: map_routes_spec(1) [OF mapped] add: comp_def)
  have "managed_rules p objs w' =
      mset (map mr_rule (take c mapped)) + mset (map mr_rule (drop c mapped)) + managed_rules p objs w"
    using a(3) N(2,3) cov(2) by (simp add: managed_rules_objects)
  also have "mset (map mr_rule (take c mapped)) + mset (map mr_rule (drop c mapped)) = mset (map mr_rule mapped)"
    by (metis append_take_drop_id map_append mset_append)
  finally have rules: "managed_rules p objs w' = mset (map mr_rule mapped) + managed_rules p objs w" .
  have "within_capacity p objs w \<longrightarrow> within_capacity p objs w2"
    unfolding within_capacity_objects N(2) using N(4) by auto
  with a(4) have cap: "within_capacity p objs w \<longrightarrow> within_capacity p objs w'" by blast
  show ?thesis by (rule that [OF map_routes_spec(2) [OF mapped] a(1) rules ids cap])
qed

section \<open>The contract of a provisioner\<close>

text \<open>The routes of the gateway: the ID and the host of every managed rule.\<close>

definition ing_pairs ::
  "'w IngressProvisioner \<Rightarrow> ('w \<Rightarrow> Ingress list) \<Rightarrow> 'w \<Rightarrow> (string \<times> string) set" where
  "ing_pairs p objs w =
     (\<lambda>r. (im_ExtractRouteID (ing_mapper p) r, ir_Host r)) ` set_mset (managed_rules p objs w)"

definition ing_inv :: "'w IngressProvisioner \<Rightarrow> ('w \<Rightarrow> Ingress list) \<Rightarrow> 'w \<Rightarrow> bool" where
  "ing_inv p objs w \<longleftrightarrow> cluster_ok p objs w \<and> 0 < ic_maxRoutesPerIngress (ing_cfg p)"

lemma list_routes_acc:
  "list_routes p ings acc = acc @ concat (map (\<lambda>ing. map (listed_route p ing) (ig_Rules ing)) ings)"
  by (induction ings arbitrary: acc) simp_all

lemma ing_List_run:
  assumes "cluster_ok p objs w"
  shows "ing_List p w = (Ret (concat (map (\<lambda>ing. map (listed_route p ing) (ig_Rules ing))
    (managed p objs w))), w)"
  by (simp add: ing_List_def listManaged_bind [OF assms] list_routes_acc)

lemma listed_route_simps [simp]:
  "pr_RouteID (listed_route p ing r) = im_ExtractRouteID (ing_mapper p) r"
  "pr_Host (listed_route p ing r) = ir_Host r"
  by (simp_all add: listed_route_def Let_def)

lemma listed_pairs:
  "map (\<lambda>q. (pr_RouteID q, pr_Host q)) (concat (map (\<lambda>ing. map (listed_route p ing) (ig_Rules ing)) ings)) =
     map (\<lambda>r. (im_ExtractRouteID (ing_mapper p) r, ir_Host r)) (concat (map ig_Rules ings))"
  by (induction ings) simp_all

lemma map_Inr_pairs:
  assumes "map f routes = map Inr rules" "\<And>r rule. f r = Inr rule \<Longrightarrow> g rule = h r"
  shows "g ` set rules = h ` set routes"
proof -
  have "map g rules = map h routes"
    using assms by (induction routes arbitrary: rules) (auto simp: Cons_eq_map_conv)
  then show ?thesis by (metis list.set_map)
qed

context ingress_mapper
begin

lemma ingress_list_law:
  assumes "cluster_ok p objs w"
  shows "\<exists>rs. ing_List p w = (Ret rs, w) \<and> (\<lambda>q. (pr_RouteID q, pr_Host q)) ` set rs = ing_pairs p objs w"
proof (intro exI conjI)
  show "ing_List p w = (Ret (concat (map (\<lambda>ing. map (listed_route p ing) (ig_Rules ing)) (managed p objs w))), w)"
    by (rule ing_List_run [OF assms])
  show "(\<lambda>q. (pr_RouteID q, pr_Host q)) ` set (concat (map (\<lambda>ing. map (listed_route p ing) (ig_Rules ing))
      (managed p objs w))) = ing_pairs p objs w"
    using arg_cong [OF listed_pairs [of p "managed p objs w"], of set]
    unfolding list.set_map ing_pairs_def managed_rules_def rules_of_def set_mset_mset .
qed

lemma ingress_batch_provision_law:
  assumes p: "ing_mapper p = m" and i: "ing_inv p objs w"
    and run: "ing_BatchProvision p rs cs w = (Ret out, w')"
  shows "ing_inv p objs w' \<and>
    ing_pairs p objs w' = ing_pairs p objs w \<union> (\<lambda>r. (im_RouteID m r, rr_Host r)) ` set rs"
proof -
  have ok: "cluster_ok p objs w" and max: "0 < ic_maxRoutesPerIngress (ing_cfg p)"
    using i by (simp_all add: ing_inv_def)
  have "ing_BatchProvision_run p rs cs w = Some (Ret out, w')"
    using run by (auto simp: ing_BatchProvision_def split: option.splits)
  from ing_BatchProvision_effect [OF ok max this]
  obtain rules where r: "map (im_MapRule (ing_mapper p)) rs = map Inr rules"
    "cluster_ok p objs w'" "managed_rules p objs w' = mset rules + managed_rules p objs w" .
  have "(\<lambda>r. (im_ExtractRouteID m r, ir_Host r)) ` set rules = (\<lambda>r. (im_RouteID m r, rr_Host r)) ` set rs"
    using r(1) unfolding p by (rule map_Inr_pairs) (simp add: extract_id rule_host)
  with r(2,3) max p show ?thesis by (auto simp: ing_inv_def ing_pairs_def)
qed

lemma ingress_batch_deprovision_law:
  assumes "ing_inv p objs w" "ing_BatchDeprovision p ids w = (Ret (), w')"
  shows "ing_inv p objs w' \<and> ing_pairs p objs w' = {r \<in> ing_pairs p objs w. fst r \<notin> set ids}"
proof -
  have "cluster_ok p objs w" using assms(1) by (simp add: ing_inv_def)
  from ing_BatchDeprovision_effect [OF this assms(2)] assms(1) show ?thesis
    by (auto simp: ing_inv_def ing_pairs_def)
qed

end

definition app_provisioner ::
  "'w kube_api \<Rightarrow> AppIngressMapper \<Rightarrow> ingress_config \<Rightarrow> 'w IngressProvisioner" where
  "app_provisioner api m cfg = \<lparr>ing_api = api, ing_mapper = app_mapper m, ing_cfg = cfg\<rparr>"

lemma app_provisioner_simps [simp]:
  "ing_api (app_provisioner api m cfg) = api" "ing_mapper (app_provisioner api m cfg) = app_mapper m"
  "ing_cfg (app_provisioner api m cfg) = cfg"
  by (simp_all add: app_provisioner_def)

interpretation ing_prov: route_provisioner "ingress_provisioner (app_provisioner api m cfg)" app_RouteID
  "ing_pairs (app_provisioner api m cfg) objs" "ing_inv (app_provisioner api m cfg) objs" "\<lambda>_. True"
  for api m cfg objs
proof
  fix w assume "ing_inv (app_provisioner api m cfg) objs w"
  then have "cluster_ok (app_provisioner api m cfg) objs w" by (simp add: ing_inv_def)
  from app.ingress_list_law [OF this]
  show "\<exists>rs. prov_List (ingress_provisioner (app_provisioner api m cfg)) w = (Ret rs, w) \<and>
      (\<lambda>q. (pr_RouteID q, pr_Host q)) ` set rs = ing_pairs (app_provisioner api m cfg) objs w"
    by (simp add: ingress_provisioner_def)
next
  fix w w' ids
  assume "ing_inv (app_provisioner api m cfg) objs w"
    "prov_BatchDeprovision (ingress_provisioner (app_provisioner api m cfg)) ids w = (Ret (), w')"
  then show "ing_inv (app_provisioner api m cfg) objs w' \<and>
      ing_pairs (app_provisioner api m cfg) objs w' =
        {r \<in> ing_pairs (app_provisioner api m cfg) objs w. fst r \<notin> set ids}"
    using app.ingress_batch_deprovision_law by (simp add: ingress_provisioner_def)
next
  fix w w' rs cs out
  assume "ing_inv (app_provisioner api m cfg) objs w"
    "prov_BatchProvision (ingress_provisioner (app_provisioner api m cfg)) rs cs w = (Ret out, w')"
  then have "ing_inv (app_provisioner api m cfg) objs w"
    "ing_BatchProvision (app_provisioner api m cfg) rs cs w = (Ret out, w')"
    by (simp_all add: ingress_provisioner_def)
  from app.ingress_batch_provision_law [OF app_provisioner_simps(2) this]
  show "ing_inv (app_provisioner api m cfg) objs w' \<and> ing_pairs (app_provisioner api m cfg) objs w' =
      ing_pairs (app_provisioner api m cfg) objs w \<union> (\<lambda>r. (app_RouteID r, rr_Host r)) ` set rs"
    by (simp add: app_mapper_def)
qed

end
