(* ===== verification/IngressProperties.thy ===== *)
theory IngressProperties
  imports IngressContract
begin

text \<open>
  The properties of the Ingress provisioner, each with an instance on the in-memory cluster
  and the mapper of the application.
\<close>

section \<open>The instance of the witnesses\<close>

definition demo_cfg :: ingress_config where
  "demo_cfg = ing_defaultConfig\<lparr>ic_maxRoutesPerIngress := 2\<rparr>"

definition demo :: "Ingress list IngressProvisioner" where
  "demo = app_provisioner mem_api \<lparr>am_SecretNameFunc = DefaultSecretName, am_IngressClassName = '''',
     am_ExtraAnnotations = Map.empty\<rparr> demo_cfg"

definition demo_route :: "string \<Rightarrow> bool \<Rightarrow> RouteRequest" where
  "demo_route h tls = zero_RouteRequest\<lparr>rr_ID := h, rr_Host := h, rr_TLS := tls,
     rr_Backends := [\<lparr>be_ServiceName = ''svc'', be_Port = 80, be_Weight = 1\<rparr>]\<rparr>"

definition demo_rule :: "string \<Rightarrow> IngressRule" where
  "demo_rule h = \<lparr>ir_Host = h, ir_Paths = [\<lparr>ip_Path = ''/'', ip_PathType = ''Prefix'',
     ip_ServiceName = ''svc'', ip_ServicePort = 80\<rparr>]\<rparr>"

definition demo_tls :: "string \<Rightarrow> IngressTLS" where
  "demo_tls h = \<lparr>it_Hosts = [h], it_SecretName = DefaultSecretName h\<rparr>"

lemma demo_simps [simp]:
  "ing_api demo = mem_api" "ing_cfg demo = demo_cfg" "ic_maxRoutesPerIngress demo_cfg = 2"
  "ic_namespace demo_cfg = ''default''"
  "im_RouteID (ing_mapper demo) = app_RouteID" "im_ExtractRouteID (ing_mapper demo) = app_ExtractRouteID"
  "im_IngressName (ing_mapper demo) = app_IngressName"
  "im_MapRule (ing_mapper demo) (demo_route h tls) = Inr (demo_rule h)"
  "map_tls_of (ing_mapper demo) (demo_route h tls) = Inr (if tls then Some (demo_tls h) else None)"
  by (simp_all add: demo_def demo_cfg_def ing_defaultConfig_def app_mapper_def demo_route_def
      app_MapRule.simps demo_rule_def zero_RouteRequest_def to_int32_id map_tls_of_def app_MapTLS_def demo_tls_def)

lemma demo_route_simps [simp]:
  "rr_Host (demo_route h tls) = h" "rr_ID (demo_route h tls) = h"
  "rr_TLS (demo_route h tls) = tls"
  "ir_Host (demo_rule h) = h" "it_Hosts (demo_tls h) = [h]"
  by (simp_all add: demo_route_def demo_rule_def demo_tls_def)

lemma demo_cluster_ok: "cluster_ok demo (\<lambda>os. os) os \<longleftrightarrow> distinct (map ig_Name os)"
  by (simp add: cluster_ok_def mem_kube_ok kube_wf_def)
    (simp add: demo_def demo_cfg_def ing_defaultConfig_def app_mapper_def app_Labels_def)

text \<open>An Ingress of the demo cluster; its rules and TLS entries are for the given hosts.\<close>

definition demo_ing :: "nat \<Rightarrow> string list \<Rightarrow> string list \<Rightarrow> Ingress" where
  "demo_ing i hs ts = new_ingress demo i (map demo_rule hs) (map demo_tls ts)"

lemma demo_ing_simps [simp]:
  "ig_Name (demo_ing i hs ts) = app_IngressName i"
  "ig_Rules (demo_ing i hs ts) = map demo_rule hs" "ig_TLS (demo_ing i hs ts) = map demo_tls ts"
  "selects (labelSelector demo) (demo_ing i hs ts)"
  using cluster_okD(3) [of demo "\<lambda>os. os" "[]"] demo_cluster_ok [of "[]"]
  by (simp_all add: demo_ing_def) (simp_all add: new_ingress_def Let_def)

lemma demo_managed: "managed demo (\<lambda>os. os) [demo_ing i hs ts] = [demo_ing i hs ts]"
  by (simp add: managed_def)

lemma demo_create:
  "ing_Provision demo (demo_route h False) None [] =
     (Ret (Some (buildProvisionedRoute demo (app_RouteID (demo_route h False)) h (app_IngressName 0) None)),
      [demo_ing 0 [h] []])"
  using listManaged_bind [of demo "\<lambda>os. os" "[]"] demo_cluster_ok [of "[]"] demo_ing_simps(1) [of 0 "[h]" "[]"]
  by (simp add: ing_Provision_def ing_place_def managed_def createIngressWithRules_def mem_api_def
      mem_create_def demo_ing_def)

lemma demo_patch:
  "patched ps (demo_ing i hs ts) = Some ing' \<Longrightarrow>
     applyJSONPatch demo (app_IngressName i) ps [demo_ing i hs ts] = (Ret (), [ing'])"
  and demo_patch_refused:
  "patched ps (demo_ing i hs ts) = None \<Longrightarrow>
     applyJSONPatch demo (app_IngressName i) ps [demo_ing i hs ts] =
       (Fail (ErrExt ''invalid''), [demo_ing i hs ts])"
  by (simp_all add: applyJSONPatch_def mem_api_def mem_patch_def)

lemma demo_delete:
  "deleteIngress demo (app_IngressName i) [demo_ing i hs ts] = (Ret (), [])"
  by (simp add: deleteIngress_def mem_api_def mem_delete_def)

lemma demo_createIngress:
  assumes "rules \<noteq> []"
  shows "createIngressWithRules demo i rules ts os =
    (if app_IngressName i \<in> ig_Name ` set os
     then (Fail (ErrWrap ''create ingress'' ErrAlreadyExists), os)
     else (Ret (new_ingress demo i rules ts), os @ [new_ingress demo i rules ts]))"
proof -
  have "ig_Name (new_ingress demo i rules ts) = app_IngressName i" by (simp add: new_ingress_def Let_def)
  with assms show ?thesis by (simp add: createIngressWithRules_def mem_api_def mem_create_def)
qed

lemma demo_batch:
  "ing_BatchProvision_run demo [demo_route ''a'' False, demo_route ''b'' False, demo_route ''c'' False] Map.empty [] =
     Some (Ret [buildProvisionedRoute demo ''routes-a'' ''a'' ''routes-0'' None,
                buildProvisionedRoute demo ''routes-b'' ''b'' ''routes-0'' None,
                buildProvisionedRoute demo ''routes-c'' ''c'' ''routes-1'' None],
           [demo_ing 0 [''a'', ''b''] [], demo_ing 1 [''c''] []])"
proof -
  have names: "app_IngressName 0 = ''routes-0''" "app_IngressName (Suc 0) = ''routes-1''"
    by code_simp+
  have named: "ig_Name (new_ingress demo i rules ts) = app_IngressName i" for i rules ts
    by (simp add: new_ingress_def Let_def)
  have l: "listManagedIngresses demo [] = (Ret [], [])"
    using listManagedIngresses_run [of demo "\<lambda>os. os" "[]"] by (simp add: demo_cluster_ok managed_def)
  show ?thesis
    by (simp add: ing_BatchProvision_run_def l create_overflow.simps demo_createIngress named names
      go_slice_def tls_entries_def map_filter_simps batch_results_def app_RouteID_def demo_ing_def)
qed

section \<open>Properties\<close>

text \<open>
  C3: a batch that succeeds adds exactly the mapped rules of its routes to the managed
  Ingresses, in one Ingress or another, reports one provisioned route per request in the order
  of the requests, and fills no Ingress beyond the configured number of rules.
\<close>

theorem batch_provision_packs:
  assumes "cluster_ok p objs w" and "0 < ic_maxRoutesPerIngress (ing_cfg p)"
    and "ing_BatchProvision_run p routes certs w = Some (Ret out, w')"
  shows "\<exists>rules. map (im_MapRule (ing_mapper p)) routes = map Inr rules \<and>
    managed_rules p objs w' = mset rules + managed_rules p objs w \<and>
    map pr_RouteID out = map (im_RouteID (ing_mapper p)) routes \<and>
    map pr_Host out = map rr_Host routes \<and>
    (within_capacity p objs w \<longrightarrow> within_capacity p objs w')"
  by (rule ing_BatchProvision_effect [OF assms]) blast

theorem batch_provision_packs_witness:
  "managed_rules demo (\<lambda>os. os) [demo_ing 0 [''a'', ''b''] [], demo_ing 1 [''c''] []] =
     {#demo_rule ''a'', demo_rule ''b'', demo_rule ''c''#}"
proof -
  have "cluster_ok demo (\<lambda>os. os) []" by (simp add: demo_cluster_ok)
  moreover have "0 < ic_maxRoutesPerIngress (ing_cfg demo)" by simp
  ultimately have "\<exists>rules.
    map (im_MapRule (ing_mapper demo)) [demo_route ''a'' False, demo_route ''b'' False, demo_route ''c'' False] =
       map Inr rules \<and>
    managed_rules demo (\<lambda>os. os) [demo_ing 0 [''a'', ''b''] [], demo_ing 1 [''c''] []] =
       mset rules + managed_rules demo (\<lambda>os. os) []"
    using batch_provision_packs [OF _ _ demo_batch] by blast
  then show ?thesis by (auto simp: managed_rules_def managed_def Cons_eq_map_conv)
qed

text \<open>
  C26: \<open>BatchProvision\<close> returns whatever the Kubernetes client answers, provided the configured
  number of rules per Ingress is positive.
\<close>

theorem batch_provision_returns:
  assumes "0 < ic_maxRoutesPerIngress (ing_cfg p)"
  shows "\<exists>r. ing_BatchProvision_run p routes certs w = Some r"
  using assms by (rule ing_BatchProvision_run_returns)

theorem batch_provision_returns_witness:
  "\<exists>r. ing_BatchProvision_run demo [demo_route ''a'' True] Map.empty [demo_ing 0 [''b''] []] = Some r"
  by (rule batch_provision_returns) simp

text \<open>
  With a negative number of rules per Ingress, which the option accepts, \<open>BatchProvision\<close>
  panics on any batch that maps to at least one route.
\<close>

lemma batch_provision_negative_capacity:
  assumes "cluster_ok p objs w" and "ic_maxRoutesPerIngress (ing_cfg p) < 0"
    and "map_routes (ing_mapper p) routes [] = Inr mapped" and "routes \<noteq> []"
  shows "ing_BatchProvision_run p routes certs w = Some (Panic ''slice bounds out of range'', w)"
proof -
  have "fill_existing m mapped ings 0 [] = (0, [])" if "m < 0" for m ings
    using that by (induction ings) (simp_all add: Let_def)
  moreover have "mapped \<noteq> []" using map_routes_spec(1) [OF assms(3)] assms(4) by auto
  ultimately show ?thesis using assms(1-3)
    by (simp add: ing_BatchProvision_run_def create_overflow.simps)
qed

lemma batch_provision_negative_capacity_instance:
  "ing_BatchProvision_run (app_provisioner mem_api \<lparr>am_SecretNameFunc = DefaultSecretName,
       am_IngressClassName = '''', am_ExtraAnnotations = Map.empty\<rparr>
       (ing_defaultConfig\<lparr>ic_maxRoutesPerIngress := -1\<rparr>)) [demo_route ''a'' False] Map.empty [] =
     Some (Panic ''slice bounds out of range'', [])"
  by (rule batch_provision_negative_capacity [where objs = "\<lambda>os. os" and
        mapped = "[\<lparr>mr_req = demo_route ''a'' False, mr_rule = demo_rule ''a'', mr_tls = None\<rparr>]"])
    (use demo_simps(8,9) [of "''a''" False] demo_cluster_ok [of "[]"] in
      \<open>simp_all add: cluster_ok_def demo_def demo_cfg_def ing_defaultConfig_def\<close>)

text \<open>
  C15: \<open>Provision\<close> that succeeds leaves exactly one more rule, the mapped one, or replaces one
  rule of the same route ID, and keeps every Ingress within its capacity.
\<close>

theorem provision_effect:
  assumes "cluster_ok p objs w" and "ing_Provision p req cert w = (Ret out, w')"
  shows "\<exists>rule. im_MapRule (ing_mapper p) req = Inr rule \<and>
    rule_put (im_ExtractRouteID (ing_mapper p)) (im_RouteID (ing_mapper p) req) rule
      (managed_rules p objs w) (managed_rules p objs w') \<and>
    (within_capacity p objs w \<and> 0 < ic_maxRoutesPerIngress (ing_cfg p) \<longrightarrow> within_capacity p objs w')"
  by (rule ing_Provision_effect [OF assms]) blast

theorem provision_effect_witness:
  "managed_rules demo (\<lambda>os. os) [demo_ing 0 [''a''] []] = {#demo_rule ''a''#}"
proof -
  have "cluster_ok demo (\<lambda>os. os) []" by (simp add: demo_cluster_ok)
  from provision_effect [OF this demo_create [of "''a''"]]
  show ?thesis by (auto simp: rule_put_def managed_rules_def managed_def)
qed

text \<open>
  C16: \<open>Deprovision\<close> that succeeds removes exactly one rule with the given route ID, when there
  is one, and changes no rule otherwise.
\<close>

theorem deprovision_effect:
  assumes "cluster_ok p objs w" and "ing_Deprovision p i w = (Ret u, w')"
  shows "rule_dropped (im_ExtractRouteID (ing_mapper p)) i (managed_rules p objs w) (managed_rules p objs w') \<and>
    (within_capacity p objs w \<longrightarrow> within_capacity p objs w')"
  using ing_Deprovision_effect [OF assms] by blast

lemma demo_managed_bind:
  "bindr (listManagedIngresses demo) k [demo_ing i hs ts] = k [demo_ing i hs ts] [demo_ing i hs ts]"
  using listManaged_bind [of demo "\<lambda>os. os" "[demo_ing i hs ts]"] demo_cluster_ok by (simp add: demo_managed)

theorem deprovision_effect_witness:
  "managed_rules demo (\<lambda>os. os) [demo_ing 0 [''a''] []] - {#demo_rule ''a''#} =
     managed_rules demo (\<lambda>os. os) []"
proof -
  have "cluster_ok demo (\<lambda>os. os) [demo_ing 0 [''a''] []]" by (simp add: demo_cluster_ok)
  moreover have "ing_Deprovision demo ''routes-a'' [demo_ing 0 [''a''] []] = (Ret (), [])"
    by (simp add: ing_Deprovision_def demo_managed_bind demo_delete app_ExtractRouteID_def)
  ultimately show ?thesis
    using deprovision_effect [of demo "\<lambda>os. os" "[demo_ing 0 [''a''] []]" "''routes-a''" "()" "[]"]
    by (simp add: rule_dropped_def managed_rules_def managed_def app_ExtractRouteID_def)
qed

text \<open>
  C14: \<open>BatchDeprovision\<close> that succeeds removes the rules with one of the given IDs and no other.
  It succeeds if and only if every managed Ingress without TLS loses all of its rules or none:
  the patch of an Ingress that keeps some replaces \<open>/spec/tls\<close>, which must exist.
\<close>

theorem batch_deprovision_exact:
  assumes "cluster_ok p objs w"
  shows "((\<exists>w'. ing_BatchDeprovision p ids w = (Ret (), w')) \<longleftrightarrow>
      (\<forall>ing \<in> set (managed p objs w). \<not> (partly_hit p (set ids) ing \<and> ig_TLS ing = []))) \<and>
    (\<forall>w'. ing_BatchDeprovision p ids w = (Ret (), w') \<longrightarrow>
      managed_rules p objs w' =
        filter_mset (\<lambda>r. im_ExtractRouteID (ing_mapper p) r \<notin> set ids) (managed_rules p objs w))"
  using ing_BatchDeprovision_outcome [OF assms, of ids] ing_BatchDeprovision_effect [OF assms, of ids]
  by (simp add: stuck_def)

theorem batch_deprovision_exact_witness:
  "\<not> (\<exists>w'. ing_BatchDeprovision demo [''routes-a''] [demo_ing 0 [''a'', ''b''] []] = (Ret (), w'))"
proof -
  have "cluster_ok demo (\<lambda>os. os) [demo_ing 0 [''a'', ''b''] []]" by (simp add: demo_cluster_ok)
  from batch_deprovision_exact [OF this, of "[''routes-a'']"] show ?thesis
    by (simp add: demo_managed partly_hit_def app_ExtractRouteID_def)
qed

text \<open>
  The name of a new Ingress is chosen by the number of managed Ingresses. When an Ingress
  of that name exists, which a deletion can bring about, \<open>Provision\<close> of a new route fails
  although nothing else stands against it, and changes nothing.
\<close>

lemma provision_name_taken:
  assumes "cluster_ok p objs w"
    and "im_MapRule (ing_mapper p) req = Inr rule" and "map_tls_of (ing_mapper p) req = Inr tls"
    and "find_route (im_ExtractRouteID (ing_mapper p)) (im_RouteID (ing_mapper p) req) (managed p objs w) = None"
    and "findWithCapacity p (managed p objs w) = None"
    and "im_IngressName (ing_mapper p) (length (managed p objs w)) \<in> kube_names objs w"
  shows "ing_Provision p req cert w = (Fail (ErrWrap ''create ingress'' ErrAlreadyExists), w)"
proof -
  let ?tls = "case tls of None \<Rightarrow> [] | Some t \<Rightarrow> [t]"
  let ?new = "new_ingress p (length (managed p objs w)) [rule] ?tls"
  have "ig_Name ?new \<in> kube_names objs w" using assms(6) by (simp add: new_ingress_def Let_def)
  from kube_Create_exists [OF cluster_okD(1) [OF assms(1)] this]
  have "createIngressWithRules p (length (managed p objs w)) [rule] ?tls w =
      (Fail (ErrWrap ''create ingress'' ErrAlreadyExists), w)"
    by (simp add: createIngressWithRules_def)
  then show ?thesis using assms(2-5)
    by (simp add: ing_Provision_def listManaged_bind [OF assms(1)] ing_place_def Let_def)
qed

lemma provision_name_taken_instance:
  "ing_Provision demo (demo_route ''c'' False) None [demo_ing 1 [''a'', ''b''] []] =
     (Fail (ErrWrap ''create ingress'' ErrAlreadyExists), [demo_ing 1 [''a'', ''b''] []])"
  by (rule provision_name_taken [where objs = "\<lambda>os. os" and rule = "demo_rule ''c''" and tls = None])
    (simp_all add: demo_cluster_ok demo_managed kube_names_def app_ExtractRouteID_def app_RouteID_def)

text \<open>
  The first TLS route that is to be packed into an Ingress without TLS entries is refused:
  the patch appends to \<open>/spec/tls\<close>, an array that does not exist.
\<close>

lemma provision_tls_refused:
  assumes "cluster_ok p objs w"
    and "im_MapRule (ing_mapper p) req = Inr rule" and "map_tls_of (ing_mapper p) req = Inr (Some t)"
    and "find_route (im_ExtractRouteID (ing_mapper p)) (im_RouteID (ing_mapper p) req) (managed p objs w) = None"
    and "findWithCapacity p (managed p objs w) = Some ing" and "ig_TLS ing = []"
  shows "\<exists>e. ing_Provision p req cert w = (Fail (ErrWrap ''patch add rule'' e), w)"
proof -
  have "ing \<in># objects p objs w" using findWithCapacity_Some [OF assms(5)] by (simp add: objects_def)
  moreover have "patched (add_rule rule # [add_tls t]) ing = None"
  proof (cases "ig_Rules ing = []")
    case True
    then show ?thesis using patched_add_no_rules [of ing "[rule]" "[add_tls t]"] by simp
  next
    case False
    then show ?thesis using patched_add [of ing "[rule]" "[t]"] assms(6) by simp
  qed
  ultimately obtain e where "applyJSONPatch p (ig_Name ing) [add_rule rule, add_tls t] w = (Fail e, w)"
    using patch_runs(1) [OF assms(1)] by blast
  then show ?thesis using assms(2-5)
    by (simp add: ing_Provision_def listManaged_bind [OF assms(1)] ing_place_def patchAddRule_def)
qed

lemma provision_tls_refused_instance:
  "\<exists>e. ing_Provision demo (demo_route ''b'' True) None [demo_ing 0 [''a''] []] =
     (Fail (ErrWrap ''patch add rule'' e), [demo_ing 0 [''a''] []])"
  by (rule provision_tls_refused [where objs = "\<lambda>os. os" and rule = "demo_rule ''b''" and t = "demo_tls ''b''"
        and ing = "demo_ing 0 [''a''] []"])
    (simp_all add: demo_cluster_ok demo_managed app_ExtractRouteID_def app_RouteID_def)

end
