(* ===== verification/Convergence.thy ===== *)
theory Convergence
  imports Reconciler Orchestrator LogProvisioner CertIssuers IngressProperties
begin

text \<open>
  The contracts put together: the reconciler's environment is interpreted with the log
  provisioner and with the Ingress provisioner, each with the self-signed issuer, and the
  convergence of a reconciliation cycle is stated for both. A world is a pair of the gateway's
  state and of the rest, which the issuer and the source of routes share.
\<close>

section \<open>The environments\<close>

abbreviation at_gateway :: "'g RouteProvisioner \<Rightarrow> ('g \<times> 's) RouteProvisioner" where
  "at_gateway \<equiv> lift_Provisioner fst put_fst"

abbreviation issuer_beside :: "'s Issuer \<Rightarrow> ('g \<times> 's) Issuer" where
  "issuer_beside \<equiv> lift_Issuer snd put_snd"

abbreviation source_beside :: "'s DesiredStateProvider \<Rightarrow> ('g \<times> 's) DesiredStateProvider" where
  "source_beside \<equiv> lift_Desired snd put_snd"

lemma source_beside_run:
  "des_List des (snd w) = (x, s) \<Longrightarrow> des_List (source_beside des) w = (x, put_snd s w)"
  by (simp add: lift_Desired_def)

interpretation log_cycle: reconcile_env "at_gateway log_provisioner" log_routeID
  "\<lambda>w. log_pairs (fst w)" "\<lambda>w. log_inv (fst w)" "\<lambda>_. True" "issuer_beside (ss_issuer env cfg)"
  "source_beside des" for env cfg des
  by (rule reconcile_env_product [OF log_prov.route_provisioner_axioms ss.nonnil_issuer_axioms])

interpretation ing_cycle: reconcile_env "at_gateway (ingress_provisioner (app_provisioner api m icfg))"
  app_RouteID "\<lambda>w. ing_pairs (app_provisioner api m icfg) objs (fst w)"
  "\<lambda>w. ing_inv (app_provisioner api m icfg) objs (fst w)" "\<lambda>_. True"
  "issuer_beside (ss_issuer env cfg)" "source_beside des" for api m icfg objs env cfg des
  by (rule reconcile_env_product [OF ing_prov.route_provisioner_axioms ss.nonnil_issuer_axioms])

text \<open>The IDs of the routes whose host is not desired.\<close>

definition stale_ids :: "(string \<times> string) set \<Rightarrow> RouteRequest list \<Rightarrow> string set" where
  "stale_ids R ds = fst ` {r \<in> R. snd r \<notin> rr_Host ` set ds}"

lemma stale_ids_diff:
  assumes "(\<lambda>p. (pr_RouteID p, pr_Host p)) ` set as = R"
  shows "set (snd (diff ds as)) = stale_ids R ds"
  unfolding diff_eq stale_ids_def assms [symmetric] by (force simp: image_iff)

section \<open>A cycle over the Ingress provisioner\<close>

lemma ingress_cycle_law:
  fixes w :: "'g \<times> 's" and api :: "'g kube_api" and m :: AppIngressMapper and icfg :: ingress_config
    and iss :: "'s Issuer"
  defines "P \<equiv> app_provisioner api m icfg"
  assumes "cluster_ok P objs (fst w)" and "0 < ic_maxRoutesPerIngress icfg"
    and "des_List des (snd w) = (Ret ds, s1)"
    and "Reconcile (source_beside des) (issuer_beside iss) (at_gateway (ingress_provisioner P)) w = (Ret (), w')"
    and "ids_agree app_RouteID (ing_pairs P objs (fst w)) ds"
    and "\<forall>ing \<in> set (managed P objs (fst w)). \<not> stuck P (stale_ids (ing_pairs P objs (fst w)) ds) ing"
    and "nonnil_issuer iss"
  shows "cluster_ok P objs (fst w') \<and>
    ing_pairs P objs (fst w') = reconciled_routes app_RouteID (ing_pairs P objs (fst w)) ds \<and>
    snd ` ing_pairs P objs (fst w') = rr_Host ` set ds"
proof -
  have inv: "ing_inv P objs (fst w)" using assms(2,3) by (simp add: ing_inv_def P_def)
  have "fst (prov_BatchDeprovision (at_gateway (ingress_provisioner P)) (snd (diff ds as)) v) = Ret ()"
    if as: "prov_List (at_gateway (ingress_provisioner P)) v = (Ret as, v)" and v: "fst v = fst w" for as v
  proof -
    have "on_part fst put_fst (prov_List (ingress_provisioner P)) v = (Ret as, v)"
      using as by (simp only: lift_Provisioner_def RouteProvisioner.simps)
    from on_fst_RetD [OF this] have "prov_List (ingress_provisioner P) (fst w) = (Ret as, fst w)"
      unfolding v by (rule conjunct1)
    moreover obtain rs where "prov_List (ingress_provisioner P) (fst w) = (Ret rs, fst w)"
      "(\<lambda>p. (pr_RouteID p, pr_Host p)) ` set rs = ing_pairs P objs (fst w)"
      using ing_prov.list_law [OF inv [unfolded P_def], folded P_def] by blast
    ultimately have ids: "set (snd (diff ds as)) = stale_ids (ing_pairs P objs (fst w)) ds"
      by (intro stale_ids_diff) simp
    obtain u where "ing_BatchDeprovision P (snd (diff ds as)) (fst v) = (Ret (), u)"
      using ing_BatchDeprovision_outcome [OF assms(2)] assms(7) v unfolding ids [symmetric] by metis
    then show ?thesis by (simp add: lift_Provisioner_def ingress_provisioner_def)
  qed
  then have "ing_inv P objs (fst w') \<and>
      ing_pairs P objs (fst w') = reconciled_routes app_RouteID (ing_pairs P objs (fst w)) ds"
    using reconcile_env.reconcile_converges [OF reconcile_env_product [OF ing_prov.route_provisioner_axioms assms(8)] inv [unfolded P_def] source_beside_run [OF assms(4)]
        assms(5) [unfolded P_def] _ assms(6) [unfolded P_def]]
    unfolding P_def by fastforce
  then show ?thesis using reconciled_routes_hosts by (auto simp: ing_inv_def)
qed

section \<open>Properties\<close>


text \<open>
  C1: with any issuer that never returns a nil certificate without an error, a cycle over the
  Ingress provisioner that returns nil leaves exactly the desired hosts, if no two of the
  route IDs, present or desired, name different hosts, and if no Ingress is \<open>stuck\<close>: has no TLS
  entry, a stale rule and one to keep. The removal fails on a stuck Ingress, \<open>Reconcile\<close> only
  logs that, and stale hosts stay. The API server is healthy and has no other writer.
\<close>

theorem ingress_reconcile_converges:
  fixes w :: "'g \<times> 's" and api :: "'g kube_api" and m :: AppIngressMapper and icfg :: ingress_config
    and iss :: "'s Issuer"
  defines "P \<equiv> app_provisioner api m icfg"
  assumes "cluster_ok P objs (fst w)" and "0 < ic_maxRoutesPerIngress icfg"
    and "des_List des (snd w) = (Ret ds, s1)"
    and "Reconcile (source_beside des) (issuer_beside iss) (at_gateway (ingress_provisioner P)) w = (Ret (), w')"
    and "ids_agree app_RouteID (ing_pairs P objs (fst w)) ds"
    and "\<forall>ing \<in> set (managed P objs (fst w)). \<not> stuck P (stale_ids (ing_pairs P objs (fst w)) ds) ing"
    and "nonnil_issuer iss"
  shows "cluster_ok P objs (fst w') \<and>
    ing_pairs P objs (fst w') = reconciled_routes app_RouteID (ing_pairs P objs (fst w)) ds \<and>
    snd ` ing_pairs P objs (fst w') = rr_Host ` set ds"
  unfolding P_def by (rule ingress_cycle_law [OF assms(2-8) [unfolded P_def]])

text \<open>
  In a cycle whose issuer fails for every route, the routes that need TLS are provisioned
  all the same, without certificates; the cycle reports no error of the issuer.
\<close>

lemma reconcile_provisions_uncertified:
  assumes "des_List des w = (Ret ds, w1)" and "prov_List prov w1 = (Ret as, w1)"
    and "pr_Host ` set as \<subseteq> rr_Host ` set ds" and "\<not> rr_Host ` set ds \<subseteq> pr_Host ` set as"
    and "\<And>r v. \<exists>e. iss_Issue iss r v = (Fail e, v)"
  shows "Reconcile des iss prov w =
    bindr (prov_BatchProvision prov (filter (\<lambda>d. rr_Host d \<notin> pr_Host ` set as) ds) Map.empty) (\<lambda>_. ret ()) w1"
proof -
  have certs: "issue_certs iss rs cs v = (Ret cs, v)" for rs cs v
  proof (induction rs)
    case (Cons r rs)
    obtain e where "iss_Issue iss r v = (Fail e, v)" using assms(5) by blast
    with Cons show ?case by simp
  qed simp
  have none: "filter (\<lambda>a. pr_Host a \<notin> rr_Host ` set ds) as = []"
    using assms(3) by (intro filter_eq_Nil) blast
  then have "remove_stale prov (map pr_RouteID (filter (\<lambda>a. pr_Host a \<notin> rr_Host ` set ds) as)) w1 = (Ret (), w1)"
    by (simp add: remove_stale_def)
  note steps = Reconcile_steps [OF assms(1,2) diff_eq this certs]
  have "filter (\<lambda>d. rr_Host d \<notin> pr_Host ` set as) ds \<noteq> []"
    using assms(4) by (auto simp: filter_empty_conv)
  then show ?thesis using steps by simp
qed

text \<open>
  \<open>handleEvent\<close> of a created or updated TLS route whose issuance fails touches the gateway
  not at all; of a deleted route, it asks for the removal under the route's \<open>ID\<close> field, whatever
  IDs the provisioner uses.
\<close>

lemma handleEvent_gateway_calls:
  "(ev_Type ev \<in> {EventRouteCreated, EventRouteUpdated} \<longrightarrow> rr_TLS (ev_Route ev) \<longrightarrow>
      iss_Issue iss (ev_Route ev) w = (Fail e, w') \<longrightarrow> handleEvent iss prov ev w = (Ret (), w')) \<and>
   (ev_Type ev = EventRouteDeleted \<longrightarrow> handleEvent iss prov ev w =
      attempt (prov_Deprovision prov (rr_ID (ev_Route ev))) (\<lambda>e. ret ()) ret w) \<and>
   (ev_Type ev \<notin> {EventRouteCreated, EventRouteUpdated, EventRouteDeleted} \<longrightarrow>
      handleEvent iss prov ev w = (Ret (), w))"
  by (auto simp: handleEvent_def provisionRoute_def deprovisionRoute_def)

text \<open>
  C40: an issuer that returns a nil certificate with a nil error, as the one of
  \<open>impl/cert-none\<close> does, brings the process down on the first event for a TLS route and on the
  first cycle that has a TLS route to add.
\<close>

theorem none_issuer_panics:
  assumes "rr_TLS r" and "des_List des w = (Ret [r], w1)" and "prov_List prov w1 = (Ret [], w2)"
  shows "handleEvent none_issuer prov \<lparr>ev_Type = EventRouteCreated, ev_Route = r, ev_RawData = d\<rparr> w =
      (Panic ''nil pointer dereference'', w) \<and>
    Reconcile des none_issuer prov w = (Panic ''nil pointer dereference'', w2)"
  using assms by (simp add: handleEvent_def provisionRoute_def Reconcile_def diff_eq remove_stale_def
      none_issuer_def none_Issue_def)

section \<open>Instances\<close>

text \<open>A stand-in for Go's crypto packages and a source with two routes.\<close>

definition demo_env :: "'s crypto_env" where
  "demo_env = \<lparr>cr_GenerateKey = (\<lambda>w. (Inr ''key'', w)), cr_RandInt = (\<lambda>n w. (Inr 7, w)), cr_Now = (\<lambda>_. 0),
     cr_CreateCertificate = (\<lambda>t k w. (Inr ''der'', w)), cr_MarshalECPrivateKey = (\<lambda>k w. (Inr ''k'', w)),
     cr_PemEncode = (\<lambda>b d. d)\<rparr>"

definition demo_source :: "bool \<Rightarrow> unit DesiredStateProvider" where
  "demo_source tls = \<lparr>des_List = ret [demo_route ''a'' tls, demo_route ''b'' False], des_Name = ''demo''\<rparr>"

definition demo_cert :: "string \<Rightarrow> Certificate" where
  "demo_cert h = \<lparr>crt_Host = h, crt_CertPEM = ''der'', crt_KeyPEM = ''k'', crt_CACertPEM = '''', crt_NotBefore = 0,
     crt_NotAfter = ss_validity ss_defaultConfig, crt_IssuerName = ''self-signed''\<rparr>"

lemma demo_issue: "ss_Issue demo_env ss_defaultConfig (demo_route h tls) () = (Ret (Some (demo_cert h)), ())"
  by (simp add: ss_Issue_def ss_finish_def demo_env_def demo_cert_def)

definition demo_log :: LogProvisioner where
  "demo_log = \<lparr>lp_routes = [(''a'', log_route (demo_route ''a'' True) (Some (demo_cert ''a''))),
     (''b'', log_route (demo_route ''b'' False) None)]\<rparr>"

lemma demo_log_cycle:
  "Reconcile (source_beside (demo_source True)) (issuer_beside (ss_issuer demo_env ss_defaultConfig))
     (at_gateway log_provisioner) (log_New, ()) = (Ret (), (demo_log, ()))"
  by (simp add: Reconcile_def diff_eq remove_stale_def lift_Desired_def lift_Issuer_def lift_Provisioner_def
      demo_source_def ss_issuer_def demo_issue log_provisioner_def log_List_def log_New_def
      log_BatchProvision_def log_Provision_def log_routeID_def demo_log_def Let_def log_route_def)


lemma demo_ing_cycle:
  "Reconcile (source_beside (demo_source False)) (issuer_beside (ss_issuer demo_env ss_defaultConfig))
     (at_gateway (ingress_provisioner demo)) ([], ()) = (Ret (), ([demo_ing 0 [''a'', ''b''] []], ()))"
proof -
  have l: "listManagedIngresses demo [] = (Ret [], [])"
    using listManagedIngresses_run [of demo "\<lambda>os. os" "[]"] by (simp add: demo_cluster_ok managed_def)
  have "ing_BatchProvision demo [demo_route ''a'' False, demo_route ''b'' False] Map.empty [] =
      (Ret (batch_results demo Map.empty \<lparr>b_ingressName = app_IngressName 0,
         b_routes = [\<lparr>mr_req = demo_route ''a'' False, mr_rule = demo_rule ''a'', mr_tls = None\<rparr>,
           \<lparr>mr_req = demo_route ''b'' False, mr_rule = demo_rule ''b'', mr_tls = None\<rparr>],
         b_needsPatch = False\<rparr>), [demo_ing 0 [''a'', ''b''] []])"
    using demo_ing_simps(1) [of 0 "[''a'', ''b'']" "[]"]
    by (simp add: ing_BatchProvision_def ing_BatchProvision_run_def l create_overflow.simps demo_createIngress
      go_slice_def tls_entries_def map_filter_simps demo_ing_def)
  moreover have "ing_List demo [] = (Ret [], [])" by (simp add: ing_List_def l)
  ultimately show ?thesis
    by (simp add: Reconcile_def diff_eq remove_stale_def lift_Desired_def lift_Provisioner_def
        demo_source_def ingress_provisioner_def)
qed

theorem ingress_reconcile_converges_witness:
  "snd ` ing_pairs demo (\<lambda>os. os) [demo_ing 0 [''a'', ''b''] []] = {''a'', ''b''}"
proof -
  have pairs: "ing_pairs demo (\<lambda>os. os) [] = {}" by (simp add: ing_pairs_def managed_rules_def managed_def)
  have ok: "cluster_ok demo (\<lambda>os. os) (fst ([], ()))" by (simp add: demo_cluster_ok)
  have cap: "0 < ic_maxRoutesPerIngress demo_cfg" by simp
  have src: "des_List (demo_source False) (snd ([], ())) = (Ret [demo_route ''a'' False, demo_route ''b'' False], ())"
    by (simp add: demo_source_def)
  have ids: "ids_agree app_RouteID (ing_pairs demo (\<lambda>os. os) (fst ([], ())))
      [demo_route ''a'' False, demo_route ''b'' False]"
    by (simp add: ids_agree_def pairs consistent_ids_def app_RouteID_def)
  have "snd ` ing_pairs demo (\<lambda>os. os) (fst ([demo_ing 0 [''a'', ''b''] []], ())) =
      rr_Host ` set [demo_route ''a'' False, demo_route ''b'' False]"
    using ingress_reconcile_converges [OF ok [unfolded demo_def] cap src demo_ing_cycle [unfolded demo_def]
        ids [unfolded demo_def] _ ss.nonnil_issuer_axioms, folded demo_def]
    unfolding managed_def fst_conv filter.simps list.set ball_simps simp_thms by blast
  then show ?thesis by simp
qed

lemma reconcile_provisions_uncertified_instance:
  "Reconcile (lift_Desired (\<lambda>_. ()) (\<lambda>_ w. w) (demo_source True))
     \<lparr>iss_Issue = (\<lambda>r. fail ErrCtx), iss_Revoke = (\<lambda>c. ret ()), iss_Name = ''down''\<rparr> log_provisioner log_New =
   (Ret (), \<lparr>lp_routes = [(''a'', log_route (demo_route ''a'' True) None), (''b'', log_route (demo_route ''b'' False) None)]\<rparr>)"
  by (subst reconcile_provisions_uncertified
        [where ds = "[demo_route ''a'' True, demo_route ''b'' False]" and ?w1.0 = log_New and as = "[]"])
    (simp_all add: lift_Desired_def demo_source_def log_provisioner_def log_List_def log_New_def
      log_BatchProvision_def log_Provision_def log_routeID_def Let_def log_route_def)

lemma handleEvent_gateway_calls_instance:
  "handleEvent none_issuer log_provisioner
     \<lparr>ev_Type = EventRouteDeleted, ev_Route = demo_route ''a'' True, ev_RawData = ''''\<rparr> demo_log =
   (Ret (), \<lparr>lp_routes = [(''b'', log_route (demo_route ''b'' False) None)]\<rparr>)"
  using handleEvent_gateway_calls [of "\<lparr>ev_Type = EventRouteDeleted, ev_Route = demo_route ''a'' True, ev_RawData = ''''\<rparr>"
      none_issuer demo_log ErrCtx demo_log log_provisioner]
  by (simp add: log_provisioner_def log_Deprovision_def demo_log_def)

theorem none_issuer_panics_witness:
  "handleEvent none_issuer log_provisioner
     \<lparr>ev_Type = EventRouteCreated, ev_Route = demo_route ''a'' True, ev_RawData = ''''\<rparr> log_New =
   (Panic ''nil pointer dereference'', log_New)"
  using none_issuer_panics [of "demo_route ''a'' True" "\<lparr>des_List = ret [demo_route ''a'' True], des_Name = ''d''\<rparr>"
      log_New log_New log_provisioner log_New "''''"]
  by (simp add: log_provisioner_def log_List_def log_New_def)

end
