(* ===== verification/SourceHttp.thy ===== *)
theory SourceHttp
  imports Core "HOL-Library.AList" "HOL-Library.Multiset"
begin

text \<open>
  \<open>impl/source-http/source.go\<close> and \<open>swagger.go\<close>: the HTTP source, which is a trigger and a desired state at
  once. First its fields and the critical sections of its handlers, then the handlers and the
  calls of \<open>Start\<close> as a step relation, since they run concurrently and share the field
  \<open>eventC\<close>. The Go map \<open>routes\<close> is an association list with distinct keys, whose order stands
  for one iteration order. The JSON decoder is a parameter: a request carries its result.
\<close>

section \<open>State and handlers\<close>

text \<open>\<open>hs_eventC\<close> is the number of the channel made by a call of \<open>Start\<close>, or nil.\<close>

record HTTPSource =
  hs_routes :: "(string \<times> RouteRequest) list"
  hs_events :: "RouteEvent list"
  hs_eventC :: "nat option"

definition hs_New :: HTTPSource where
  "hs_New = \<lparr>hs_routes = [], hs_events = [], hs_eventC = None\<rparr>"

definition hs_Name :: string where
  "hs_Name = ''http-source''"

text \<open>The critical section of \<open>handlePostEvent\<close>, which also reads the channel.\<close>

definition sync_route :: "RouteEvent \<Rightarrow> (string \<times> RouteRequest) list \<Rightarrow> (string \<times> RouteRequest) list" where
  "sync_route ev routes =
     (let host = rr_Host (ev_Route ev) in
      if ev_Type ev = EventRouteCreated \<or> ev_Type ev = EventRouteUpdated
      then (if host \<noteq> '''' then AList.update host (ev_Route ev) routes else routes)
      else if ev_Type ev = EventRouteDeleted then AList.delete host routes
      else routes)"

definition record_event :: "RouteEvent \<Rightarrow> HTTPSource \<Rightarrow> HTTPSource" where
  "record_event ev s = s\<lparr>hs_events := hs_events s @ [ev], hs_routes := sync_route ev (hs_routes s)\<rparr>"

text \<open>The requests other than \<open>POST /events\<close>, and what is written to the client.\<close>

datatype hs_request =
    GetEvents
  | PostRoute "gerror + RouteRequest"
  | DeleteRoute string
  | GetRoutes
  | GetOpenAPI
  | GetSwagger

datatype hs_body =
    NoBody | ErrorText | OneEvent RouteEvent | EventList "RouteEvent list" | OneRoute RouteRequest | RouteList "RouteRequest list"
  | OpenAPISpec | Html string

text \<open>
  \<open>handlePostEvent\<close> up to the unlocking: the reply, and the channel that it has read with the
  event it is about to send. The reply does not depend on whether the send succeeds.
\<close>

definition handlePostEvent ::
  "gerror + RouteEvent \<Rightarrow> HTTPSource \<Rightarrow> (int \<times> hs_body) \<times> HTTPSource \<times> (nat option \<times> RouteEvent) list" where
  "handlePostEvent body s =
     (case body of
        Inl e \<Rightarrow> ((400, ErrorText), s, [])
      | Inr ev \<Rightarrow> ((202, OneEvent ev), record_event ev s, [(hs_eventC s, ev)]))"

definition handleGetEvents :: "HTTPSource \<Rightarrow> (int \<times> hs_body) \<times> HTTPSource" where
  "handleGetEvents s = ((200, EventList (hs_events s)), s)"

definition handlePostRoute :: "gerror + RouteRequest \<Rightarrow> HTTPSource \<Rightarrow> (int \<times> hs_body) \<times> HTTPSource" where
  "handlePostRoute body s =
     (case body of
        Inl e \<Rightarrow> ((400, ErrorText), s)
      | Inr route \<Rightarrow>
          if rr_Host route = '''' then ((400, ErrorText), s)
          else ((201, OneRoute route), s\<lparr>hs_routes := AList.update (rr_Host route) route (hs_routes s)\<rparr>))"

definition handleDeleteRoute :: "string \<Rightarrow> HTTPSource \<Rightarrow> (int \<times> hs_body) \<times> HTTPSource" where
  "handleDeleteRoute host s =
     (if host = '''' then ((400, ErrorText), s)
      else
        let existed = map_of (hs_routes s) host \<noteq> None; s' = s\<lparr>hs_routes := AList.delete host (hs_routes s)\<rparr> in
        if \<not> existed then ((404, ErrorText), s') else ((204, NoBody), s'))"

definition handleGetRoutes :: "HTTPSource \<Rightarrow> (int \<times> hs_body) \<times> HTTPSource" where
  "handleGetRoutes s = ((200, RouteList (map snd (hs_routes s))), s)"

text \<open>
  \<open>swagger.go\<close>: the page of the documentation, and the embedded file \<open>openapi.json\<close>, which the
  page loads.
\<close>

definition newline :: string where
  "newline = [CHR 0x0A]"

definition swaggerHTML :: string where
  \<open>swaggerHTML = concat (map (\<lambda>line. line @ newline)
    [''<!DOCTYPE html>'',
     ''<html lang="en">'',
     ''<head>'',
     ''  <meta charset="UTF-8">'',
     ''  <title>HTTP Source '' @ [CHR 0xE2, CHR 0x80, CHR 0x94] @ '' Swagger UI</title>'',
     ''  <link rel="stylesheet" href="https://unpkg.com/swagger-ui-dist@5/swagger-ui.css">'',
     ''  <style>'',
     ''    html { box-sizing: border-box; overflow-y: scroll; }'',
     ''    *, *:before, *:after { box-sizing: inherit; }'',
     ''    body { margin: 0; background: #fafafa; }'',
     ''  </style>'',
     ''</head>'',
     ''<body>'',
     ''  <div id="swagger-ui"></div>'',
     ''  <script src="https://unpkg.com/swagger-ui-dist@5/swagger-ui-bundle.js"></script>'',
     ''  <script>'',
     ''    SwaggerUIBundle({'',
     ''      url: window.location.origin + "/openapi.json",'',
     ''      dom_id: '' @ [CHR 0x27] @ ''#swagger-ui'' @ [CHR 0x27] @ '','',
     ''      presets: ['',
     ''        SwaggerUIBundle.presets.apis,'',
     ''        SwaggerUIBundle.SwaggerUIStandalonePreset'',
     ''      ],'',
     ''      layout: "BaseLayout",'',
     ''      deepLinking: true,'',
     ''      tryItOutEnabled: true,'',
     ''    });'',
     ''  </script>'',
     ''</body>'']) @ ''</html>''\<close>

definition handleOpenAPISpec :: "HTTPSource \<Rightarrow> (int \<times> hs_body) \<times> HTTPSource" where
  "handleOpenAPISpec s = ((200, OpenAPISpec), s)"

definition handleSwaggerUI :: "HTTPSource \<Rightarrow> (int \<times> hs_body) \<times> HTTPSource" where
  "handleSwaggerUI s = ((200, Html swaggerHTML), s)"

text \<open>
  The headers that a handler sets itself. The replies of \<open>POST /events\<close> and \<open>POST /routes\<close> are JSON
  as well, but are not declared as such.
\<close>

fun hs_headers :: "hs_request \<Rightarrow> (string \<times> string) list" where
  "hs_headers GetEvents = [(''Content-Type'', ''application/json'')]"
| "hs_headers GetRoutes = [(''Content-Type'', ''application/json'')]"
| "hs_headers GetOpenAPI = [(''Content-Type'', ''application/json''), (''Access-Control-Allow-Origin'', ''*'')]"
| "hs_headers GetSwagger = [(''Content-Type'', ''text/html; charset=utf-8'')]"
| "hs_headers (PostRoute body) = []"
| "hs_headers (DeleteRoute host) = []"

fun hs_serve :: "hs_request \<Rightarrow> HTTPSource \<Rightarrow> (int \<times> hs_body) \<times> HTTPSource" where
  "hs_serve GetEvents s = handleGetEvents s"
| "hs_serve (PostRoute body) s = handlePostRoute body s"
| "hs_serve (DeleteRoute host) s = handleDeleteRoute host s"
| "hs_serve GetRoutes s = handleGetRoutes s"
| "hs_serve GetOpenAPI s = handleOpenAPISpec s"
| "hs_serve GetSwagger s = handleSwaggerUI s"

definition hs_List :: "(HTTPSource, RouteRequest list) act" where
  "hs_List s = (Ret (map snd (hs_routes s)), s)"

definition http_desired :: "HTTPSource DesiredStateProvider" where
  "http_desired = \<lparr>des_List = hs_List, des_Name = hs_Name\<rparr>"

section \<open>Handlers and calls of \<open>Start\<close> together\<close>

text \<open>
  The program counter of a call of \<open>Start\<close>: \<open>StNew\<close> before it makes its channel; \<open>StLoop\<close> the
  head of the loop; \<open>StSelect c\<close> blocked in the outer \<open>select\<close> on the channel \<open>c\<close> that it read
  from the field (a nil channel never delivers); \<open>StHold ev\<close> in the inner one; \<open>StEnd\<close> before the
  deferred function; \<open>StDone\<close> returned. \<open>hy_posts\<close> are the handlers of \<open>POST /events\<close> between
  the unlocking of the mutex and the send. \<open>hy_out\<close> are the events taken by the channel of the
  given call, \<open>hy_dropped\<close> those the handler logged as dropped, \<open>hy_unsent\<close> those for which it
  saw no channel, \<open>hy_lost\<close> those a cancelled call of \<open>Start\<close> held.
\<close>

datatype start_pc = StNew | StLoop | StSelect "nat option" | StHold RouteEvent | StEnd | StDone

record hs_sys =
  hy_src :: HTTPSource
  hy_chans :: "nat \<Rightarrow> RouteEvent list"
  hy_made :: nat
  hy_pc :: "nat \<Rightarrow> start_pc"
  hy_ctx :: "nat \<Rightarrow> bool"
  hy_posts :: "(nat option \<times> RouteEvent) list"
  hy_out :: "(nat \<times> RouteEvent) list"
  hy_dropped :: "RouteEvent list"
  hy_unsent :: "RouteEvent list"
  hy_lost :: "RouteEvent list"

definition hy_init :: hs_sys where
  "hy_init = \<lparr>hy_src = hs_New, hy_chans = (\<lambda>_. []), hy_made = 0, hy_pc = (\<lambda>_. StNew), hy_ctx = (\<lambda>_. False),
     hy_posts = [], hy_out = [], hy_dropped = [], hy_unsent = [], hy_lost = []\<rparr>"

definition set_pc :: "hs_sys \<Rightarrow> nat \<Rightarrow> start_pc \<Rightarrow> hs_sys" where
  "set_pc s t pc = s\<lparr>hy_pc := (hy_pc s)(t := pc)\<rparr>"

definition set_eventC :: "hs_sys \<Rightarrow> nat option \<Rightarrow> hs_sys" where
  "set_eventC s c = s\<lparr>hy_src := (hy_src s)\<lparr>hs_eventC := c\<rparr>\<rparr>"

definition buffer_size :: nat where
  "buffer_size = 64"

inductive hs_step :: "nat \<Rightarrow> hs_sys \<Rightarrow> hs_sys \<Rightarrow> bool" for T :: nat where
  start_make: "t < T \<Longrightarrow> hy_pc s t = StNew \<Longrightarrow>
    hs_step T s ((set_eventC (set_pc s t StLoop) (Some (hy_made s)))
      \<lparr>hy_chans := (hy_chans s)(hy_made s := []), hy_made := Suc (hy_made s)\<rparr>)"
| loop_read: "t < T \<Longrightarrow> hy_pc s t = StLoop \<Longrightarrow> hs_step T s (set_pc s t (StSelect (hs_eventC (hy_src s))))"
| select_ctx: "t < T \<Longrightarrow> hy_pc s t = StSelect c \<Longrightarrow> hy_ctx s t \<Longrightarrow> hs_step T s (set_pc s t StEnd)"
| select_event: "t < T \<Longrightarrow> hy_pc s t = StSelect (Some n) \<Longrightarrow> hy_chans s n = ev # evs \<Longrightarrow>
    hs_step T s ((set_pc s t (StHold ev))\<lparr>hy_chans := (hy_chans s)(n := evs)\<rparr>)"
| hold_taken: "t < T \<Longrightarrow> hy_pc s t = StHold ev \<Longrightarrow>
    hs_step T s ((set_pc s t StLoop)\<lparr>hy_out := hy_out s @ [(t, ev)]\<rparr>)"
| hold_ctx: "t < T \<Longrightarrow> hy_pc s t = StHold ev \<Longrightarrow> hy_ctx s t \<Longrightarrow>
    hs_step T s ((set_pc s t StEnd)\<lparr>hy_lost := hy_lost s @ [ev]\<rparr>)"
| deferred: "t < T \<Longrightarrow> hy_pc s t = StEnd \<Longrightarrow> hs_step T s (set_eventC (set_pc s t StDone) None)"
| ctx_done: "hs_step T s (s\<lparr>hy_ctx := (hy_ctx s)(t := True)\<rparr>)"
| post_event: "handlePostEvent body (hy_src s) = (resp, src, sends) \<Longrightarrow>
    hs_step T s (s\<lparr>hy_src := src, hy_posts := hy_posts s @ sends\<rparr>)"
| post_send: "hy_posts s = ps @ (Some n, ev) # qs \<Longrightarrow> length (hy_chans s n) < buffer_size \<Longrightarrow>
    hs_step T s (s\<lparr>hy_posts := ps @ qs, hy_chans := (hy_chans s)(n := hy_chans s n @ [ev])\<rparr>)"
| post_drop: "hy_posts s = ps @ (Some n, ev) # qs \<Longrightarrow> \<not> length (hy_chans s n) < buffer_size \<Longrightarrow>
    hs_step T s (s\<lparr>hy_posts := ps @ qs, hy_dropped := hy_dropped s @ [ev]\<rparr>)"
| post_nil: "hy_posts s = ps @ (None, ev) # qs \<Longrightarrow>
    hs_step T s (s\<lparr>hy_posts := ps @ qs, hy_unsent := hy_unsent s @ [ev]\<rparr>)"
| other_request: "hs_serve r (hy_src s) = (resp, src) \<Longrightarrow> hs_step T s (s\<lparr>hy_src := src\<rparr>)"

text \<open>\<open>hs_run T s s'\<close>: from \<open>s\<close> the system with at most \<open>T\<close> calls of \<open>Start\<close> can get to \<open>s'\<close>.\<close>

inductive hs_run :: "nat \<Rightarrow> hs_sys \<Rightarrow> hs_sys \<Rightarrow> bool" for T :: nat where
  run_refl: "hs_run T s s"
| run_step: "hs_run T s s' \<Longrightarrow> hs_step T s' s'' \<Longrightarrow> hs_run T s s''"

section \<open>The routes\<close>

text \<open>Every route is stored under its own host, which is not empty, and once.\<close>

definition routes_keyed :: "HTTPSource \<Rightarrow> bool" where
  "routes_keyed s \<longleftrightarrow> distinct (map fst (hs_routes s)) \<and>
     (\<forall>h r. map_of (hs_routes s) h = Some r \<longrightarrow> rr_Host r = h \<and> h \<noteq> '''')"

lemma routes_keyed_New [simp]: "routes_keyed hs_New"
  by (simp add: routes_keyed_def hs_New_def)

lemma routes_keyed_update:
  assumes "routes_keyed s" "rr_Host r \<noteq> ''''"
  shows "routes_keyed (s\<lparr>hs_routes := AList.update (rr_Host r) r (hs_routes s)\<rparr>)"
  using assms by (auto simp: routes_keyed_def distinct_update update_conv')

lemma routes_keyed_delete:
  "routes_keyed s \<Longrightarrow> routes_keyed (s\<lparr>hs_routes := AList.delete h (hs_routes s)\<rparr>)"
  by (auto simp: routes_keyed_def distinct_delete delete_conv')

lemma routes_keyed_cong: "hs_routes s = hs_routes s' \<Longrightarrow> routes_keyed s = routes_keyed s'"
  by (simp add: routes_keyed_def)

lemma routes_keyed_sync:
  assumes "routes_keyed s"
  shows "routes_keyed (s\<lparr>hs_routes := sync_route ev (hs_routes s)\<rparr>)"
proof -
  have "routes_keyed (s\<lparr>hs_routes := hs_routes s\<rparr>)" using assms by simp
  then show ?thesis
    using routes_keyed_update [OF assms] routes_keyed_delete [OF assms] by (simp add: sync_route_def Let_def)
qed

lemma routes_keyed_record: "routes_keyed s \<Longrightarrow> routes_keyed (record_event ev s)"
  using routes_keyed_sync [of s ev] by (simp add: record_event_def routes_keyed_def)

lemma routes_keyed_serve: "routes_keyed s \<Longrightarrow> hs_serve r s = (resp, s') \<Longrightarrow> routes_keyed s'"
  by (cases r) (auto simp: handleOpenAPISpec_def handleSwaggerUI_def handleGetEvents_def handlePostRoute_def handleDeleteRoute_def handleGetRoutes_def Let_def
      intro: routes_keyed_update routes_keyed_delete split: sum.splits if_splits)

lemma serve_keeps: "hs_serve r s = (resp, s') \<Longrightarrow> hs_events s' = hs_events s \<and> hs_eventC s' = hs_eventC s"
  by (cases r) (auto simp: handleOpenAPISpec_def handleSwaggerUI_def handleGetEvents_def handlePostRoute_def handleDeleteRoute_def handleGetRoutes_def Let_def
      split: sum.splits if_splits)

section \<open>Where the events are\<close>

fun held :: "start_pc \<Rightarrow> RouteEvent multiset" where
  "held (StHold ev) = {#ev#}"
| "held _ = {#}"

text \<open>The events on their way: buffered, held by a call of \<open>Start\<close>, or about to be sent.\<close>

definition in_flight :: "nat \<Rightarrow> hs_sys \<Rightarrow> RouteEvent multiset" where
  "in_flight T s = (\<Sum>n<hy_made s. mset (hy_chans s n)) + (\<Sum>t<T. held (hy_pc s t)) + mset (map snd (hy_posts s))"

text \<open>The events whose way has ended.\<close>

definition settled :: "hs_sys \<Rightarrow> RouteEvent multiset" where
  "settled s = mset (map snd (hy_out s)) + mset (hy_dropped s) + mset (hy_unsent s) + mset (hy_lost s)"

fun pc_chan :: "start_pc \<Rightarrow> nat option" where
  "pc_chan (StSelect c) = c"
| "pc_chan _ = None"

text \<open>Every channel in use has been made, and no buffer exceeds its capacity.\<close>

definition chans_ok :: "nat \<Rightarrow> hs_sys \<Rightarrow> bool" where
  "chans_ok T s \<longleftrightarrow>
     (\<forall>n. hs_eventC (hy_src s) = Some n \<longrightarrow> n < hy_made s) \<and>
     (\<forall>n ev. (Some n, ev) \<in> set (hy_posts s) \<longrightarrow> n < hy_made s) \<and>
     (\<forall>t n. pc_chan (hy_pc s t) = Some n \<longrightarrow> n < hy_made s) \<and>
     (\<forall>n. length (hy_chans s n) \<le> buffer_size)"

definition hs_inv :: "nat \<Rightarrow> hs_sys \<Rightarrow> bool" where
  "hs_inv T s \<longleftrightarrow> chans_ok T s \<and> routes_keyed (hy_src s) \<and>
     mset (hs_events (hy_src s)) = in_flight T s + settled s"

lemma sum_update:
  fixes g :: "'a \<Rightarrow> 'b multiset" and k :: nat
  assumes "i < k"
  shows "(\<Sum>j<k. g ((f(i := x)) j)) + g (f i) = (\<Sum>j<k. g (f j)) + g x"
proof -
  have i: "i \<in> {..<k}" using assms by simp
  have "(\<Sum>j\<in>{..<k} - {i}. g ((f(i := x)) j)) = (\<Sum>j\<in>{..<k} - {i}. g (f j))"
    by (rule sum.cong) simp_all
  then show ?thesis
    unfolding sum.remove [OF finite_lessThan i, of "\<lambda>j. g ((f(i := x)) j)"] sum.remove [OF finite_lessThan i, of "\<lambda>j. g (f j)"]
    by (simp add: ac_simps)
qed

lemma sum_outside: "(k :: nat) \<le> i \<Longrightarrow> (\<Sum>j<k. g ((f(i := x)) j)) = (\<Sum>j<k. g (f j))"
  by (rule sum.cong) auto

text \<open>A change of the program counter between places that hold nothing.\<close>

lemma held_set_pc:
  assumes "t < T"
  shows "(\<Sum>i<T. held (((hy_pc s)(t := pc)) i)) + held (hy_pc s t) = (\<Sum>i<T. held (hy_pc s i)) + held pc"
  using assms by (rule sum_update)

lemma held_set_pc_empty:
  "t < T \<Longrightarrow> held (hy_pc s t) = {#} \<Longrightarrow> held pc = {#} \<Longrightarrow>
     (\<Sum>i<T. held (((hy_pc s)(t := pc)) i)) = (\<Sum>i<T. held (hy_pc s i))"
  using held_set_pc [of t T s pc] by simp

lemma hs_inv_init: "hs_inv T hy_init"
  by (simp add: hs_inv_def chans_ok_def hy_init_def hs_New_def in_flight_def settled_def routes_keyed_def)

lemmas hs_defs = set_pc_def set_eventC_def in_flight_def settled_def

lemma chans_ok_step: "hs_step T s s' \<Longrightarrow> chans_ok T s \<Longrightarrow> chans_ok T s'"
proof (induction rule: hs_step.induct)
  case (select_event t s n ev evs)
  then have "\<forall>m. length (hy_chans s m) \<le> buffer_size" unfolding chans_ok_def by blast
  then have "length (ev # evs) \<le> buffer_size" using select_event(3) by metis
  with select_event show ?case by (auto simp: chans_ok_def set_pc_def)
next
  case (post_event body s resp src sends)
  then show ?case by (auto simp: chans_ok_def handlePostEvent_def record_event_def split: sum.splits)
next
  case (other_request r s resp src)
  then show ?case using serve_keeps [OF other_request(1)] by (auto simp: chans_ok_def)
qed (auto simp: chans_ok_def set_pc_def set_eventC_def less_Suc_eq)

lemma routes_keyed_step: "hs_step T s s' \<Longrightarrow> routes_keyed (hy_src s) \<Longrightarrow> routes_keyed (hy_src s')"
proof (induction rule: hs_step.induct)
  case (post_event body s resp src sends)
  then show ?case by (auto simp: handlePostEvent_def intro: routes_keyed_record split: sum.splits)
next
  case (other_request r s resp src)
  then show ?case using routes_keyed_serve by auto
qed (simp_all add: set_pc_def set_eventC_def routes_keyed_def)

text \<open>The events recorded, on their way and settled stay in balance.\<close>

definition balanced :: "nat \<Rightarrow> hs_sys \<Rightarrow> bool" where
  "balanced T s \<longleftrightarrow> mset (hs_events (hy_src s)) = in_flight T s + settled s"

lemma balanced_move:
  "balanced T s \<Longrightarrow> hs_events (hy_src s') = hs_events (hy_src s) \<Longrightarrow>
     in_flight T s' + settled s' = in_flight T s + settled s \<Longrightarrow> balanced T s'"
  by (simp add: balanced_def)

lemma balanced_step: "hs_step T s s' \<Longrightarrow> chans_ok T s \<Longrightarrow> balanced T s \<Longrightarrow> balanced T s'"
proof (induction rule: hs_step.induct)
  case (start_make t s)
  have "(\<Sum>n<hy_made s. mset (((hy_chans s)(hy_made s := [])) n)) = (\<Sum>n<hy_made s. mset (hy_chans s n))"
    by (rule sum_outside) simp
  with start_make(1,2) show ?case
    by (intro balanced_move [OF start_make(4)]) (simp_all add: hs_defs held_set_pc_empty del: fun_upd_apply, simp)
next
  case (loop_read t s)
  then show ?case
    by (intro balanced_move [OF loop_read(4)]) (simp_all add: hs_defs held_set_pc_empty del: fun_upd_apply)
next
  case (select_ctx t s c)
  then show ?case
    by (intro balanced_move [OF select_ctx(5)]) (simp_all add: hs_defs held_set_pc_empty del: fun_upd_apply)
next
  case (select_event t s n ev evs)
  then have n: "n < hy_made s" unfolding chans_ok_def by (metis pc_chan.simps(1))
  show ?case
    using sum_update [OF n, of mset "hy_chans s" evs] held_set_pc [OF select_event(1), of s "StHold ev"] select_event(2,3)
    by (intro balanced_move [OF select_event(5)]) (simp_all add: hs_defs ac_simps del: fun_upd_apply)
next
  case (hold_taken t s ev)
  then show ?case using held_set_pc [OF hold_taken(1), of s StLoop]
    by (intro balanced_move [OF hold_taken(4)]) (simp_all add: hs_defs ac_simps del: fun_upd_apply)
next
  case (hold_ctx t s ev)
  then show ?case using held_set_pc [OF hold_ctx(1), of s StEnd]
    by (intro balanced_move [OF hold_ctx(5)]) (simp_all add: hs_defs ac_simps del: fun_upd_apply)
next
  case (deferred t s)
  then show ?case
    by (intro balanced_move [OF deferred(4)]) (simp_all add: hs_defs held_set_pc_empty del: fun_upd_apply)
next
  case (ctx_done s t)
  then show ?case by (simp add: balanced_def hs_defs)
next
  case (post_event body s resp src sends)
  then show ?case
    by (auto simp: balanced_def hs_defs handlePostEvent_def record_event_def split: sum.splits)
next
  case (post_send s ps n ev qs)
  then have n: "n < hy_made s" unfolding chans_ok_def by (metis in_set_conv_decomp)
  show ?case
    using sum_update [OF n, of mset "hy_chans s" "hy_chans s n @ [ev]"] post_send(1)
    by (intro balanced_move [OF post_send(4)]) (simp_all add: hs_defs ac_simps del: fun_upd_apply)
next
  case (post_drop s ps n ev qs)
  then show ?case by (intro balanced_move [OF post_drop(4)]) (simp_all add: hs_defs)
next
  case (post_nil s ps ev qs)
  then show ?case by (intro balanced_move [OF post_nil(3)]) (simp_all add: hs_defs)
next
  case (other_request r s resp src)
  then show ?case using serve_keeps [OF other_request(1)]
    by (intro balanced_move [OF other_request(3)]) (simp_all add: hs_defs)
qed

lemma hs_inv_step: "hs_step T s s' \<Longrightarrow> hs_inv T s \<Longrightarrow> hs_inv T s'"
  using chans_ok_step routes_keyed_step balanced_step by (simp add: hs_inv_def balanced_def)

lemma hs_run_inv: "hs_run T s s' \<Longrightarrow> hs_inv T s \<Longrightarrow> hs_inv T s'"
  by (induction rule: hs_run.induct) (auto intro: hs_inv_step)

section \<open>The routes are the latest events\<close>

definition known_type :: "RouteEvent \<Rightarrow> bool" where
  "known_type ev \<longleftrightarrow> ev_Type ev \<in> {EventRouteCreated, EventRouteUpdated, EventRouteDeleted}"

text \<open>The route that the last event on a host leaves for it.\<close>

definition latest :: "string \<Rightarrow> RouteEvent list \<Rightarrow> RouteRequest option" where
  "latest h evs =
     (case filter (\<lambda>e. known_type e \<and> rr_Host (ev_Route e) = h) (rev evs) of
        [] \<Rightarrow> None
      | e # _ \<Rightarrow> if ev_Type e = EventRouteDeleted then None else Some (ev_Route e))"

lemma latest_Nil [simp]: "latest h [] = None"
  and latest_snoc: "latest h (evs @ [ev]) =
     (if known_type ev \<and> rr_Host (ev_Route ev) = h
      then (if ev_Type ev = EventRouteDeleted then None else Some (ev_Route ev)) else latest h evs)"
  by (simp_all add: latest_def)

abbreviation after_events :: "RouteEvent list \<Rightarrow> HTTPSource" where
  "after_events evs \<equiv> foldl (\<lambda>s ev. record_event ev s) hs_New evs"

lemma after_events_keyed: "routes_keyed (after_events evs)"
  by (induction evs rule: rev_induct) (simp_all add: routes_keyed_record)

lemma after_events_latest:
  "map_of (hs_routes (after_events evs)) h = (if h = '''' then None else latest h evs)"
proof (induction evs rule: rev_induct)
  case Nil
  then show ?case by (simp add: hs_New_def)
next
  case (snoc ev evs)
  then show ?case
    by (auto simp: record_event_def sync_route_def Let_def latest_snoc known_type_def update_conv' delete_conv')
qed

section \<open>A source that has gone deaf\<close>

text \<open>No channel, and no call of \<open>Start\<close> that would still make one.\<close>

definition deaf :: "nat \<Rightarrow> hs_sys \<Rightarrow> bool" where
  "deaf T s \<longleftrightarrow> hs_eventC (hy_src s) = None \<and> (\<forall>t < T. hy_pc s t \<noteq> StNew)"

definition unheard :: "hs_sys \<Rightarrow> RouteEvent multiset" where
  "unheard s = mset (hy_unsent s) + mset (map snd (filter (\<lambda>p. fst p = None) (hy_posts s)))"

lemma deaf_step:
  assumes "hs_step T s s'" "deaf T s"
  shows "deaf T s' \<and> (\<exists>new. hs_events (hy_src s') = hs_events (hy_src s) @ new \<and> unheard s' = unheard s + mset new)"
  using assms
proof (induction rule: hs_step.induct)
  case (post_event body s resp src sends)
  then show ?case
    by (auto simp: deaf_def unheard_def handlePostEvent_def record_event_def split: sum.splits)
next
  case (other_request r s resp src)
  then show ?case using serve_keeps [OF other_request(1)] by (auto simp: deaf_def unheard_def)
qed (auto simp: deaf_def unheard_def set_pc_def set_eventC_def)

lemma deaf_run:
  assumes "hs_run T s s'" "deaf T s"
  shows "deaf T s' \<and> (\<exists>new. hs_events (hy_src s') = hs_events (hy_src s) @ new \<and> unheard s' = unheard s + mset new)"
  using assms
proof (induction rule: hs_run.induct)
  case (run_refl s)
  then show ?case by simp
next
  case (run_step s s' s'')
  then obtain new where n: "deaf T s'" "hs_events (hy_src s') = hs_events (hy_src s) @ new" "unheard s' = unheard s + mset new"
    by blast
  from deaf_step [OF run_step(2) n(1)] obtain more where "deaf T s''"
    "hs_events (hy_src s'') = hs_events (hy_src s') @ more" "unheard s'' = unheard s' + mset more" by blast
  with n show ?case by (intro conjI exI [of _ "new @ more"]) simp_all
qed

section \<open>Properties\<close>

text \<open>
  C10: whatever calls of \<open>Start\<close> and handlers overlap, every event that \<open>POST /events\<close> accepts is
  accounted for exactly once: taken by an event channel, still on its way, logged as dropped,
  met with no channel, or held by a cancelled call. A buffer never exceeds 64 events, and the
  desired state stores every route once, under its own non-empty host.
\<close>

theorem http_source_accounts:
  assumes "hs_run T hy_init s"
  shows "mset (hs_events (hy_src s)) = in_flight T s + settled s \<and>
    (\<forall>n. length (hy_chans s n) \<le> 64) \<and> routes_keyed (hy_src s)"
  using hs_run_inv [OF assms hs_inv_init] by (simp add: hs_inv_def chans_ok_def buffer_size_def)

text \<open>
  C27: a source that is driven by events alone lists, once per host, the route of the last event
  on the host, and no route for a host whose last event is a deletion.
\<close>

theorem http_desired_is_latest:
  "\<exists>rs. hs_List (after_events evs) = (Ret rs, after_events evs) \<and> distinct (map rr_Host rs) \<and>
    (\<forall>h r. r \<in> set rs \<and> rr_Host r = h \<longleftrightarrow> h \<noteq> '''' \<and> latest h evs = Some r)"
proof -
  let ?rs = "hs_routes (after_events evs)"
  have keyed: "distinct (map fst ?rs)" "map_of ?rs h = Some r \<Longrightarrow> rr_Host r = h \<and> h \<noteq> ''''" for h r
    using after_events_keyed [of evs] by (auto simp: routes_keyed_def)
  have pair: "(h, r) \<in> set ?rs \<longleftrightarrow> map_of ?rs h = Some r" for h r
    using keyed(1) by (simp add: map_of_eq_Some_iff)
  have "map rr_Host (map snd ?rs) = map fst ?rs"
    using pair keyed(2) by auto
  then have "distinct (map rr_Host (map snd ?rs))" using keyed(1) by (rule ssubst)
  moreover have "r \<in> set (map snd ?rs) \<and> rr_Host r = h \<longleftrightarrow> h \<noteq> '''' \<and> latest h evs = Some r" for h r
  proof -
    have "r \<in> set (map snd ?rs) \<and> rr_Host r = h \<longleftrightarrow> map_of ?rs h = Some r"
      using pair keyed(2) by (force simp: image_iff)
    then show ?thesis by (simp add: after_events_latest)
  qed
  ultimately show ?thesis
    by (intro exI [of _ "map snd ?rs"] conjI allI) (simp_all only: hs_List_def)
qed

text \<open>
  C37: two terms of a leader overlap: an earlier call of \<open>Start\<close> executes its deferred function
  when a later one, which may be waiting for events, has made its channel. The field is then nil,
  the later call is where it was, and, with no further call of \<open>Start\<close>, the source is deaf for
  good: every event that it accepts is recorded and acknowledged, and is sent to no one.
\<close>

theorem http_source_goes_deaf:
  assumes "hy_pc s t = StEnd" and "hs_step T s s1" and "hy_pc s1 t = StDone"
    and "\<forall>k < T. hy_pc s k \<noteq> StNew" and "hs_run T s1 s2"
  shows "hs_eventC (hy_src s1) = None \<and> (\<forall>k. k \<noteq> t \<longrightarrow> hy_pc s1 k = hy_pc s k) \<and>
    (\<exists>new. hs_events (hy_src s2) = hs_events (hy_src s) @ new \<and> unheard s2 = unheard s + mset new \<and>
       hs_eventC (hy_src s2) = None)"
proof -
  have s1: "s1 = set_eventC (set_pc s t StDone) None"
    using assms(2) assms(1,3) by (cases rule: hs_step.cases) (auto simp: set_pc_def set_eventC_def split: if_splits)
  then have "deaf T s1" using assms(4) by (simp add: deaf_def set_pc_def set_eventC_def)
  from deaf_run [OF assms(5) this] s1 show ?thesis
    by (auto simp: deaf_def unheard_def set_pc_def set_eventC_def)
qed

section \<open>Instances\<close>

definition example_event :: RouteEvent where
  "example_event = \<lparr>ev_Type = EventRouteCreated, ev_Route = zero_RouteRequest\<lparr>rr_Host := ''a.io''\<rparr>, ev_RawData = ''''\<rparr>"

text \<open>
  Two terms of a leader: the first call of \<open>Start\<close>, cancelled, is about to run its deferred
  function, and the second, not cancelled, waits on the channel that it has made.
\<close>

definition two_terms :: hs_sys where
  "two_terms = hy_init\<lparr>hy_src := hs_New\<lparr>hs_eventC := Some (Suc 0)\<rparr>, hy_made := 2,
     hy_pc := (\<lambda>_. StNew)(0 := StEnd, Suc 0 := StSelect (Some (Suc 0))), hy_ctx := (\<lambda>_. False)(0 := True)\<rparr>"

lemma two_terms_reachable: "hs_run 2 hy_init two_terms"
proof -
  note step = run_step [where T = 2]
  note s1 = step [OF run_refl start_make [of 0]]
  note s2 = step [OF s1 loop_read [of 0]]
  note s3 = step [OF s2 ctx_done [of _ _ 0]]
  note s4 = step [OF s3 select_ctx [of 0 _ _ "Some 0"]]
  note s5 = step [OF s4 start_make [of "Suc 0"]]
  note s6 = step [OF s5 loop_read [of "Suc 0"]]
  have "\<exists>s. hs_run 2 hy_init s \<and> s = two_terms"
    by (rule exI, rule conjI, rule s6)
      (simp_all add: two_terms_def hy_init_def set_pc_def set_eventC_def hs_New_def fun_eq_iff)
  then show ?thesis by simp
qed

theorem http_source_accounts_witness:
  "mset (hs_events (hy_src two_terms)) = in_flight 2 two_terms + settled two_terms \<and>
    (\<forall>n. length (hy_chans two_terms n) \<le> 64) \<and> routes_keyed (hy_src two_terms)"
  by (rule http_source_accounts [OF two_terms_reachable])

theorem http_source_goes_deaf_witness:
  "\<exists>s1 s2. hs_run 2 hy_init s1 \<and> hy_pc s1 1 = StSelect (Some 1) \<and> \<not> hy_ctx s1 1 \<and> hs_run 2 s1 s2 \<and>
     hs_events (hy_src s2) = [example_event] \<and> unheard s2 = {#example_event#}"
proof -
  let ?s1 = "set_eventC (set_pc two_terms 0 StDone) None"
  let ?s2 = "?s1\<lparr>hy_src := record_event example_event (hy_src ?s1),
    hy_posts := hy_posts ?s1 @ [(hs_eventC (hy_src ?s1), example_event)]\<rparr>"
  have d: "hy_pc two_terms 0 = StEnd" "hy_pc ?s1 0 = StDone" "\<forall>k < 2. hy_pc two_terms k \<noteq> StNew"
    "hs_events (hy_src two_terms) = []" "unheard two_terms = {#}" "hy_pc two_terms 1 = StSelect (Some 1)" "\<not> hy_ctx ?s1 1"
    by (auto simp: two_terms_def hy_init_def hs_New_def unheard_def less_2_cases_iff set_pc_def set_eventC_def)
  have step: "hs_step 2 two_terms ?s1" using deferred [of 0 2 two_terms] d(1) by simp
  have r: "hs_run 2 ?s1 ?s2"
    by (rule run_step [OF run_refl post_event [of "Inr example_event" ?s1]]) (simp add: handlePostEvent_def)
  note deaf = http_source_goes_deaf [OF d(1) step d(2,3) r]
  have "hs_events (hy_src ?s2) = [example_event]"
    using d(4) by (simp add: record_event_def set_pc_def set_eventC_def)
  moreover from deaf this d(4,5) have "unheard ?s2 = {#example_event#}" by force
  moreover from deaf d(6) have "hy_pc ?s1 1 = StSelect (Some 1)" by simp
  moreover have "hs_run 2 hy_init ?s1" by (rule run_step [OF two_terms_reachable step])
  ultimately show ?thesis using d(7) r by blast
qed

end
