(* ===== verification/HttpFlow.thy ===== *)
theory HttpFlow
  imports Convergence SourceHttp "HOL-Library.Sublist"
begin

text \<open>
  The HTTP source with the rest of the process: the order in which its events reach the
  orchestrator, and what the gateway holds after the reconciler has read the desired state.
\<close>

section \<open>The order of events\<close>

text \<open>
  Runs in which a request waits for the previous one: a \<open>POST /events\<close> begins only when no other
  handler is between its critical section and its send.
\<close>

inductive hs_serial :: "hs_sys \<Rightarrow> hs_sys \<Rightarrow> bool" where
  serial_refl: "hs_serial s s"
| serial_step: "hs_serial s s' \<Longrightarrow> hs_step 1 s' s'' \<Longrightarrow>
    hy_posts s' = [] \<or> length (hy_posts s'') \<le> length (hy_posts s') \<Longrightarrow> hs_serial s s''"

lemma hs_serial_run: "hs_serial s s' \<Longrightarrow> hs_run 1 s s'"
  by (induction rule: hs_serial.induct) (auto intro: hs_run.intros)

fun held_list :: "start_pc \<Rightarrow> RouteEvent list" where
  "held_list (StHold ev) = [ev]"
| "held_list _ = []"

text \<open>The one channel from its delivered end to the handlers.\<close>

definition pipeline :: "hs_sys \<Rightarrow> RouteEvent list" where
  "pipeline s = map snd (hy_out s) @ held_list (hy_pc s 0) @ hy_chans s 0 @ map snd (hy_posts s)"

text \<open>With one call of \<open>Start\<close> there is one channel, number 0, and no use of it before it is made.\<close>

definition one_channel :: "hs_sys \<Rightarrow> bool" where
  "one_channel s \<longleftrightarrow>
     (\<forall>n. hs_eventC (hy_src s) = Some n \<longrightarrow> n = 0) \<and> (\<forall>n ev. (Some n, ev) \<in> set (hy_posts s) \<longrightarrow> n = 0) \<and>
     (\<forall>n. pc_chan (hy_pc s 0) = Some n \<longrightarrow> n = 0) \<and>
     (hy_pc s 0 = StNew \<longrightarrow> hy_made s = 0 \<and> hy_chans s 0 = [] \<and> (\<forall>p \<in> set (hy_posts s). fst p = None)) \<and>
     (hy_pc s 0 \<noteq> StNew \<longrightarrow> hy_made s = 1)"

lemma one_channel_step: "hs_step 1 s s' \<Longrightarrow> one_channel s \<and> chans_ok 1 s \<Longrightarrow> one_channel s'"
proof (induction rule: hs_step.induct)
  case (post_event body s resp src sends)
  then show ?case
    by (auto simp: one_channel_def chans_ok_def handlePostEvent_def record_event_def split: sum.splits)
next
  case (other_request r s resp src)
  then show ?case using serve_keeps [OF other_request(1)] by (auto simp: one_channel_def)
qed (fastforce simp: one_channel_def chans_ok_def set_pc_def set_eventC_def)+

definition order_inv :: "hs_sys \<Rightarrow> bool" where
  "order_inv s \<longleftrightarrow> length (hy_posts s) \<le> 1 \<and> subseq (pipeline s) (hs_events (hy_src s))"

lemma subseq_delete: "subseq (xs @ ys @ zs) evs \<Longrightarrow> subseq (xs @ zs) evs"
proof (erule subseq_order.trans [rotated])
  show "subseq (xs @ zs) (xs @ ys @ zs)" by (intro list_emb_append_mono) (simp_all add: list_emb_append2)
qed

lemma subseq_snoc: "subseq xs evs \<Longrightarrow> subseq (xs @ [ev]) (evs @ [ev])"
  by (intro list_emb_append_mono) simp_all

lemma order_step:
  assumes "hs_step 1 s s'" "one_channel s" "order_inv s"
    and "hy_posts s = [] \<or> length (hy_posts s') \<le> length (hy_posts s)"
  shows "order_inv s'"
  using assms
proof (induction rule: hs_step.induct)
  case (select_event t s n ev evs)
  then have "n = 0" "t = 0" by (auto simp: one_channel_def)
  with select_event show ?case by (simp add: order_inv_def pipeline_def set_pc_def)
next
  case (hold_ctx t s ev)
  then show ?case
    using subseq_delete [of "map snd (hy_out s)" "[ev]" "hy_chans s 0 @ map snd (hy_posts s)"]
    by (simp add: order_inv_def pipeline_def set_pc_def)
next
  case (post_event body s resp src sends)
  then show ?case
    using subseq_snoc [of "pipeline s" "hs_events (hy_src s)"]
    by (auto simp: order_inv_def pipeline_def handlePostEvent_def record_event_def split: sum.splits)
next
  case (post_send s ps n ev qs)
  then have "n = 0" "ps = []" "qs = []" by (auto simp: one_channel_def order_inv_def)
  with post_send show ?case by (simp add: order_inv_def pipeline_def)
next
  case (post_drop s ps n ev qs)
  then show ?case
    using subseq_delete [of "map snd (hy_out s) @ held_list (hy_pc s 0) @ hy_chans s 0" "[ev]" "[]"]
    by (auto simp: order_inv_def pipeline_def)
next
  case (post_nil s ps ev qs)
  then show ?case
    using subseq_delete [of "map snd (hy_out s) @ held_list (hy_pc s 0) @ hy_chans s 0" "[ev]" "[]"]
    by (auto simp: order_inv_def pipeline_def)
next
  case (other_request r s resp src)
  then show ?case using serve_keeps [OF other_request(1)] by (simp add: order_inv_def pipeline_def)
qed (auto simp: order_inv_def pipeline_def set_pc_def set_eventC_def one_channel_def)

lemma hs_serial_inv: "hs_serial hy_init s \<Longrightarrow> one_channel s \<and> order_inv s \<and> hs_inv 1 s"
proof (induction hy_init s rule: hs_serial.induct)
  case serial_refl
  show ?case by (simp add: hs_inv_init) (simp add: one_channel_def order_inv_def pipeline_def hy_init_def hs_New_def)
next
  case (serial_step s' s'')
  then have "chans_ok 1 s'" by (simp add: hs_inv_def)
  with serial_step one_channel_step order_step hs_inv_step show ?case by blast
qed

text \<open>Both ends of the pipeline: an event on its way or delivered.\<close>

lemma pipeline_mset:
  assumes "one_channel s"
  shows "mset (pipeline s) = mset (map snd (hy_out s)) + in_flight 1 s"
proof (cases "hy_pc s 0 = StNew")
  case True
  with assms show ?thesis by (simp add: one_channel_def pipeline_def in_flight_def)
next
  case False
  have "mset (held_list pc) = held pc" for pc by (cases pc) simp_all
  with False assms show ?thesis by (simp add: one_channel_def pipeline_def in_flight_def lessThan_Suc)
qed

section \<open>Two handlers at once\<close>

text \<open>Two overlapping posts whose handlers reach the channel in the other order.\<close>

definition swapped :: "RouteEvent \<Rightarrow> RouteEvent \<Rightarrow> hs_sys" where
  "swapped ev1 ev2 = hy_init\<lparr>hy_src := (record_event ev2 (record_event ev1 hs_New))\<lparr>hs_eventC := Some 0\<rparr>,
     hy_made := 1, hy_pc := (\<lambda>_. StNew)(0 := StLoop), hy_out := [(0, ev2), (0, ev1)]\<rparr>"

lemma post_accepted:
  "hs_step T s (s\<lparr>hy_src := record_event ev (hy_src s), hy_posts := hy_posts s @ [(hs_eventC (hy_src s), ev)]\<rparr>)"
  by (rule post_event [of "Inr ev"]) (simp add: handlePostEvent_def)

lemma swapped_reachable: "hs_run 1 hy_init (swapped ev1 ev2)"
proof -
  note step = run_step [where T = 1]
  note s1 = step [OF run_refl start_make [of 0]]
  note s2 = step [OF s1 loop_read [of 0]]
  note s3 = step [OF s2 post_accepted [of 1 _ ev1]]
  note s4 = step [OF s3 post_accepted [of 1 _ ev2]]
  note s5 = step [OF s4 post_send [of _ "[(Some 0, ev1)]" 0 ev2 "[]"]]
  note s6 = step [OF s5 post_send [of _ "[]" 0 ev1 "[]"]]
  note s7 = step [OF s6 select_event [of 0 _ _ 0 ev2 "[ev1]"]]
  note s8 = step [OF s7 hold_taken [of 0 _ _ ev2]]
  note s9 = step [OF s8 loop_read [of 0]]
  note s10 = step [OF s9 select_event [of 0 _ _ 0 ev1 "[]"]]
  note s11 = step [OF s10 hold_taken [of 0 _ _ ev1]]
  have "\<exists>s. hs_run 1 hy_init s \<and> s = swapped ev1 ev2"
    by (rule exI, rule conjI, rule s11)
      (simp_all add: swapped_def hy_init_def set_pc_def set_eventC_def hs_New_def fun_eq_iff handlePostEvent_def
        record_event_def buffer_size_def)
  then show ?thesis by simp
qed

section \<open>From the accepted events to the gateway\<close>

text \<open>
  The IDs of the application's mapper tell hosts without dashes apart, so that the routes of the
  gateway and the desired ones agree.
\<close>

definition no_dash :: "string \<Rightarrow> bool" where
  "no_dash h \<longleftrightarrow> CHR ''-'' \<notin> set h"

lemma app_pairs_id:
  "ing_mapper p = app_mapper m \<Longrightarrow> (i, h) \<in> ing_pairs p objs w \<Longrightarrow> i = ''routes-'' @ ReplaceAll1 h CHR ''.'' ''-''"
  by (auto simp: ing_pairs_def app_mapper_def app_ExtractRouteID_def)

lemma app_ids_agree:
  assumes "ing_mapper p = app_mapper m" "\<forall>(i, h) \<in> ing_pairs p objs w. no_dash h" "\<forall>d \<in> set ds. no_dash (rr_Host d)"
  shows "ids_agree app_RouteID (ing_pairs p objs w) ds"
proof -
  have inj: "h = k" if "no_dash h" "no_dash k" "ReplaceAll1 h CHR ''.'' ''-'' = ReplaceAll1 k CHR ''.'' ''-''" for h k
    using that ReplaceAll1_inj_char [of "CHR ''-''" h k "CHR ''.''"] by (simp add: no_dash_def)
  have "h = k" if "(i, h) \<in> ing_pairs p objs w" "(i, k) \<in> ing_pairs p objs w" for i h k
  proof (rule inj)
    show "no_dash h" "no_dash k" using that assms(2) by auto
    show "ReplaceAll1 h CHR ''.'' ''-'' = ReplaceAll1 k CHR ''.'' ''-''"
      using app_pairs_id [OF assms(1) that(1)] app_pairs_id [OF assms(1) that(2)] by simp
  qed
  moreover have "rr_Host d = h" if "(i, h) \<in> ing_pairs p objs w" "d \<in> set ds" "i = app_RouteID d" for i h d
  proof (rule inj)
    show "no_dash (rr_Host d)" "no_dash h" using that(1,2) assms(2,3) by auto
    show "ReplaceAll1 (rr_Host d) CHR ''.'' ''-'' = ReplaceAll1 h CHR ''.'' ''-''"
      using app_pairs_id [OF assms(1) that(1)] that(3) by (simp add: app_RouteID_def)
  qed
  moreover have "consistent_ids app_RouteID ds"
    using assms(3) inj by (simp add: consistent_ids_def app_RouteID_def)
  ultimately show ?thesis unfolding ids_agree_def by blast
qed

lemma latest_host: "latest h evs = Some r \<Longrightarrow> rr_Host r = h \<and> r \<in> ev_Route ` set evs"
proof (induction evs rule: rev_induct)
  case (snoc ev evs)
  then show ?case by (auto simp: latest_snoc split: if_splits)
qed simp

lemma desired_hosts:
  assumes "hs_List (after_events evs) = (Ret ds, s')"
  shows "rr_Host ` set ds = {h. h \<noteq> '''' \<and> latest h evs \<noteq> None}"
    "\<forall>d \<in> set ds. rr_Host d \<in> (\<lambda>e. rr_Host (ev_Route e)) ` set evs"
proof -
  have keyed: "distinct (map fst (hs_routes (after_events evs)))"
    "\<And>h r. map_of (hs_routes (after_events evs)) h = Some r \<Longrightarrow> rr_Host r = h \<and> h \<noteq> ''''"
    using after_events_keyed [of evs] by (auto simp: routes_keyed_def)
  have ds: "r \<in> set ds \<longleftrightarrow> (\<exists>h. h \<noteq> '''' \<and> latest h evs = Some r)" for r
  proof -
    have "r \<in> set ds \<longleftrightarrow> (\<exists>h. map_of (hs_routes (after_events evs)) h = Some r)"
      using assms keyed(1) by (force simp: hs_List_def map_of_eq_Some_iff)
    then show ?thesis by (auto simp: after_events_latest split: if_splits)
  qed
  have host: "latest h evs = Some r \<Longrightarrow> rr_Host r = h" for h r
    using after_events_latest [of evs h] keyed(2) latest_host by blast
  show "rr_Host ` set ds = {h. h \<noteq> '''' \<and> latest h evs \<noteq> None}"
    using ds host by (auto simp: image_iff)
  show "\<forall>d \<in> set ds. rr_Host d \<in> (\<lambda>e. rr_Host (ev_Route e)) ` set evs"
    using ds latest_host by fastforce
qed


section \<open>Properties\<close>

text \<open>
  C17: while a client waits for the reply before its next request, a term of the source hands its
  events on in the order of their acceptance; and when none of them met a full buffer, no channel
  or a cancelled call, those delivered and those on their way are exactly the accepted ones.
\<close>

theorem http_events_keep_order:
  assumes "hs_serial hy_init s"
  shows "subseq (map snd (hy_out s)) (hs_events (hy_src s)) \<and>
    (hy_dropped s = [] \<and> hy_unsent s = [] \<and> hy_lost s = [] \<longrightarrow> pipeline s = hs_events (hy_src s))"
proof -
  have inv: "one_channel s" "order_inv s" "mset (hs_events (hy_src s)) = in_flight 1 s + settled s"
    using hs_serial_inv [OF assms] by (simp_all add: hs_inv_def)
  have "subseq (map snd (hy_out s) @ []) (hs_events (hy_src s))"
    using inv(2) subseq_delete [of "map snd (hy_out s)" "held_list (hy_pc s 0) @ hy_chans s 0 @ map snd (hy_posts s)" "[]"]
    by (simp add: order_inv_def pipeline_def)
  moreover have "pipeline s = hs_events (hy_src s)" if "hy_dropped s = []" "hy_unsent s = []" "hy_lost s = []"
  proof -
    have "mset (pipeline s) = mset (hs_events (hy_src s))"
      using pipeline_mset [OF inv(1)] inv(3) that by (simp add: settled_def)
    then have "length (pipeline s) = length (hs_events (hy_src s))" by (rule mset_eq_length)
    with inv(2) show ?thesis by (simp add: order_inv_def subseq_same_length)
  qed
  ultimately show ?thesis by simp
qed

text \<open>
  C34: two posts that overlap may be handed on in the other order, since a handler sends after it
  has left its critical section: the source then knows no route of a host, and the gateway serves
  it.
\<close>

theorem http_events_can_swap:
  assumes "rr_TLS r = False"
  defines "created \<equiv> \<lparr>ev_Type = EventRouteCreated, ev_Route = r, ev_RawData = ''''\<rparr>"
    and "deleted \<equiv> \<lparr>ev_Type = EventRouteDeleted, ev_Route = r, ev_RawData = ''''\<rparr>"
  shows "\<exists>s p. hs_run 1 hy_init s \<and> hs_events (hy_src s) = [created, deleted] \<and>
    hs_List (hy_src s) = (Ret [], hy_src s) \<and> map snd (hy_out s) = [deleted, created] \<and>
    bindr (handleEvent iss log_provisioner deleted) (\<lambda>_. handleEvent iss log_provisioner created) log_New = (Ret (), p) \<and>
    log_pairs p = {(log_routeID r, rr_Host r)}"
proof (intro exI conjI)
  show "hs_run 1 hy_init (swapped created deleted)" by (rule swapped_reachable)
  have types: "EventRouteCreated \<noteq> EventRouteDeleted" "EventRouteUpdated \<noteq> EventRouteDeleted"
    by (simp_all add: EventRouteCreated_def EventRouteUpdated_def EventRouteDeleted_def)
  then show "hs_events (hy_src (swapped created deleted)) = [created, deleted]"
    "hs_List (hy_src (swapped created deleted)) = (Ret [], hy_src (swapped created deleted))"
    "map snd (hy_out (swapped created deleted)) = [deleted, created]"
    by (simp_all add: swapped_def record_event_def hs_New_def hs_List_def sync_route_def created_def deleted_def Let_def)
  show "bindr (handleEvent iss log_provisioner deleted) (\<lambda>_. handleEvent iss log_provisioner created) log_New =
      (Ret (), \<lparr>lp_routes = [(log_routeID r, log_route r None)]\<rparr>)"
    using assms(1) types
    by (simp add: created_def deleted_def handleEvent_def provisionRoute_def deprovisionRoute_def provision_with_def
        log_provisioner_def log_Deprovision_def log_Provision_def log_New_def Let_def)
  show "log_pairs \<lparr>lp_routes = [(log_routeID r, log_route r None)]\<rparr> = {(log_routeID r, rr_Host r)}"
    by (simp add: log_pairs_def log_route_def)
qed

text \<open>
  C5: the HTTP source, the reconciler and the Ingress provisioner together implement the abstract
  state "the hosts whose last event is not a deletion": after any events, a cycle that returns nil
  leaves exactly these hosts, if neither the hosts of the events nor those on the gateway contain
  a dash and every managed Ingress has a TLS entry. Without the first condition two hosts can have
  one route ID (\<open>a.b\<close> and \<open>a-b\<close>), without the second the removal of stale routes can fail, which is
  only logged: then other hosts stay. The issuer never returns a nil certificate without an error;
  the API server is healthy and has no other writer.
\<close>

theorem http_events_reach_gateway:
  fixes w :: "'g \<times> (HTTPSource \<times> 'e)" and api :: "'g kube_api" and m :: AppIngressMapper and icfg :: ingress_config
    and iss :: "(HTTPSource \<times> 'e) Issuer"
  defines "P \<equiv> app_provisioner api m icfg"
  assumes "cluster_ok P objs (fst w)" and "0 < ic_maxRoutesPerIngress icfg"
    and "fst (snd w) = after_events evs"
    and "Reconcile (source_beside (lift_Desired fst put_fst http_desired)) (issuer_beside iss)
      (at_gateway (ingress_provisioner P)) w = (Ret (), w')"
    and "\<forall>(i, h) \<in> ing_pairs P objs (fst w). no_dash h" and "\<forall>e \<in> set evs. no_dash (rr_Host (ev_Route e))"
    and "\<forall>ing \<in> set (managed P objs (fst w)). ig_TLS ing \<noteq> []"
    and "nonnil_issuer iss"
  shows "snd ` ing_pairs P objs (fst w') = {h. h \<noteq> '''' \<and> latest h evs \<noteq> None}"
proof -
  let ?ds = "map snd (hs_routes (after_events evs))"
  have run: "hs_List (after_events evs) = (Ret ?ds, after_events evs)" by (simp add: hs_List_def)
  then have list: "des_List (lift_Desired fst put_fst http_desired) (snd w) = (Ret ?ds, put_fst (after_events evs) (snd w))"
    unfolding lift_Desired_def http_desired_def DesiredStateProvider.simps
    by (intro on_part_simp) (simp add: assms(4))
  note hosts = desired_hosts [OF run]
  have mapper: "ing_mapper P = app_mapper m" by (simp add: P_def)
  have dash: "\<forall>d \<in> set ?ds. no_dash (rr_Host d)" using hosts(2) assms(7) by auto
  have agree: "ids_agree app_RouteID (ing_pairs P objs (fst w)) ?ds"
    by (rule app_ids_agree [OF mapper assms(6) dash])
  have "\<forall>ing \<in> set (managed P objs (fst w)). \<not> stuck P (stale_ids (ing_pairs P objs (fst w)) ?ds) ing"
    using assms(8) by (simp add: stuck_def)
  from ingress_cycle_law [OF assms(2) [unfolded P_def] assms(3) list assms(5) [unfolded P_def]
      agree [unfolded P_def] this [unfolded P_def] assms(9)] hosts(1)
  show ?thesis unfolding P_def by (metis (lifting))
qed

section \<open>Instances\<close>

text \<open>Two posts one after the other: the first event is delivered, the second waits in the channel.\<close>

definition in_order :: "RouteEvent \<Rightarrow> RouteEvent \<Rightarrow> hs_sys" where
  "in_order ev1 ev2 = hy_init\<lparr>hy_src := (record_event ev2 (record_event ev1 hs_New))\<lparr>hs_eventC := Some 0\<rparr>,
     hy_chans := (\<lambda>_. [])(0 := [ev2]), hy_made := 1, hy_pc := (\<lambda>_. StNew)(0 := StLoop), hy_out := [(0, ev1)]\<rparr>"

lemma in_order_serial: "hs_serial hy_init (in_order ev1 ev2)"
proof -
  note step = serial_step
  note s1 = step [OF serial_refl start_make [of 0]]
  note s2 = step [OF s1 loop_read [of 0]]
  note s3 = step [OF s2 post_accepted [of 1 _ ev1]]
  note s4 = step [OF s3 post_send [of _ "[]" 0 ev1 "[]"]]
  note s5 = step [OF s4 post_accepted [of 1 _ ev2]]
  note s6 = step [OF s5 post_send [of _ "[]" 0 ev2 "[]"]]
  note s7 = step [OF s6 select_event [of 0 _ _ 0 ev1 "[ev2]"]]
  note s8 = step [OF s7 hold_taken [of 0 _ _ ev1]]
  have "\<exists>s. hs_serial hy_init s \<and> s = in_order ev1 ev2"
    by (rule exI, rule conjI, rule s8)
      (simp_all add: in_order_def hy_init_def set_pc_def set_eventC_def hs_New_def fun_eq_iff
        record_event_def buffer_size_def)
  then show ?thesis by simp
qed

theorem http_events_keep_order_witness:
  "pipeline (in_order example_event example_event) = [example_event, example_event]"
  using http_events_keep_order [OF in_order_serial [of example_event example_event]]
  by (simp add: in_order_def hy_init_def record_event_def hs_New_def)

theorem http_events_can_swap_witness:
  "\<exists>s p. hs_run 1 hy_init s \<and> hs_List (hy_src s) = (Ret [], hy_src s) \<and> map ev_Type (map snd (hy_out s)) =
      [EventRouteDeleted, EventRouteCreated] \<and> log_pairs p = {(''a.io'', ''a.io'')}"
  using http_events_can_swap [of "ev_Route example_event" none_issuer]
  by (fastforce simp: example_event_def zero_RouteRequest_def log_routeID_def)

definition demo_events :: "RouteEvent list" where
  "demo_events = [\<lparr>ev_Type = EventRouteCreated, ev_Route = demo_route ''a'' False, ev_RawData = ''''\<rparr>,
     \<lparr>ev_Type = EventRouteCreated, ev_Route = demo_route ''b'' False, ev_RawData = ''''\<rparr>,
     \<lparr>ev_Type = EventRouteDeleted, ev_Route = demo_route ''b'' False, ev_RawData = ''''\<rparr>]"

lemma demo_events_run:
  "hs_List (after_events demo_events) = (Ret [demo_route ''a'' False], after_events demo_events)"
  by (simp add: hs_List_def demo_events_def record_event_def sync_route_def hs_New_def Let_def
      EventRouteCreated_def EventRouteUpdated_def EventRouteDeleted_def)

lemma demo_http_cycle:
  "Reconcile (source_beside (lift_Desired fst put_fst http_desired)) (issuer_beside (ss_issuer demo_env ss_defaultConfig))
     (at_gateway (ingress_provisioner demo)) ([], (after_events demo_events, ())) =
   (Ret (), ([demo_ing 0 [''a''] []], (after_events demo_events, ())))"
proof -
  have l: "listManagedIngresses demo [] = (Ret [], [])"
    using listManagedIngresses_run [of demo "\<lambda>os. os" "[]"] by (simp add: demo_cluster_ok managed_def)
  have "ing_BatchProvision demo [demo_route ''a'' False] Map.empty [] =
      (Ret (batch_results demo Map.empty \<lparr>b_ingressName = app_IngressName 0,
         b_routes = [\<lparr>mr_req = demo_route ''a'' False, mr_rule = demo_rule ''a'', mr_tls = None\<rparr>],
         b_needsPatch = False\<rparr>), [demo_ing 0 [''a''] []])"
    using demo_ing_simps(1) [of 0 "[''a'']" "[]"]
    by (simp add: ing_BatchProvision_def ing_BatchProvision_run_def l create_overflow.simps demo_createIngress
      go_slice_def tls_entries_def map_filter_simps demo_ing_def)
  moreover have "ing_List demo [] = (Ret [], [])" by (simp add: ing_List_def l)
  ultimately show ?thesis
    using demo_events_run
    by (simp add: Reconcile_def diff_eq remove_stale_def lift_Desired_def lift_Provisioner_def
        http_desired_def ingress_provisioner_def)
qed

theorem http_events_reach_gateway_witness:
  "snd ` ing_pairs demo (\<lambda>os. os) [demo_ing 0 [''a''] []] = {h. h \<noteq> '''' \<and> latest h demo_events \<noteq> None}"
proof -
  have pairs: "ing_pairs demo (\<lambda>os. os) [] = {}" by (simp add: ing_pairs_def managed_rules_def managed_def)
  let ?w = "([] :: Ingress list, (after_events demo_events, ()))"
  have "cluster_ok demo (\<lambda>os. os) (fst ?w)" "0 < ic_maxRoutesPerIngress demo_cfg" "fst (snd ?w) = after_events demo_events"
    "\<forall>(i, h) \<in> ing_pairs demo (\<lambda>os. os) (fst ?w). no_dash h" "\<forall>e \<in> set demo_events. no_dash (rr_Host (ev_Route e))"
    "\<forall>ing \<in> set (managed demo (\<lambda>os. os) (fst ?w)). ig_TLS ing \<noteq> []"
    by (simp_all add: demo_cluster_ok pairs managed_def demo_events_def no_dash_def)
  from http_events_reach_gateway [OF this(1) [unfolded demo_def] this(2,3) demo_http_cycle [unfolded demo_def]
      this(4-6) [unfolded demo_def] ss.nonnil_issuer_axioms, folded demo_def]
  show ?thesis by simp
qed

end
