(* ===== verification/IngressInvariants.thy ===== *)
theory IngressInvariants
  imports IngressProperties
begin

text \<open>
  What every call of the Ingress provisioner keeps, however it ends: a refused patch or a
  failing creation leaves a batch half done, and the invariants below hold there too. First one
  request to the API server, then each operation, then any sequence of calls.
\<close>

section \<open>Invariant and frame\<close>

text \<open>\<open>buckets_inv\<close>: the cluster is as documented and every managed Ingress satisfies \<open>P\<close>.\<close>

definition buckets_inv ::
  "'w IngressProvisioner \<Rightarrow> (Ingress \<Rightarrow> bool) \<Rightarrow> ('w \<Rightarrow> Ingress list) \<Rightarrow> 'w \<Rightarrow> bool" where
  "buckets_inv p P objs w \<longleftrightarrow> cluster_ok p objs w \<and> (\<forall>ing \<in># objects p objs w. P ing)"

text \<open>The rules whose ID is not among \<open>ids\<close>.\<close>

definition untouched :: "'w IngressProvisioner \<Rightarrow> string set \<Rightarrow> IngressRule multiset \<Rightarrow> IngressRule multiset" where
  "untouched p ids R = filter_mset (\<lambda>r. im_ExtractRouteID (ing_mapper p) r \<notin> ids) R"

lemma untouched_simps [simp]:
  "untouched p ids {#} = {#}" "untouched p ids (R + S) = untouched p ids R + untouched p ids S"
  "untouched p ids (add_mset r R) =
     (if im_ExtractRouteID (ing_mapper p) r \<in> ids then untouched p ids R else add_mset r (untouched p ids R))"
  by (simp_all add: untouched_def)

lemma untouched_diff:
  "im_ExtractRouteID (ing_mapper p) r \<in> ids \<Longrightarrow> untouched p ids (R - {#r#}) = untouched p ids R"
  by (simp add: untouched_def)

lemma untouched_none: "\<forall>r \<in># R. im_ExtractRouteID (ing_mapper p) r \<in> ids \<Longrightarrow> untouched p ids R = {#}"
  by (induction R) simp_all

text \<open>From \<open>w\<close> to \<open>w'\<close> the invariant holds again and only rules with an ID of \<open>ids\<close> have changed.\<close>

definition keeps ::
  "'w IngressProvisioner \<Rightarrow> (Ingress \<Rightarrow> bool) \<Rightarrow> string set \<Rightarrow> ('w \<Rightarrow> Ingress list) \<Rightarrow> 'w \<Rightarrow> 'w \<Rightarrow> bool" where
  "keeps p P ids objs w w' \<longleftrightarrow> buckets_inv p P objs w' \<and>
     untouched p ids (managed_rules p objs w') = untouched p ids (managed_rules p objs w)"

lemma keeps_refl [intro]: "buckets_inv p P objs w \<Longrightarrow> keeps p P ids objs w w"
  by (simp add: keeps_def)

lemma keeps_trans: "keeps p P ids objs w v \<Longrightarrow> keeps p P ids objs v w' \<Longrightarrow> keeps p P ids objs w w'"
  by (simp add: keeps_def)

lemma keeps_mono:
  assumes "keeps p P ids objs w w'" "ids \<subseteq> ids'"
  shows "keeps p P ids' objs w w'"
proof -
  have "untouched p ids' R = untouched p ids' (untouched p ids R)" for R
    using assms(2) by (auto simp: untouched_def filter_filter_mset intro!: filter_mset_cong)
  then show ?thesis using assms(1) unfolding keeps_def by metis
qed

lemma keeps_inv: "keeps p P ids objs w w' \<Longrightarrow> buckets_inv p P objs w'"
  by (simp add: keeps_def)

text \<open>
  The same for one request about the Ingress \<open>ing\<close>, which leaves one Ingress of its name or none
  in its place.
\<close>

definition local_step ::
  "'w IngressProvisioner \<Rightarrow> (Ingress \<Rightarrow> bool) \<Rightarrow> string set \<Rightarrow> ('w \<Rightarrow> Ingress list) \<Rightarrow> Ingress \<Rightarrow> 'w \<Rightarrow> 'w \<Rightarrow> bool" where
  "local_step p P ids objs ing w w' \<longleftrightarrow> cluster_ok p objs w' \<and>
     (\<exists>M N. objects p objs w = add_mset ing M \<and> objects p objs w' = N + M \<and>
        (\<forall>i \<in># N. P i \<and> ig_Name i = ig_Name ing) \<and>
        untouched p ids (rules_in N) = untouched p ids (mset (ig_Rules ing)))"

lemma local_step_keeps:
  "local_step p P ids objs ing w w' \<Longrightarrow> buckets_inv p P objs w \<Longrightarrow> keeps p P ids objs w w'"
  by (auto simp: local_step_def keeps_def buckets_inv_def managed_rules_objects)

lemma local_step_refl:
  assumes "buckets_inv p P objs w" "ing \<in># objects p objs w"
  shows "local_step p P ids objs ing w w"
proof -
  obtain M where "objects p objs w = add_mset ing M" using assms(2) by (rule multi_member_split [THEN exE])
  with assms(1) show ?thesis
    unfolding local_step_def buckets_inv_def by (intro conjI exI [of _ M] exI [of _ "{#ing#}"]) simp_all
qed

section \<open>One request\<close>

text \<open>What an accepted patch may make of an Ingress.\<close>

definition good_patch ::
  "'w IngressProvisioner \<Rightarrow> (Ingress \<Rightarrow> bool) \<Rightarrow> string set \<Rightarrow> jsonPatch list \<Rightarrow> Ingress \<Rightarrow> bool" where
  "good_patch p P ids ps ing \<longleftrightarrow> (\<forall>ing'. patched ps ing = Some ing' \<longrightarrow>
     P ing' \<and> untouched p ids (mset (ig_Rules ing')) = untouched p ids (mset (ig_Rules ing)))"

lemma patch_step:
  assumes inv: "buckets_inv p P objs w" and mem: "ing \<in># objects p objs w" and good: "good_patch p P ids ps ing"
    and run: "applyJSONPatch p (ig_Name ing) ps w = (x, w')"
  shows "local_step p P ids objs ing w w'"
proof -
  have ok: "cluster_ok p objs w" using inv by (simp add: buckets_inv_def)
  show ?thesis
  proof (cases "patched ps ing")
    case None
    from patch_runs(1) [OF ok mem None] run have "w' = w" by auto
    then show ?thesis using local_step_refl [OF inv mem] by simp
  next
    case (Some ing')
    from patch_runs(2) [OF ok mem Some] run obtain u where "applyJSONPatch p (ig_Name ing) ps w = (Ret u, w')" by auto
    from patch_objects [OF ok mem this]
    obtain i M where "patched ps ing = Some i" "objects p objs w = add_mset ing M"
      "objects p objs w' = add_mset i M" "cluster_ok p objs w'" "ig_Name i = ig_Name ing" .
    with good show ?thesis
      unfolding local_step_def good_patch_def by (intro conjI exI [of _ M] exI [of _ "{#i#}"]) simp_all
  qed
qed

lemma create_step:
  assumes inv: "buckets_inv p P objs w" and run: "createIngressWithRules p k rules ts w = (x, w')"
    and good: "rules \<noteq> [] \<Longrightarrow> P (new_ingress p k rules ts)"
    and ids: "\<forall>r \<in> set rules. im_ExtractRouteID (ing_mapper p) r \<in> ids"
  shows "keeps p P ids objs w w'" and "\<exists>N. objects p objs w' = N + objects p objs w"
proof -
  have ok: "cluster_ok p objs w" using inv by (simp add: buckets_inv_def)
  have none: "untouched p ids (mset rules) = {#}"
    using ids by (simp add: untouched_none)
  consider (created) ing where "x = Ret ing" | (refused) "w' = w"
  proof (cases "\<exists>created v. ka_Create (ing_api p) (ic_namespace (ing_cfg p)) (new_ingress p k rules ts) w = (Inr created, v)")
    case True
    with run that(1) show ?thesis by (auto simp: createIngressWithRules_def)
  next
    case False
    then obtain e v where e: "ka_Create (ing_api p) (ic_namespace (ing_cfg p)) (new_ingress p k rules ts) w = (Inl e, v)"
      by (metis surj_pair sum.exhaust)
    have "v = w" using kube_Create_refused [OF cluster_okD(1) [OF ok] e] .
    with e run that(2) show ?thesis by (simp add: createIngressWithRules_def)
  qed
  then have "keeps p P ids objs w w' \<and> (\<exists>N. objects p objs w' = N + objects p objs w)"
  proof cases
    case created
    note c = create_objects [OF ok run [unfolded created]]
    have "objects p objs w' = {#ing#} + objects p objs w" using c(3) by simp
    moreover have "keeps p P ids objs w w'"
      using inv c good none by (auto simp: keeps_def buckets_inv_def managed_rules_objects)
    ultimately show ?thesis by blast
  next
    case refused
    have "objects p objs w = {#} + objects p objs w" by simp
    with refused inv show ?thesis by blast
  qed
  then show "keeps p P ids objs w w'" "\<exists>N. objects p objs w' = N + objects p objs w" by blast+
qed

lemma delete_step:
  assumes inv: "buckets_inv p P objs w" and mem: "ing \<in># objects p objs w"
    and ids: "\<forall>r \<in> set (ig_Rules ing). im_ExtractRouteID (ing_mapper p) r \<in> ids"
    and run: "deleteIngress p (ig_Name ing) w = (x, w')"
  shows "local_step p P ids objs ing w w'"
proof -
  have ok: "cluster_ok p objs w" using inv by (simp add: buckets_inv_def)
  from delete_objects [OF ok mem] run obtain M where d: "objects p objs w = add_mset ing M"
    "objects p objs w' = M" "cluster_ok p objs w'" by auto
  have "untouched p ids (mset (ig_Rules ing)) = {#}"
    using ids by (simp add: untouched_none)
  with d show ?thesis
    unfolding local_step_def by (intro conjI exI [of _ M] exI [of _ "{#}"]) simp_all
qed

section \<open>The operations\<close>

lemma set_drop_nth: "set (drop_nth j xs) \<subseteq> set xs"
  using set_take_subset [of j xs] set_drop_subset [of "Suc j" xs] by (auto simp: drop_nth_def)

lemma set_tls_without: "set (tls_without h ts) \<subseteq> set ts"
  by (simp add: tls_without_def set_drop_nth split: option.split)

text \<open>
  The law of a property of buckets: it is within the capacity, no bucket is empty, every rule
  satisfies \<open>R\<close> and every TLS entry \<open>T\<close>, where the mapper gives only such rules and entries and
  an entry that loses some of its hosts, but not all, is still one.
\<close>

definition bucket_ok ::
  "'w IngressProvisioner \<Rightarrow> (IngressRule \<Rightarrow> bool) \<Rightarrow> (IngressTLS \<Rightarrow> bool) \<Rightarrow> Ingress \<Rightarrow> bool" where
  "bucket_ok p R T ing \<longleftrightarrow> fits p ing \<and> ig_Rules ing \<noteq> [] \<and>
     (\<forall>r \<in> set (ig_Rules ing). R r) \<and> (\<forall>t \<in> set (ig_TLS ing). T t)"

locale bucket_law =
  fixes m :: IngressMapper and R :: "IngressRule \<Rightarrow> bool" and T :: "IngressTLS \<Rightarrow> bool"
  assumes mapped_rule: "im_MapRule m req = Inr rule \<Longrightarrow> R rule"
    and mapped_tls: "im_MapTLS m req = Inr (Some t) \<Longrightarrow> T t"
    and fewer_hosts: "T t \<Longrightarrow> filter Q (it_Hosts t) \<noteq> [] \<Longrightarrow> T (t\<lparr>it_Hosts := filter Q (it_Hosts t)\<rparr>)"
begin

lemma map_tls_law: "map_tls_of m req = Inr tls \<Longrightarrow> tls = Some t \<Longrightarrow> T t"
  by (auto simp: map_tls_of_def split: if_splits intro: mapped_tls)

lemma good_update:
  assumes "bucket_ok p R T ing" "j < length (ig_Rules ing)" "R rule" "\<And>t. tls = Some t \<Longrightarrow> T t"
    "im_ExtractRouteID (ing_mapper p) (ig_Rules ing ! j) \<in> ids" "im_ExtractRouteID (ing_mapper p) rule \<in> ids"
  shows "good_patch p (bucket_ok p R T) ids (update_patch ing j rule tls) ing"
proof -
  have "\<forall>x \<in> set ts'. T x" if "tls_updated h tls (ig_TLS ing) = Some ts'" for h ts'
    using that assms(1,4) set_update_subset_insert [of "ig_TLS ing"]
    by (fastforce simp: tls_updated_def bucket_ok_def split: option.splits if_splits)
  moreover have "\<forall>x \<in> set ((ig_Rules ing)[j := rule]). R x"
    using assms(1,3) set_update_subset_insert [of "ig_Rules ing" j rule] by (auto simp: bucket_ok_def)
  moreover have "untouched p ids (mset ((ig_Rules ing)[j := rule])) = untouched p ids (mset (ig_Rules ing))"
    using assms(5,6) by (simp add: mset_update [OF assms(2)] untouched_diff)
  ultimately show ?thesis
    using assms(1) by (auto simp: good_patch_def patched_update [OF assms(2)] bucket_ok_def fits_def)
qed

lemma good_add:
  assumes "bucket_ok p R T ing" "\<forall>r \<in> set rules. R r \<and> im_ExtractRouteID (ing_mapper p) r \<in> ids"
    "\<forall>t \<in> set ts. T t" "int (length (ig_Rules ing)) + int (length rules) \<le> ic_maxRoutesPerIngress (ing_cfg p)"
  shows "good_patch p (bucket_ok p R T) ids (map add_rule rules @ map add_tls ts) ing"
proof -
  have ne: "ig_Rules ing \<noteq> []" using assms(1) by (simp add: bucket_ok_def)
  have "untouched p ids (mset rules) = {#}" using assms(2) by (simp add: untouched_none)
  with assms show ?thesis
    by (auto simp: good_patch_def patched_add [OF ne] bucket_ok_def fits_def)
qed

lemma good_remove:
  assumes "bucket_ok p R T ing" "j < length (ig_Rules ing)" "length (ig_Rules ing) \<noteq> 1"
    "im_ExtractRouteID (ing_mapper p) (ig_Rules ing ! j) \<in> ids"
  shows "good_patch p (bucket_ok p R T) ids (remove_patch ing j) ing"
proof -
  have many: "1 < length (ig_Rules ing)" using assms(2,3) by linarith
  have "length (drop_nth j (ig_Rules ing)) = length (ig_Rules ing) - 1" by (rule length_drop_nth [OF assms(2)])
  moreover from this many have "drop_nth j (ig_Rules ing) \<noteq> []" by auto
  moreover have "untouched p ids (mset (drop_nth j (ig_Rules ing))) = untouched p ids (mset (ig_Rules ing))"
    using assms(4) by (simp add: mset_drop_nth [OF assms(2)] untouched_diff)
  ultimately show ?thesis
    using assms(1) set_drop_nth [of j "ig_Rules ing"] set_tls_without [of "ir_Host (ig_Rules ing ! j)" "ig_TLS ing"]
    by (auto simp: good_patch_def patched_remove [OF assms(2) many] bucket_ok_def fits_def)
qed

lemma good_replace:
  assumes "bucket_ok p R T ing" "kept p ids ing \<noteq> []"
  shows "good_patch p (bucket_ok p R T) ids (replace_patch (kept p ids ing) (kept_tls p ids ing)) ing"
proof -
  have ne: "ig_Rules ing \<noteq> []" using assms(1) by (simp add: bucket_ok_def)
  have "\<forall>t \<in> set (kept_tls p ids ing). T t"
    using assms(1) fewer_hosts by (auto simp: kept_tls_def keep_tls_def bucket_ok_def)
  moreover have "untouched p ids (mset (kept p ids ing)) = untouched p ids (mset (ig_Rules ing))"
    by (simp add: kept_def untouched_def filter_filter_mset)
  moreover have "length (kept p ids ing) \<le> length (ig_Rules ing)" by (simp add: kept_def)
  moreover have "set (kept p ids ing) \<subseteq> set (ig_Rules ing)" by (auto simp: kept_def)
  ultimately show ?thesis
    using assms by (auto simp: good_patch_def patched_replace [OF ne assms(2)] bucket_ok_def fits_def split: if_splits)
qed

lemma updateRule_keeps:
  assumes inv: "buckets_inv p (bucket_ok p R T) objs w"
    and found: "find_route (im_ExtractRouteID (ing_mapper p)) i (managed p objs w) = Some (ing, j)"
    and new: "R rule" "\<And>t. tls = Some t \<Longrightarrow> T t" "i \<in> ids" "im_ExtractRouteID (ing_mapper p) rule \<in> ids"
    and run: "updateRule p ing j rule tls req w = (x, w')"
  shows "keeps p (bucket_ok p R T) ids objs w w'"
proof -
  note f = find_route_objects [OF found]
  have bucket: "bucket_ok p R T ing" using inv f(1) by (simp add: buckets_inv_def)
  have good: "good_patch p (bucket_ok p R T) ids (update_patch ing j rule tls) ing"
    using new f(3) by (intro good_update [OF bucket f(2)]) simp_all
  obtain y where "applyJSONPatch p (ig_Name ing) (update_patch ing j rule tls) w = (y, w')"
    using run unfolding updateRule_def by (rule wrapr_cases) auto
  from local_step_keeps [OF patch_step [OF inv f(1) good this] inv] show ?thesis .
qed

lemma ing_place_keeps:
  assumes inv: "buckets_inv p (bucket_ok p R T) objs w" and max: "0 < ic_maxRoutesPerIngress (ing_cfg p)"
    and new: "R rule" "\<And>t. tls = Some t \<Longrightarrow> T t" "im_RouteID (ing_mapper p) req \<in> ids"
      "im_ExtractRouteID (ing_mapper p) rule \<in> ids"
    and run: "ing_place p req cert rule tls (managed p objs w) w = (x, w')"
  shows "keeps p (bucket_ok p R T) ids objs w w'"
proof (cases "find_route (im_ExtractRouteID (ing_mapper p)) (im_RouteID (ing_mapper p) req) (managed p objs w)")
  case (Some found)
  obtain ing j where found: "found = (ing, j)" by (cases found)
  have "updateRule p ing j rule tls req w = (x, w')" using run Some found by (simp add: ing_place_def)
  from updateRule_keeps [OF inv Some [unfolded found] new this] show ?thesis .
next
  case None
  let ?ts = "case tls of None \<Rightarrow> [] | Some t \<Rightarrow> [t]"
  have ts: "\<forall>t \<in> set ?ts. T t" using new(2) by (simp split: option.split)
  show ?thesis
  proof (cases "findWithCapacity p (managed p objs w)")
    case (Some ing)
    note cap = findWithCapacity_Some [OF Some]
    have mem: "ing \<in># objects p objs w" using cap by (simp add: objects_def)
    then have bucket: "bucket_ok p R T ing" using inv by (simp add: buckets_inv_def)
    have good: "good_patch p (bucket_ok p R T) ids (map add_rule [rule] @ map add_tls ?ts) ing"
      using new(1,4) ts cap by (intro good_add [OF bucket]) auto
    obtain y where "patchAddRule p (ig_Name ing) rule tls w = (y, w')"
      using run None Some by (auto simp: ing_place_def Let_def elim!: wrapr_cases)
    then have "applyJSONPatch p (ig_Name ing) (map add_rule [rule] @ map add_tls ?ts) w = (y, w')"
      unfolding map_add_single patchAddRule_def .
    from local_step_keeps [OF patch_step [OF inv mem good this] inv] show ?thesis .
  next
    case none: None
    obtain y where "createIngressWithRules p (length (managed p objs w)) [rule] ?ts w = (y, w')"
      using run None none by (auto simp: ing_place_def Let_def elim!: bindr_cases)
    from create_step(1) [OF inv this] new(1,4) ts max show ?thesis by (simp add: bucket_ok_def fits_def)
  qed
qed

lemma ing_Provision_keeps:
  assumes p: "ing_mapper p = m" and inv: "buckets_inv p (bucket_ok p R T) objs w"
    and max: "0 < ic_maxRoutesPerIngress (ing_cfg p)" and ids: "im_RouteID m req \<in> ids"
      "\<And>rule. im_MapRule m req = Inr rule \<Longrightarrow> im_ExtractRouteID m rule \<in> ids"
    and run: "ing_Provision p req cert w = (x, w')"
  shows "keeps p (bucket_ok p R T) ids objs w w'"
proof -
  have ok: "cluster_ok p objs w" using inv by (simp add: buckets_inv_def)
  consider "w' = w" | rule tls where "im_MapRule m req = Inr rule" "map_tls_of m req = Inr tls"
    "ing_place p req cert rule tls (managed p objs w) w = (x, w')"
    using run by (auto simp: ing_Provision_def p listManaged_bind [OF ok] split: sum.splits)
  then show ?thesis
  proof cases
    case 1
    with inv show ?thesis by blast
  next
    case (2 rule tls)
    from ing_place_keeps [OF inv max mapped_rule [OF 2(1)] map_tls_law [OF 2(2)] _ _ 2(3)] ids 2(1) p
    show ?thesis by simp
  qed
qed

lemma ing_Deprovision_keeps:
  assumes inv: "buckets_inv p (bucket_ok p R T) objs w" and ids: "i \<in> ids"
    and run: "ing_Deprovision p i w = (x, w')"
  shows "keeps p (bucket_ok p R T) ids objs w w'"
proof -
  have ok: "cluster_ok p objs w" using inv by (simp add: buckets_inv_def)
  show ?thesis
  proof (cases "find_route (im_ExtractRouteID (ing_mapper p)) i (managed p objs w)")
    case None
    then have "w' = w" using run by (simp add: ing_Deprovision_def listManaged_bind [OF ok])
    with inv show ?thesis by blast
  next
    case (Some found)
    obtain ing j where found: "found = (ing, j)" by (cases found)
    note f = find_route_objects [OF Some [unfolded found]]
    have bucket: "bucket_ok p R T ing" using inv f(1) by (simp add: buckets_inv_def)
    have "local_step p (bucket_ok p R T) ids objs ing w w'"
    proof (cases "length (ig_Rules ing) = 1")
      case True
      then have "\<forall>r \<in> set (ig_Rules ing). im_ExtractRouteID (ing_mapper p) r \<in> ids"
        using f(2,3) ids by (auto simp: length_Suc_conv)
      moreover have "deleteIngress p (ig_Name ing) w = (x, w')"
        using run Some found True by (simp add: ing_Deprovision_def listManaged_bind [OF ok])
      ultimately show ?thesis by (rule delete_step [OF inv f(1)])
    next
      case False
      obtain y where "applyJSONPatch p (ig_Name ing) (remove_patch ing j) w = (y, w')"
        using run Some found False
        by (auto simp: ing_Deprovision_def listManaged_bind [OF ok] patchRemoveRule_patch elim!: wrapr_cases)
      moreover have "good_patch p (bucket_ok p R T) ids (remove_patch ing j) ing"
        using f(3) ids by (intro good_remove [OF bucket f(2) False]) simp
      ultimately show ?thesis by (intro patch_step [OF inv f(1)])
    qed
    from local_step_keeps [OF this inv] show ?thesis .
  qed
qed

lemma prune_step:
  assumes inv: "buckets_inv p (bucket_ok p R T) objs w" and mem: "ing \<in># objects p objs w"
    and run: "prune p ids ing w = (x, w')"
  shows "local_step p (bucket_ok p R T) ids objs ing w w'"
proof (cases "\<exists>r \<in> set (ig_Rules ing). im_ExtractRouteID (ing_mapper p) r \<in> ids")
  case False
  then have "w' = w" using run by (simp add: prune_cases)
  then show ?thesis using local_step_refl [OF inv mem] by simp
next
  case hit: True
  have bucket: "bucket_ok p R T ing" using inv mem by (simp add: buckets_inv_def)
  show ?thesis
  proof (cases "kept p ids ing = []")
    case True
    then have "\<forall>r \<in> set (ig_Rules ing). im_ExtractRouteID (ing_mapper p) r \<in> ids"
      by (simp add: kept_def filter_empty_conv)
    moreover have "deleteIngress p (ig_Name ing) w = (x, w')" using run hit True by (simp add: prune_cases)
    ultimately show ?thesis by (rule delete_step [OF inv mem])
  next
    case False
    obtain y where "applyJSONPatch p (ig_Name ing) (replace_patch (kept p ids ing) (kept_tls p ids ing)) w = (y, w')"
      using run hit False by (auto simp: prune_cases elim!: wrapr_cases)
    from patch_step [OF inv mem good_replace [OF bucket False] this] show ?thesis .
  qed
qed

lemma prune_all_keeps:
  assumes "buckets_inv p (bucket_ok p R T) objs w" "objects p objs w = mset ings + M"
    and "prune_all p ids ings w = (x, w')"
  shows "keeps p (bucket_ok p R T) ids objs w w'"
  using assms
proof (induction ings arbitrary: w M)
  case Nil
  then show ?case by auto
next
  case (Cons ing ings)
  obtain y v where step: "prune p ids ing w = (y, v)" by (cases "prune p ids ing w")
  have "ing \<in># objects p objs w" using Cons.prems(2) by simp
  from prune_step [OF Cons.prems(1) this step]
  have loc: "local_step p (bucket_ok p R T) ids objs ing w v" .
  note first = local_step_keeps [OF loc Cons.prems(1)]
  show ?case
  proof (cases y)
    case (Ret u)
    from loc Cons.prems(2) obtain N where "objects p objs v = mset ings + (N + M)"
      by (auto simp: local_step_def)
    moreover have "prune_all p ids ings v = (x, w')" using Cons.prems(3) step Ret by simp
    ultimately have "keeps p (bucket_ok p R T) ids objs v w'" by (rule Cons.IH [OF keeps_inv [OF first]])
    with first show ?thesis by (rule keeps_trans)
  qed (use first step Cons.prems(3) in simp_all)
qed

lemma ing_BatchDeprovision_keeps:
  assumes inv: "buckets_inv p (bucket_ok p R T) objs w" and run: "ing_BatchDeprovision p ids w = (x, w')"
  shows "keeps p (bucket_ok p R T) (set ids) objs w w'"
proof -
  have "cluster_ok p objs w" using inv by (simp add: buckets_inv_def)
  then have "prune_all p (set ids) (managed p objs w) w = (x, w')"
    using run by (simp add: ing_BatchDeprovision_def listManaged_bind)
  from prune_all_keeps [OF inv _ this, of "{#}"] show ?thesis by (simp add: objects_def)
qed

text \<open>The routes of a batch, mapped.\<close>

definition mapped_ok :: "'w IngressProvisioner \<Rightarrow> string set \<Rightarrow> mappedRoute \<Rightarrow> bool" where
  "mapped_ok p ids mr \<longleftrightarrow> R (mr_rule mr) \<and> (\<forall>t. mr_tls mr = Some t \<longrightarrow> T t) \<and>
     im_ExtractRouteID (ing_mapper p) (mr_rule mr) \<in> ids"

lemma mapped_ok_tls: "\<forall>mr \<in> set rs. mapped_ok p ids mr \<Longrightarrow> \<forall>t \<in> set (tls_entries rs). T t"
  by (auto simp: tls_entries_def map_filter_def mapped_ok_def)

lemma create_overflow_keeps:
  assumes "0 < ic_maxRoutesPerIngress (ing_cfg p)" "\<forall>mr \<in> set mapped. mapped_ok p ids mr"
    and "buckets_inv p (bucket_ok p R T) objs w" "create_overflow p mapped cursor k bs w = Some (x, w')"
  shows "keeps p (bucket_ok p R T) ids objs w w' \<and> (\<exists>N. objects p objs w' = N + objects p objs w)"
  using assms(3,4)
proof (induction "length mapped - cursor" arbitrary: cursor k bs w rule: less_induct)
  case less
  have none: "objects p objs w = {#} + objects p objs w" by simp
  show ?case
  proof (cases "cursor < length mapped")
    case False
    with less.prems(2) have "w' = w" by (simp add: create_overflow.simps [of _ _ cursor])
    with none less.prems(1) show ?thesis by blast
  next
    case True
    let ?m = "ic_maxRoutesPerIngress (ing_cfg p)"
    let ?stop = "min (int cursor + ?m) (int (length mapped))"
    let ?rs = "go_slice mapped cursor (nat ?stop)"
    have adv: "length mapped - nat ?stop < length mapped - cursor" "\<not> ?stop < int cursor"
      "nat ?stop \<le> length mapped" "int (nat ?stop) - int cursor \<le> ?m"
      using True assms(1) by auto
    have sub: "\<forall>mr \<in> set ?rs. mapped_ok p ids mr"
      using assms(2) unfolding go_slice_def by (meson in_set_dropD in_set_takeD)
    obtain y v where run: "createIngressWithRules p k (map mr_rule ?rs) (tls_entries ?rs) w = (y, v)"
      by (cases "createIngressWithRules p k (map mr_rule ?rs) (tls_entries ?rs) w")
    have fit: "int (length ?rs) \<le> ?m" using adv(2-4) by (simp add: length_go_slice)
    have "keeps p (bucket_ok p R T) ids objs w v" "\<exists>N. objects p objs v = N + objects p objs w"
      using sub mapped_ok_tls [OF sub] fit
      by (intro create_step [OF less.prems(1) run]; auto simp: bucket_ok_def fits_def mapped_ok_def)+
    then obtain N where one: "keeps p (bucket_ok p R T) ids objs w v" "objects p objs v = N + objects p objs w" by blast
    show ?thesis
    proof (cases y)
      case (Ret ing)
      then obtain bs2 where "create_overflow p mapped (nat ?stop) (Suc k) bs2 v = Some (x, w')"
        using less.prems(2) True adv(2) run by (subst (asm) create_overflow.simps) (simp add: Let_def)
      from less.hyps [OF adv(1) keeps_inv [OF one(1)] this]
      obtain K where K: "keeps p (bucket_ok p R T) ids objs v w'" "objects p objs w' = K + objects p objs v" by blast
      then have "objects p objs w' = (K + N) + objects p objs w" by (simp add: one(2))
      moreover have "keeps p (bucket_ok p R T) ids objs w w'" using one(1) K(1) by (rule keeps_trans)
      ultimately show ?thesis by blast
    next
      case (Fail e)
      then have "w' = v" using less.prems(2) True adv(2) run
        by (subst (asm) create_overflow.simps) (simp add: Let_def)
      with one show ?thesis by blast
    next
      case (Panic s)
      then have "w' = v" using less.prems(2) True adv(2) run
        by (subst (asm) create_overflow.simps) (simp add: Let_def)
      with one show ?thesis by blast
    qed
  qed
qed

lemma apply_batches_keeps:
  assumes "buckets_inv p (bucket_ok p R T) objs w" "apply_batches p certs bs rs w = (x, w')"
    and "distinct (map b_ingressName (filter b_needsPatch bs))"
    and "\<forall>b \<in> set (filter b_needsPatch bs). patchable p (objects p objs w) b"
    and "\<forall>b \<in> set bs. \<forall>mr \<in> set (b_routes b). mapped_ok p ids mr"
  shows "keeps p (bucket_ok p R T) ids objs w w'"
  using assms
proof (induction bs arbitrary: w rs)
  case Nil
  then show ?case by auto
next
  case (Cons b bs)
  show ?case
  proof (cases "b_needsPatch b")
    case False
    then have "apply_batches p certs bs (rs @ batch_results p certs b) w = (x, w')" using Cons.prems(2) by simp
    from Cons.IH [OF Cons.prems(1) this] Cons.prems(3-5) False show ?thesis by simp
  next
    case True
    let ?ps = "map add_rule (map mr_rule (b_routes b)) @ map add_tls (tls_entries (b_routes b))"
    obtain y v where run: "applyJSONPatch p (b_ingressName b) ?ps w = (y, v)"
      by (cases "applyJSONPatch p (b_ingressName b) ?ps w")
    from Cons.prems(4) True have "patchable p (objects p objs w) b" by simp
    then obtain ing where ing: "ing \<in># objects p objs w" "ig_Name ing = b_ingressName b"
      "int (length (ig_Rules ing)) + int (length (b_routes b)) \<le> ic_maxRoutesPerIngress (ing_cfg p)"
      by (auto simp: patchable_def)
    have bucket: "bucket_ok p R T ing" using Cons.prems(1) ing(1) by (simp add: buckets_inv_def)
    have routes: "\<forall>mr \<in> set (b_routes b). mapped_ok p ids mr" using Cons.prems(5) by simp
    have "good_patch p (bucket_ok p R T) ids ?ps ing"
      using routes mapped_ok_tls [OF routes] ing(3) by (intro good_add [OF bucket]) (auto simp: mapped_ok_def)
    from patch_step [OF Cons.prems(1) ing(1) this run [folded ing(2)]]
    have loc: "local_step p (bucket_ok p R T) ids objs ing w v" .
    note first = local_step_keeps [OF loc Cons.prems(1)]
    show ?thesis
    proof (cases y)
      case (Ret u)
      have rest: "apply_batches p certs bs (rs @ batch_results p certs b) v = (x, w')"
        using Cons.prems(2) True run Ret by (simp add: patchAddRules_def)
      from loc obtain M N where e: "objects p objs w = add_mset ing M" "objects p objs v = N + M"
        by (auto simp: local_step_def)
      have "patchable p (objects p objs v) c" if "c \<in> set (filter b_needsPatch bs)" for c
      proof -
        have "b_ingressName c \<noteq> ig_Name ing" using that Cons.prems(3) True ing(2) by (auto simp: image_iff)
        moreover have "patchable p (objects p objs w) c" using Cons.prems(4) True that by simp
        ultimately have "patchable p M c" using e(1) by (auto simp: patchable_def)
        then show ?thesis using e(2) patchable_mono by simp
      qed
      with Cons.IH [OF keeps_inv [OF first] rest] Cons.prems(3,5) True
      have "keeps p (bucket_ok p R T) ids objs v w'" by simp
      with first show ?thesis by (rule keeps_trans)
    qed (use first run True Cons.prems(2) in \<open>simp_all add: patchAddRules_def\<close>)
  qed
qed

lemma ing_BatchProvision_keeps:
  assumes p: "ing_mapper p = m" and inv: "buckets_inv p (bucket_ok p R T) objs w"
    and max: "0 < ic_maxRoutesPerIngress (ing_cfg p)"
    and ids: "\<And>req rule. req \<in> set routes \<Longrightarrow> im_MapRule m req = Inr rule \<Longrightarrow> im_ExtractRouteID m rule \<in> ids"
    and run: "ing_BatchProvision_run p routes certs w = Some (x, w')"
  shows "keeps p (bucket_ok p R T) ids objs w w'"
proof (cases "map_routes m routes []")
  case (Inl e)
  then have "w' = w" using run by (simp add: ing_BatchProvision_run_def p)
  with inv show ?thesis by blast
next
  case (Inr mapped)
  let ?max = "ic_maxRoutesPerIngress (ing_cfg p)"
  let ?ings = "sort_key (\<lambda>i. length (ig_Rules i)) (managed p objs w)"
  have ok: "cluster_ok p objs w" using inv by (simp add: buckets_inv_def)
  from map_routes_acc [OF Inr] have spec: "map mr_req mapped = routes"
    "\<forall>mr \<in> set mapped. im_MapRule m (mr_req mr) = Inr (mr_rule mr) \<and> map_tls_of m (mr_req mr) = Inr (mr_tls mr)"
    by auto
  have mapped: "\<forall>mr \<in> set mapped. mapped_ok p ids mr"
  proof
    fix mr assume mr: "mr \<in> set mapped"
    then have req: "mr_req mr \<in> set routes" using spec(1) by auto
    from spec(2) mr have s: "im_MapRule m (mr_req mr) = Inr (mr_rule mr)" "map_tls_of m (mr_req mr) = Inr (mr_tls mr)"
      by simp_all
    show "mapped_ok p ids mr"
      using mapped_rule [OF s(1)] map_tls_law [OF s(2)] ids [OF req s(1)] p by (simp add: mapped_ok_def)
  qed
  obtain c bs where fill: "fill_existing ?max mapped ?ings 0 [] = (c, bs)"
    by (cases "fill_existing ?max mapped ?ings 0 []")
  obtain y v where over: "create_overflow p mapped c (length (managed p objs w)) bs w = Some (y, v)"
    using create_overflow_returns [OF max] by (metis surj_pair)
  from create_overflow_keeps [OF max mapped inv over]
  obtain K where first: "keeps p (bucket_ok p R T) ids objs w v" "objects p objs v = K + objects p objs w" by blast
  show ?thesis
  proof (cases y)
    case (Ret bs')
    have appl: "apply_batches p certs bs' [] v = (x, w')"
      using run Inr fill over Ret ok p by (simp add: ing_BatchProvision_run_def)
    from fill_existing_new [OF fill managed_sorted_distinct [OF ok]] have bs: "distinct (map b_ingressName bs)"
      "\<forall>b \<in> set bs. batch_fits ?max ?ings b" by auto
    from fill_existing_covers [OF fill] have cov: "c \<le> length mapped" "covered bs = take c mapped"
      by (simp_all add: go_slice_def)
    from create_overflow_effect [OF max ok cov(1) over [unfolded Ret]]
    obtain new where new: "bs' = bs @ new" "\<forall>b \<in> set new. \<not> b_needsPatch b" "covered new = drop c mapped" by blast
    have "filter b_needsPatch bs = bs" using bs(2) by (intro filter_eq_self) (simp add: batch_fits_def)
    moreover have "filter b_needsPatch new = []" using new(2) by (intro filter_eq_Nil) simp
    ultimately have pending: "filter b_needsPatch bs' = bs" using new(1) by simp
    have "mset ?ings = objects p objs w" by (simp add: objects_def)
    then have patch: "\<forall>b \<in> set bs. patchable p (objects p objs v) b"
      using bs(2) batch_fits_patchable patchable_mono first(2) by metis
    have "covered bs' = mapped" using new(1,3) cov(2) by simp
    then have "\<forall>b \<in> set bs'. \<forall>mr \<in> set (b_routes b). mapped_ok p ids mr"
      using mapped by (auto simp: covered_def)
    with apply_batches_keeps [OF keeps_inv [OF first(1)] appl] pending bs(1) patch
    have "keeps p (bucket_ok p R T) ids objs v w'" by simp
    with first(1) show ?thesis by (rule keeps_trans)
  qed (use first run Inr fill over ok p in \<open>simp_all add: ing_BatchProvision_run_def\<close>)
qed

end

section \<open>Sequences of calls\<close>

text \<open>The calls of the interface, the world a call leaves whatever its outcome, and the IDs it names.\<close>

datatype prov_call =
    CallProvision RouteRequest "Certificate option"
  | CallDeprovision string
  | CallList
  | CallBatchProvision "RouteRequest list" "string \<rightharpoonup> Certificate"
  | CallBatchDeprovision "string list"

fun prov_exec :: "'w RouteProvisioner \<Rightarrow> prov_call \<Rightarrow> 'w \<Rightarrow> 'w" where
  "prov_exec prov (CallProvision req cert) w = snd (prov_Provision prov req cert w)"
| "prov_exec prov (CallDeprovision i) w = snd (prov_Deprovision prov i w)"
| "prov_exec prov CallList w = snd (prov_List prov w)"
| "prov_exec prov (CallBatchProvision reqs certs) w = snd (prov_BatchProvision prov reqs certs w)"
| "prov_exec prov (CallBatchDeprovision is) w = snd (prov_BatchDeprovision prov is w)"

definition prov_execs :: "'w RouteProvisioner \<Rightarrow> prov_call list \<Rightarrow> 'w \<Rightarrow> 'w" where
  "prov_execs prov calls = fold (prov_exec prov) calls"

fun call_ids :: "(RouteRequest \<Rightarrow> string) \<Rightarrow> prov_call \<Rightarrow> string set" where
  "call_ids rid (CallProvision req cert) = {rid req}"
| "call_ids rid (CallDeprovision i) = {i}"
| "call_ids rid CallList = {}"
| "call_ids rid (CallBatchProvision reqs certs) = rid ` set reqs"
| "call_ids rid (CallBatchDeprovision is) = set is"

definition calls_ids :: "(RouteRequest \<Rightarrow> string) \<Rightarrow> prov_call list \<Rightarrow> string set" where
  "calls_ids rid calls = (\<Union>c \<in> set calls. call_ids rid c)"

context bucket_law
begin

text \<open>\<open>ids\<close> contains the IDs that the call names and those of the rules it maps.\<close>

lemma prov_exec_keeps:
  assumes p: "ing_mapper p = m" and inv: "buckets_inv p (bucket_ok p R T) objs w"
    and max: "0 < ic_maxRoutesPerIngress (ing_cfg p)"
    and ids: "call_ids (im_RouteID m) c \<subseteq> ids"
      "\<And>req rule. im_MapRule m req = Inr rule \<Longrightarrow> im_RouteID m req \<in> ids \<Longrightarrow> im_ExtractRouteID m rule \<in> ids"
  shows "keeps p (bucket_ok p R T) ids objs w (prov_exec (ingress_provisioner p) c w)"
proof (cases c)
  case (CallProvision req cert)
  obtain x w' where run: "ing_Provision p req cert w = (x, w')" by (cases "ing_Provision p req cert w")
  have "im_RouteID m req \<in> ids" using ids(1) CallProvision by simp
  from ing_Provision_keeps [OF p inv max this _ run] this ids(2) CallProvision run show ?thesis
    by (simp add: ingress_provisioner_def)
next
  case (CallDeprovision i)
  obtain x w' where run: "ing_Deprovision p i w = (x, w')" by (cases "ing_Deprovision p i w")
  have "i \<in> ids" using ids(1) CallDeprovision by simp
  from ing_Deprovision_keeps [OF inv this run] CallDeprovision run show ?thesis
    by (simp add: ingress_provisioner_def)
next
  case CallList
  have "cluster_ok p objs w" using inv by (simp add: buckets_inv_def)
  with inv CallList show ?thesis by (auto simp: ingress_provisioner_def ing_List_run)
next
  case (CallBatchProvision reqs certs)
  obtain x w' where run: "ing_BatchProvision_run p reqs certs w = Some (x, w')"
    using ing_BatchProvision_run_returns [OF max] by (metis surj_pair)
  with ing_BatchProvision_keeps [OF p inv max _ run, of ids] ids CallBatchProvision show ?thesis
    by (auto simp: ingress_provisioner_def ing_BatchProvision_def)
next
  case (CallBatchDeprovision js)
  obtain x w' where run: "ing_BatchDeprovision p js w = (x, w')" by (cases "ing_BatchDeprovision p js w")
  have "keeps p (bucket_ok p R T) (set js) objs w w'" by (rule ing_BatchDeprovision_keeps [OF inv run])
  moreover have "set js \<subseteq> ids" using ids CallBatchDeprovision by simp
  ultimately show ?thesis using run CallBatchDeprovision keeps_mono by (simp add: ingress_provisioner_def)
qed

lemma prov_execs_keeps:
  assumes p: "ing_mapper p = m" and max: "0 < ic_maxRoutesPerIngress (ing_cfg p)"
    and law: "\<And>req rule. im_MapRule m req = Inr rule \<Longrightarrow> im_RouteID m req \<in> ids \<Longrightarrow> im_ExtractRouteID m rule \<in> ids"
  shows "buckets_inv p (bucket_ok p R T) objs w \<Longrightarrow> calls_ids (im_RouteID m) calls \<subseteq> ids \<Longrightarrow>
    keeps p (bucket_ok p R T) ids objs w (prov_execs (ingress_provisioner p) calls w)"
proof (induction calls arbitrary: w)
  case Nil
  then show ?case by (auto simp: prov_execs_def)
next
  case (Cons c calls)
  have sub: "call_ids (im_RouteID m) c \<subseteq> ids" "calls_ids (im_RouteID m) calls \<subseteq> ids"
    using Cons.prems(2) by (auto simp: calls_ids_def)
  let ?v = "prov_exec (ingress_provisioner p) c w"
  have first: "keeps p (bucket_ok p R T) ids objs w ?v"
    by (rule prov_exec_keeps [OF p Cons.prems(1) max sub(1) law])
  have "keeps p (bucket_ok p R T) ids objs ?v (prov_execs (ingress_provisioner p) calls ?v)"
    by (rule Cons.IH [OF keeps_inv [OF first] sub(2)])
  with first have "keeps p (bucket_ok p R T) ids objs w (prov_execs (ingress_provisioner p) calls ?v)"
    by (rule keeps_trans)
  then show ?case by (simp add: prov_execs_def)
qed

lemma prov_execs_inv:
  assumes "ing_mapper p = m" "0 < ic_maxRoutesPerIngress (ing_cfg p)" "buckets_inv p (bucket_ok p R T) objs w"
  shows "buckets_inv p (bucket_ok p R T) objs (prov_execs (ingress_provisioner p) calls w)"
  using keeps_inv [OF prov_execs_keeps [OF assms(1,2) _ assms(3), of UNIV]] by simp

end

section \<open>The laws for the mapper of the application, and for any mapper\<close>

text \<open>
  A rule of the application: one \<open>Prefix\<close> path, not empty, and a port of 32 bits. A TLS entry:
  one host and the secret named after it.
\<close>

definition app_rule_ok :: "IngressRule \<Rightarrow> bool" where
  "app_rule_ok rule \<longleftrightarrow> (case ir_Paths rule of
      [path] \<Rightarrow> ip_Path path \<noteq> '''' \<and> ip_PathType path = ''Prefix'' \<and>
        - (2 ^ 31) \<le> ip_ServicePort path \<and> ip_ServicePort path < 2 ^ 31
    | _ \<Rightarrow> False)"

definition app_tls_ok :: "AppIngressMapper \<Rightarrow> IngressTLS \<Rightarrow> bool" where
  "app_tls_ok m t \<longleftrightarrow> (case it_Hosts t of [h] \<Rightarrow> it_SecretName t = am_SecretNameFunc m h | _ \<Rightarrow> False)"

lemma to_int32_range: "- (2 ^ 31) \<le> to_int32 i \<and> to_int32 i < 2 ^ 31"
  using sint_range_size [of "word_of_int i :: 32 word"] by (simp add: to_int32_def word_size)

interpretation any_law: bucket_law m "\<lambda>_. True" "\<lambda>_. True" for m
  by unfold_locales simp_all

interpretation app_law: bucket_law "app_mapper m" app_rule_ok "app_tls_ok m" for m
proof
  fix req rule assume "im_MapRule (app_mapper m) req = Inr rule"
  then show "app_rule_ok rule"
    using to_int32_range by (auto simp: app_mapper_def app_MapRule.simps app_rule_ok_def Let_def
        split: list.splits if_splits)
next
  fix req t assume "im_MapTLS (app_mapper m) req = Inr (Some t)"
  then show "app_tls_ok m t" by (auto simp: app_mapper_def app_MapTLS_def app_tls_ok_def)
next
  fix t Q assume "app_tls_ok m t" "filter Q (it_Hosts t) \<noteq> []"
  then show "app_tls_ok m (t\<lparr>it_Hosts := filter Q (it_Hosts t)\<rparr>)"
    by (auto simp: app_tls_ok_def split: list.splits if_splits)
qed

section \<open>Properties\<close>

text \<open>
  C4: no sequence of calls, in which any call may fail half way, ever fills an Ingress beyond the
  configured number of rules, and none leaves an Ingress without rules.
\<close>

theorem ingress_capacity_bound:
  assumes "cluster_ok p objs w" and "0 < ic_maxRoutesPerIngress (ing_cfg p)"
    and "\<forall>ing \<in> set (managed p objs w).
      ig_Rules ing \<noteq> [] \<and> int (length (ig_Rules ing)) \<le> ic_maxRoutesPerIngress (ing_cfg p)"
  shows "\<forall>ing \<in> set (managed p objs (prov_execs (ingress_provisioner p) calls w)).
      1 \<le> length (ig_Rules ing) \<and> int (length (ig_Rules ing)) \<le> ic_maxRoutesPerIngress (ing_cfg p)"
proof -
  have "buckets_inv p (bucket_ok p (\<lambda>_. True) (\<lambda>_. True)) objs w"
    using assms(1,3) by (simp add: buckets_inv_def bucket_ok_def objects_def fits_def)
  from any_law.prov_execs_inv [OF refl assms(2) this]
  show ?thesis by (simp add: buckets_inv_def bucket_ok_def objects_def fits_def Suc_le_eq)
qed

text \<open>
  C12: whatever is called and however it ends, the managed Ingresses of the application stay well
  formed: every rule has one non-empty \<open>Prefix\<close> path and a port of 32 bits, and every TLS entry
  names one host with the secret of that host.
\<close>

theorem ingress_objects_well_formed:
  assumes "cluster_ok p objs w" and "0 < ic_maxRoutesPerIngress (ing_cfg p)" and "ing_mapper p = app_mapper m"
    and "\<forall>ing \<in> set (managed p objs w). bucket_ok p app_rule_ok (app_tls_ok m) ing"
  shows "\<forall>ing \<in> set (managed p objs (prov_execs (ingress_provisioner p) calls w)).
      bucket_ok p app_rule_ok (app_tls_ok m) ing"
proof -
  have "buckets_inv p (bucket_ok p app_rule_ok (app_tls_ok m)) objs w"
    using assms(1,4) by (simp add: buckets_inv_def objects_def)
  from app_law.prov_execs_inv [OF assms(3,2) this] show ?thesis by (simp add: buckets_inv_def objects_def)
qed

text \<open>
  C11: a sequence of calls changes no route that none of them names, even where calls fail: the
  rules with other IDs are exactly those of before.
\<close>

theorem ingress_calls_are_local:
  assumes "cluster_ok p objs w" and "0 < ic_maxRoutesPerIngress (ing_cfg p)" and "ing_mapper p = app_mapper m"
    and "\<forall>ing \<in> set (managed p objs w). bucket_ok p app_rule_ok (app_tls_ok m) ing"
    and "calls_ids app_RouteID calls \<subseteq> ids"
  shows "filter_mset (\<lambda>r. app_ExtractRouteID r \<notin> ids) (managed_rules p objs (prov_execs (ingress_provisioner p) calls w)) =
    filter_mset (\<lambda>r. app_ExtractRouteID r \<notin> ids) (managed_rules p objs w)"
proof -
  have inv: "buckets_inv p (bucket_ok p app_rule_ok (app_tls_ok m)) objs w"
    using assms(1,4) by (simp add: buckets_inv_def objects_def)
  have sub: "calls_ids (im_RouteID (app_mapper m)) calls \<subseteq> ids" using assms(5) by (simp add: app_mapper_def)
  have "im_ExtractRouteID (app_mapper m) rule \<in> ids"
    if "im_MapRule (app_mapper m) req = Inr rule" "im_RouteID (app_mapper m) req \<in> ids" for req rule
    using that app.extract_id [OF that(1)] by simp
  from app_law.prov_execs_keeps [OF assms(3,2) this inv sub]
  have "untouched p ids (managed_rules p objs (prov_execs (ingress_provisioner p) calls w)) =
      untouched p ids (managed_rules p objs w)"
    by (simp add: keeps_def)
  then show ?thesis by (simp add: untouched_def assms(3)) (simp add: app_mapper_def)
qed

section \<open>An instance: a batch that stops half way\<close>

text \<open>
  An Ingress with one free place and no TLS: the batch creates a second Ingress for the two routes
  that do not fit, and then the patch that adds the first route with its TLS entry is refused.
\<close>

definition half_calls :: "prov_call list" where
  "half_calls = [CallBatchProvision [demo_route ''b'' True, demo_route ''c'' True, demo_route ''d'' True] Map.empty]"

lemma demo_half_batch:
  "prov_execs (ingress_provisioner demo) half_calls [demo_ing 0 [''a''] []] =
     [demo_ing 0 [''a''] [], demo_ing 1 [''c'', ''d''] [''c'', ''d'']]"
proof -
  let ?w = "[demo_ing 0 [''a''] []]"
  have l: "listManagedIngresses demo ?w = (Ret ?w, ?w)"
    using listManagedIngresses_run [of demo "\<lambda>os. os" ?w] by (simp add: demo_cluster_ok managed_def)
  have refused: "patched (map add_rule [demo_rule ''b''] @ map add_tls [demo_tls ''b'']) (demo_ing 0 [''a''] []) = None"
    by (subst patched_add) simp_all
  have "applyJSONPatch demo (app_IngressName 0) [add_rule (demo_rule ''b''), add_tls (demo_tls ''b'')]
      [demo_ing 0 [''a''] [], demo_ing 1 [''c'', ''d''] [''c'', ''d'']] =
    (Fail (ErrExt ''invalid''), [demo_ing 0 [''a''] [], demo_ing 1 [''c'', ''d''] [''c'', ''d'']])"
    using refused by (simp add: applyJSONPatch_def mem_api_def mem_patch_def)
  moreover have "new_ingress demo (Suc 0) [demo_rule ''c'', demo_rule ''d''] [demo_tls ''c'', demo_tls ''d''] =
      demo_ing 1 [''c'', ''d''] [''c'', ''d'']" by (simp add: demo_ing_def)
  ultimately show ?thesis
    by (simp add: prov_execs_def half_calls_def ingress_provisioner_def ing_BatchProvision_def
      ing_BatchProvision_run_def l create_overflow.simps demo_createIngress go_slice_def
      tls_entries_def map_filter_simps patchAddRules_def)
qed

text \<open>The properties on this batch.\<close>

lemma demo_start_ok:
  "cluster_ok demo (\<lambda>os. os) [demo_ing 0 [''a''] []]" "managed demo (\<lambda>os. os) [demo_ing 0 [''a''] []] = [demo_ing 0 [''a''] []]"
  by (simp_all add: demo_cluster_ok managed_def)

definition demo_app :: AppIngressMapper where
  "demo_app = \<lparr>am_SecretNameFunc = DefaultSecretName, am_IngressClassName = '''', am_ExtraAnnotations = Map.empty\<rparr>"

lemma demo_start_bucket: "bucket_ok demo app_rule_ok (app_tls_ok demo_app) (demo_ing 0 [''a''] [])"
  by (simp add: bucket_ok_def fits_def app_rule_ok_def demo_rule_def)

lemma demo_mapper: "ing_mapper demo = app_mapper demo_app"
  by (simp add: demo_def demo_app_def)

theorem ingress_capacity_bound_witness:
  "(1 \<le> length (ig_Rules (demo_ing 0 [''a''] [])) \<and> length (ig_Rules (demo_ing 0 [''a''] [])) \<le> 2) \<and>
   (1 \<le> length (ig_Rules (demo_ing 1 [''c'', ''d''] [''c'', ''d''])) \<and>
    length (ig_Rules (demo_ing 1 [''c'', ''d''] [''c'', ''d''])) \<le> 2)"
  using ingress_capacity_bound [OF demo_start_ok(1), of half_calls]
  by (simp add: demo_start_ok(2) demo_half_batch managed_def)

theorem ingress_objects_well_formed_witness:
  "bucket_ok demo app_rule_ok (app_tls_ok demo_app) (demo_ing 0 [''a''] []) \<and>
   bucket_ok demo app_rule_ok (app_tls_ok demo_app) (demo_ing 1 [''c'', ''d''] [''c'', ''d''])"
  using ingress_objects_well_formed [OF demo_start_ok(1) _ demo_mapper, of half_calls]
  by (simp add: demo_start_ok(2) demo_half_batch demo_start_bucket managed_def)

theorem ingress_calls_are_local_witness:
  "filter_mset (\<lambda>r. app_ExtractRouteID r \<notin> {''routes-b'', ''routes-c'', ''routes-d''})
     (managed_rules demo (\<lambda>os. os) [demo_ing 0 [''a''] [], demo_ing 1 [''c'', ''d''] [''c'', ''d'']]) = {#demo_rule ''a''#}"
proof -
  have "calls_ids app_RouteID half_calls \<subseteq> {''routes-b'', ''routes-c'', ''routes-d''}"
    by (simp add: calls_ids_def half_calls_def app_RouteID_def)
  from ingress_calls_are_local [OF demo_start_ok(1) _ demo_mapper _ this]
  show ?thesis
    by (simp add: demo_start_ok(2) demo_half_batch demo_start_bucket managed_rules_def rules_of_def app_ExtractRouteID_def)
qed

end
