(* ===== verification/Nitro.thy ===== *)
theory Nitro
  imports Reconciler "HOL-Library.AList"
begin

text \<open>
  \<open>impl/provisioner-netscaler/nitro.go\<close>, \<open>mapper.go\<close>, \<open>options.go\<close> and \<open>provisioner.go\<close>:
  the client of the Nitro REST API and the provisioner that executes the operations of a
  resource mapper. The HTTP client and the JSON parser are parameters, fields of the record
  \<open>NitroClient\<close>; a request body is the JSON value that \<open>encoding/json\<close> serialises.
\<close>

section \<open>JSON and HTTP\<close>

datatype json = JNull | JNum int | JStr string | JArr "json list" | JObj "(string \<times> json) list"

record http_request =
  rq_Method :: string
  rq_URL :: string
  rq_Body :: "json option"
  rq_ContentType :: string
  rq_BasicAuth :: "string \<times> string"

record http_reply =
  rp_StatusCode :: int
  rp_Body :: string

section \<open>Operations\<close>

type_synonym Action = string

definition ActionAdd :: Action where "ActionAdd = ''add''"
definition ActionUpdate :: Action where "ActionUpdate = ''update''"
definition ActionDelete :: Action where "ActionDelete = ''delete''"
definition ActionBind :: Action where "ActionBind = ''bind''"
definition ActionUnbind :: Action where "ActionUnbind = ''unbind''"

lemmas action_defs = ActionAdd_def ActionUpdate_def ActionDelete_def ActionBind_def ActionUnbind_def

record NitroResource =
  nr_Type :: string
  nr_Name :: string
  nr_Properties :: "(string \<times> json) list"

record NitroOperation =
  no_Action :: Action
  no_Resource :: NitroResource

text \<open>
  \<open>nc_NewRequest\<close> is the error of \<open>http.NewRequestWithContext\<close> for a URL, if any;
  \<open>nc_Do\<close> the HTTP client; \<open>nc_Parse\<close> the JSON parser.
\<close>

record 'w NitroClient =
  nc_endpoint :: string
  nc_username :: string
  nc_password :: string
  nc_NewRequest :: "string \<Rightarrow> gerror option"
  nc_Do :: "http_request \<Rightarrow> ('w, http_reply) svc"
  nc_Parse :: "string \<Rightarrow> gerror + json"

definition buildPayload :: "NitroResource \<Rightarrow> (string \<times> json) list" where
  "buildPayload res =
     [(nr_Type res, JObj (foldl (\<lambda>m kv. AList.update (fst kv) (snd kv) m)
        [(''name'', JStr (nr_Name res))] (nr_Properties res)))]"

text \<open>The request, with the headers that \<open>do\<close> and \<open>List\<close> set.\<close>

definition nitro_request :: "'w NitroClient \<Rightarrow> string \<Rightarrow> string \<Rightarrow> json option \<Rightarrow> http_request" where
  "nitro_request c method url body =
     \<lparr>rq_Method = method, rq_URL = url, rq_Body = body, rq_ContentType = ''application/json'',
      rq_BasicAuth = (nc_username c, nc_password c)\<rparr>"

lemma nitro_request_simps [simp]:
  "rq_Method (nitro_request c m u b) = m" "rq_URL (nitro_request c m u b) = u" "rq_Body (nitro_request c m u b) = b"
  by (simp_all add: nitro_request_def)

definition send_request ::
  "'w NitroClient \<Rightarrow> string \<Rightarrow> string \<Rightarrow> string \<Rightarrow> json option \<Rightarrow> ('w, http_reply) act" where
  "send_request c what method url body =
     (case nc_NewRequest c url of
        Some e \<Rightarrow> fail (ErrWrap ''create request'' e)
      | None \<Rightarrow> wrapr what (ext (nc_Do c (nitro_request c method url body))) (\<lambda>resp.
          if rp_StatusCode resp \<ge> 400
          then fail (ErrStatus (rp_StatusCode resp) method url (rp_Body resp))
          else ret resp))"

text \<open>\<open>NitroError\<close> is the constructor \<open>ErrStatus\<close>; its text, for a status as HTTP has them.\<close>

fun NitroError_Error :: "gerror \<Rightarrow> string option" where
  "NitroError_Error (ErrStatus code method url body) =
     Some (''nitro '' @ method @ '' '' @ url @ '' returned '' @ itoa (nat code) @ '': '' @ body)"
| "NitroError_Error _ = None"

definition nitro_do :: "'w NitroClient \<Rightarrow> string \<Rightarrow> string \<Rightarrow> json option \<Rightarrow> ('w, unit) act" where
  "nitro_do c method url body =
     bindr (send_request c ''nitro request failed'' method url body) (\<lambda>_. ret ())"

text \<open>A refused request is reported with all that is known of it.\<close>

lemma nitro_do_refused:
  assumes "nc_NewRequest c url = None"
    and "nc_Do c (nitro_request c method url body) w = (Inr resp, w')" and "400 \<le> rp_StatusCode resp"
  shows "\<exists>e. nitro_do c method url body w = (Fail e, w') \<and> NitroError_Error e =
    Some (''nitro '' @ method @ '' '' @ url @ '' returned '' @ itoa (nat (rp_StatusCode resp)) @ '': '' @ rp_Body resp)"
  using assms by (simp add: nitro_do_def send_request_def act_defs ext_def)

definition nitro_url :: "'w NitroClient \<Rightarrow> string" where
  "nitro_url c = nc_endpoint c @ ''/nitro/v1/config/''"

definition doPost :: "'w NitroClient \<Rightarrow> NitroResource \<Rightarrow> ('w, unit) act" where
  "doPost c res = nitro_do c ''POST'' (nitro_url c @ nr_Type res) (Some (JObj (buildPayload res)))"

definition doPut :: "'w NitroClient \<Rightarrow> NitroResource \<Rightarrow> ('w, unit) act" where
  "doPut c res = nitro_do c ''PUT'' (nitro_url c @ nr_Type res) (Some (JObj (buildPayload res)))"

definition doDelete :: "'w NitroClient \<Rightarrow> NitroResource \<Rightarrow> ('w, unit) act" where
  "doDelete c res = nitro_do c ''DELETE'' (nitro_url c @ nr_Type res @ ''/'' @ nr_Name res) None"

definition Execute :: "'w NitroClient \<Rightarrow> NitroOperation \<Rightarrow> ('w, unit) act" where
  "Execute c opn =
     (if no_Action opn = ActionAdd then doPost c (no_Resource opn)
      else if no_Action opn = ActionUpdate then doPut c (no_Resource opn)
      else if no_Action opn = ActionDelete then doDelete c (no_Resource opn)
      else if no_Action opn = ActionBind \<or> no_Action opn = ActionUnbind then doPost c (no_Resource opn)
      else fail (ErrMsg (''unknown action: '' @ no_Action opn)))"

text \<open>
  \<open>List\<close>: the reply is decoded into a map of raw messages, the member of the resource type
  into a slice of maps; null decodes into a nil map or slice.
\<close>

fun json_object :: "json \<Rightarrow> gerror + (string \<times> json) list" where
  "json_object (JObj kvs) = Inr kvs"
| "json_object JNull = Inr []"
| "json_object _ = Inl (ErrExt ''json: cannot unmarshal'')"

fun json_objects :: "json list \<Rightarrow> gerror + (string \<times> json) list list" where
  "json_objects [] = Inr []"
| "json_objects (j # js) =
     (case json_object j of
        Inl e \<Rightarrow> Inl e
      | Inr x \<Rightarrow> (case json_objects js of Inl e \<Rightarrow> Inl e | Inr xs \<Rightarrow> Inr (x # xs)))"

fun json_maps :: "json \<Rightarrow> gerror + (string \<times> json) list list" where
  "json_maps (JArr js) = json_objects js"
| "json_maps JNull = Inr []"
| "json_maps _ = Inl (ErrExt ''json: cannot unmarshal'')"

definition decode_map :: "gerror + json \<Rightarrow> gerror + (string \<times> json) list" where
  "decode_map r = (case r of Inl e \<Rightarrow> Inl e | Inr j \<Rightarrow> json_object j)"

text \<open>A repeated key of an object: the last one wins.\<close>

definition json_get :: "(string \<times> json) list \<Rightarrow> string \<Rightarrow> json option" where
  "json_get kvs k = map_of (rev kvs) k"

definition list_url :: "'w NitroClient \<Rightarrow> string \<Rightarrow> string \<Rightarrow> string" where
  "list_url c resourceType filt =
     nitro_url c @ resourceType @ (if filt \<noteq> '''' then ''?filter='' @ filt else '''')"

definition nitro_List ::
  "'w NitroClient \<Rightarrow> string \<Rightarrow> string \<Rightarrow> ('w, (string \<times> json) list list) act" where
  "nitro_List c resourceType filt =
     bindr (send_request c ''nitro list request failed'' ''GET'' (list_url c resourceType filt) None) (\<lambda>resp.
       (case decode_map (nc_Parse c (rp_Body resp)) of
          Inl e \<Rightarrow> fail (ErrWrap ''decode response'' e)
        | Inr result \<Rightarrow>
          (case json_get result resourceType of
             None \<Rightarrow> ret []
           | Some raw \<Rightarrow>
             (case json_maps raw of
                Inl e \<Rightarrow> fail (ErrWrap ''unmarshal resources'' e)
              | Inr resources \<Rightarrow> ret resources))))"

definition batch_payload :: "NitroOperation \<Rightarrow> json" where
  "batch_payload opn =
     JObj (AList.update ''params'' (JObj [(''action'', JStr (no_Action opn))]) (buildPayload (no_Resource opn)))"

definition batch_body :: "NitroOperation list \<Rightarrow> json" where
  "batch_body ops = JObj [(''params'', JObj [(''action'', JStr ''batch'')]), (''batch'', JArr (map batch_payload ops))]"

definition BatchExecute :: "'w NitroClient \<Rightarrow> NitroOperation list \<Rightarrow> ('w, unit) act" where
  "BatchExecute c ops =
     (if ops = [] then ret () else nitro_do c ''POST'' (nitro_url c) (Some (batch_body ops)))"

section \<open>The provisioner\<close>

record ResourceMapper =
  rm_MapProvision :: "RouteRequest \<Rightarrow> Certificate option \<Rightarrow> gerror + NitroOperation list"
  rm_MapDeprovision :: "string \<Rightarrow> gerror + NitroOperation list"
  rm_RouteID :: "RouteRequest \<Rightarrow> string"
  rm_MapBatchProvision :: "RouteRequest list \<Rightarrow> (string \<rightharpoonup> Certificate) \<Rightarrow> gerror + NitroOperation list"
  rm_MapBatchDeprovision :: "string list \<Rightarrow> gerror + NitroOperation list"
  rm_MapList :: "string \<times> string"

record 'w NetscalerProvisioner =
  ns_client :: "'w NitroClient"
  ns_mapper :: ResourceMapper

definition ns_Name :: string where
  "ns_Name = ''netscaler-cpx''"

text \<open>The loop of \<open>Provision\<close> and \<open>Deprovision\<close>: the first failing operation ends it.\<close>

definition op_failed :: "nat \<Rightarrow> NitroOperation \<Rightarrow> string" where
  "op_failed i opn = ''operation '' @ itoa i @ '' ('' @ no_Action opn @ '' '' @ nr_Type (no_Resource opn) @
     ''/'' @ nr_Name (no_Resource opn) @ '') failed''"

fun exec_ops :: "'w NitroClient \<Rightarrow> nat \<Rightarrow> NitroOperation list \<Rightarrow> ('w, unit) act" where
  "exec_ops c i [] = ret ()"
| "exec_ops c i (opn # ops) = wrapr (op_failed i opn) (Execute c opn) (\<lambda>_. exec_ops c (Suc i) ops)"

definition ns_route ::
  "'w NetscalerProvisioner \<Rightarrow> RouteRequest \<Rightarrow> Certificate option \<Rightarrow> ProvisionedRoute" where
  "ns_route p req cert =
     \<lparr>pr_RouteID = rm_RouteID (ns_mapper p) req, pr_Host = rr_Host req, pr_GatewayID = nc_endpoint (ns_client p),
      pr_CertificateID = (case cert of None \<Rightarrow> '''' | Some c \<Rightarrow> crt_Host c), pr_Status = ''active'',
      pr_ProviderName = ns_Name\<rparr>"

definition ns_Provision ::
  "'w NetscalerProvisioner \<Rightarrow> RouteRequest \<Rightarrow> Certificate option \<Rightarrow> ('w, ProvisionedRoute option) act" where
  "ns_Provision p req cert =
     (case rm_MapProvision (ns_mapper p) req cert of
        Inl e \<Rightarrow> fail (ErrWrap ''map provision operations'' e)
      | Inr ops \<Rightarrow> bindr (exec_ops (ns_client p) 0 ops) (\<lambda>_. ret (Some (ns_route p req cert))))"

definition ns_Deprovision :: "'w NetscalerProvisioner \<Rightarrow> string \<Rightarrow> ('w, unit) act" where
  "ns_Deprovision p routeID =
     (case rm_MapDeprovision (ns_mapper p) routeID of
        Inl e \<Rightarrow> fail (ErrWrap ''map deprovision operations'' e)
      | Inr ops \<Rightarrow> exec_ops (ns_client p) 0 ops)"

definition listed_name :: "(string \<times> json) list \<Rightarrow> string" where
  "listed_name res = (case json_get res ''name'' of Some (JStr s) \<Rightarrow> s | _ \<Rightarrow> '''')"

text \<open>The composite literal sets neither \<open>Host\<close> nor \<open>CertificateID\<close>.\<close>

definition ns_listed :: "'w NetscalerProvisioner \<Rightarrow> (string \<times> json) list \<Rightarrow> ProvisionedRoute" where
  "ns_listed p res =
     \<lparr>pr_RouteID = listed_name res, pr_Host = '''', pr_GatewayID = nc_endpoint (ns_client p),
      pr_CertificateID = '''', pr_Status = ''active'', pr_ProviderName = ns_Name\<rparr>"

definition ns_List :: "'w NetscalerProvisioner \<Rightarrow> ('w, ProvisionedRoute list) act" where
  "ns_List p =
     (case rm_MapList (ns_mapper p) of (resourceType, namePrefix) \<Rightarrow>
        wrapr (''list '' @ resourceType @ '' resources'')
          (nitro_List (ns_client p) resourceType (''name:'' @ namePrefix))
          (\<lambda>resources. ret (map (ns_listed p) resources)))"

definition ns_BatchProvision ::
  "'w NetscalerProvisioner \<Rightarrow> RouteRequest list \<Rightarrow> (string \<rightharpoonup> Certificate) \<Rightarrow> ('w, ProvisionedRoute list) act" where
  "ns_BatchProvision p routes certs =
     (case rm_MapBatchProvision (ns_mapper p) routes certs of
        Inl e \<Rightarrow> fail (ErrWrap ''map batch provision operations'' e)
      | Inr ops \<Rightarrow> wrapr ''batch execute failed'' (BatchExecute (ns_client p) ops)
          (\<lambda>_. ret (map (\<lambda>req. ns_route p req (certs (rr_Host req))) routes)))"

definition ns_BatchDeprovision :: "'w NetscalerProvisioner \<Rightarrow> string list \<Rightarrow> ('w, unit) act" where
  "ns_BatchDeprovision p routeIDs =
     (case rm_MapBatchDeprovision (ns_mapper p) routeIDs of
        Inl e \<Rightarrow> fail (ErrWrap ''map batch deprovision operations'' e)
      | Inr ops \<Rightarrow> BatchExecute (ns_client p) ops)"

definition netscaler_provisioner :: "'w NetscalerProvisioner \<Rightarrow> 'w RouteProvisioner" where
  "netscaler_provisioner p =
     \<lparr>prov_Provision = ns_Provision p, prov_Deprovision = ns_Deprovision p, prov_List = ns_List p,
      prov_BatchProvision = ns_BatchProvision p, prov_BatchDeprovision = ns_BatchDeprovision p,
      prov_Name = ns_Name\<rparr>"

section \<open>Options\<close>

record 'h ns_config =
  nsc_endpoint :: string
  nsc_username :: string
  nsc_password :: string
  nsc_httpClient :: "'h option"

definition ns_WithEndpoint :: "string \<Rightarrow> 'h ns_config \<Rightarrow> 'h ns_config" where
  "ns_WithEndpoint url c = c\<lparr>nsc_endpoint := url\<rparr>"

definition ns_WithCredentials :: "string \<Rightarrow> string \<Rightarrow> 'h ns_config \<Rightarrow> 'h ns_config" where
  "ns_WithCredentials u p c = c\<lparr>nsc_username := u, nsc_password := p\<rparr>"

definition ns_WithHTTPClient :: "'h option \<Rightarrow> 'h ns_config \<Rightarrow> 'h ns_config" where
  "ns_WithHTTPClient h c = c\<lparr>nsc_httpClient := h\<rparr>"

text \<open>\<open>insecure\<close> is the HTTP client whose TLS configuration skips the verification.\<close>

definition ns_WithInsecureSkipVerify :: "'h \<Rightarrow> 'h ns_config \<Rightarrow> 'h ns_config" where
  "ns_WithInsecureSkipVerify insecure c = c\<lparr>nsc_httpClient := Some insecure\<rparr>"

text \<open>\<open>mk\<close> makes a client of an HTTP client; \<open>dflt\<close> is \<open>http.DefaultClient\<close>.\<close>

definition NewNitroClient ::
  "('h \<Rightarrow> string \<Rightarrow> string \<Rightarrow> string \<Rightarrow> 'w NitroClient) \<Rightarrow> 'h \<Rightarrow> string \<Rightarrow> string \<Rightarrow> string \<Rightarrow> 'h option \<Rightarrow> 'w NitroClient" where
  "NewNitroClient mk dflt endpoint username password httpClient =
     mk (case httpClient of None \<Rightarrow> dflt | Some h \<Rightarrow> h) endpoint username password"

definition ns_New ::
  "('h \<Rightarrow> string \<Rightarrow> string \<Rightarrow> string \<Rightarrow> 'w NitroClient) \<Rightarrow> 'h \<Rightarrow> ResourceMapper
   \<Rightarrow> ('h ns_config \<Rightarrow> 'h ns_config) list \<Rightarrow> 'w NetscalerProvisioner" where
  "ns_New mk dflt mapper opts =
     (let cfg = foldl (\<lambda>c opt. opt c)
        \<lparr>nsc_endpoint = '''', nsc_username = '''', nsc_password = '''', nsc_httpClient = None\<rparr> opts in
      \<lparr>ns_client = NewNitroClient mk dflt (nsc_endpoint cfg) (nsc_username cfg) (nsc_password cfg) (nsc_httpClient cfg),
       ns_mapper = mapper\<rparr>)"

end
