(* ===== verification/NetscalerMapping.thy ===== *)
theory NetscalerMapping
  imports Nitro
begin

text \<open>
  \<open>cmd/routes-provisioner/internal/provisioner/netscaler_mapper.go\<close>: the operations that create
  and remove a route on the appliance, Go's \<open>base64.StdEncoding\<close> with a decoder, and the contract
  of a resource mapper discharged for it.
\<close>

section \<open>Base64\<close>

definition b64_alphabet :: string where
  "b64_alphabet = ''ABCDEFGHIJKLMNOPQRSTUVWXYZabcdefghijklmnopqrstuvwxyz0123456789+/''"

definition b64_char :: "nat \<Rightarrow> char" where
  "b64_char n = b64_alphabet ! n"

abbreviation byte_of :: "char \<Rightarrow> nat" where
  "byte_of c \<equiv> of_char c"

fun EncodeToString :: "string \<Rightarrow> string" where
  "EncodeToString [] = []"
| "EncodeToString [a] =
     [b64_char (byte_of a div 4), b64_char (byte_of a mod 4 * 16), CHR ''='', CHR ''='']"
| "EncodeToString [a, b] =
     [b64_char (byte_of a div 4), b64_char (byte_of a mod 4 * 16 + byte_of b div 16),
      b64_char (byte_of b mod 16 * 4), CHR ''='']"
| "EncodeToString (a # b # c # cs) =
     b64_char (byte_of a div 4) # b64_char (byte_of a mod 4 * 16 + byte_of b div 16) #
     b64_char (byte_of b mod 16 * 4 + byte_of c div 64) # b64_char (byte_of c mod 64) # EncodeToString cs"

section \<open>The mapper\<close>

definition nm_RouteID :: "RouteRequest \<Rightarrow> string" where
  "nm_RouteID req = ''routes-'' @ ReplaceAll1 (rr_Host req) CHR ''.'' ''-''"

text \<open>A composite literal of an operation.\<close>

definition nop :: "Action \<Rightarrow> string \<Rightarrow> string \<Rightarrow> (string \<times> json) list \<Rightarrow> NitroOperation" where
  "nop a t n props =
     \<lparr>no_Action = a, no_Resource = \<lparr>nr_Type = t, nr_Name = n, nr_Properties = props\<rparr>\<rparr>"

definition nm_file_op :: "string \<Rightarrow> string \<Rightarrow> NitroOperation" where
  "nm_file_op fileName content =
     nop ActionAdd ''systemfile'' fileName
       [(''filename'', JStr fileName), (''filelocation'', JStr ''/nsconfig/ssl''),
        (''filecontent'', JStr (EncodeToString content)), (''fileencoding'', JStr ''BASE64'')]"

definition nm_cert_ops :: "string \<Rightarrow> Certificate option \<Rightarrow> NitroOperation list" where
  "nm_cert_ops i cert =
     (case cert of None \<Rightarrow> []
      | Some c \<Rightarrow>
          [nm_file_op (i @ ''.crt'') (crt_CertPEM c), nm_file_op (i @ ''.key'') (crt_KeyPEM c),
           nop ActionAdd ''sslcertkey'' (i @ ''-cert'')
             [(''cert'', JStr (''/nsconfig/ssl/'' @ i @ ''.crt'')), (''key'', JStr (''/nsconfig/ssl/'' @ i @ ''.key''))]])"

definition nm_vserver_op :: "string \<Rightarrow> NitroOperation" where
  "nm_vserver_op i =
     nop ActionAdd ''lbvserver'' i
       [(''servicetype'', JStr ''SSL''), (''ipv46'', JStr ''0.0.0.0''), (''port'', JNum 443),
        (''lbmethod'', JStr ''ROUNDROBIN'')]"

definition svc_name :: "string \<Rightarrow> nat \<Rightarrow> string" where
  "svc_name i k = i @ ''-svc-'' @ itoa k"

fun nm_backend_ops :: "string \<Rightarrow> nat \<Rightarrow> Backend list \<Rightarrow> NitroOperation list" where
  "nm_backend_ops i k [] = []"
| "nm_backend_ops i k (b # bs) =
     [nop ActionAdd ''service'' (svc_name i k)
        [(''servername'', JStr (be_ServiceName b)), (''port'', JNum (be_Port b)), (''servicetype'', JStr ''HTTP'')],
      nop ActionBind ''lbvserver_service_binding'' i
        [(''servicename'', JStr (svc_name i k)), (''weight'', JNum (be_Weight b))]]
     @ nm_backend_ops i (Suc k) bs"

definition nm_bind_cert_ops :: "string \<Rightarrow> Certificate option \<Rightarrow> NitroOperation list" where
  "nm_bind_cert_ops i cert =
     (case cert of None \<Rightarrow> []
      | Some c \<Rightarrow> [nop ActionBind ''sslvserver_sslcertkey_binding'' i [(''certkeyname'', JStr (i @ ''-cert''))]])"

definition nm_MapProvision :: "RouteRequest \<Rightarrow> Certificate option \<Rightarrow> gerror + NitroOperation list" where
  "nm_MapProvision req cert =
     (let i = nm_RouteID req in
      Inr (nm_cert_ops i cert @ [nm_vserver_op i] @ nm_backend_ops i 0 (rr_Backends req) @ nm_bind_cert_ops i cert))"

definition nm_MapDeprovision :: "string \<Rightarrow> gerror + NitroOperation list" where
  "nm_MapDeprovision routeID =
     Inr [nop ActionUnbind ''sslvserver_sslcertkey_binding'' routeID [(''certkeyname'', JStr (routeID @ ''-cert''))],
          nop ActionDelete ''lbvserver'' routeID [],
          nop ActionDelete ''sslcertkey'' (routeID @ ''-cert'') [],
          nop ActionDelete ''systemfile'' (routeID @ ''.crt'') [(''filelocation'', JStr ''/nsconfig/ssl'')],
          nop ActionDelete ''systemfile'' (routeID @ ''.key'') [(''filelocation'', JStr ''/nsconfig/ssl'')]]"

definition nm_MapList :: "string \<times> string" where
  "nm_MapList = (''lbvserver'', ''routes-'')"

text \<open>The loops of the two batch functions, with the operations gathered so far.\<close>

fun nm_batch_provision ::
  "RouteRequest list \<Rightarrow> (string \<rightharpoonup> Certificate) \<Rightarrow> NitroOperation list \<Rightarrow> gerror + NitroOperation list" where
  "nm_batch_provision [] certs allOps = Inr allOps"
| "nm_batch_provision (route # routes) certs allOps =
     (case nm_MapProvision route (certs (rr_Host route)) of
        Inl e \<Rightarrow> Inl e
      | Inr ops \<Rightarrow> nm_batch_provision routes certs (allOps @ ops))"

definition nm_MapBatchProvision ::
  "RouteRequest list \<Rightarrow> (string \<rightharpoonup> Certificate) \<Rightarrow> gerror + NitroOperation list" where
  "nm_MapBatchProvision routes certs = nm_batch_provision routes certs []"

fun nm_batch_deprovision :: "string list \<Rightarrow> NitroOperation list \<Rightarrow> gerror + NitroOperation list" where
  "nm_batch_deprovision [] allOps = Inr allOps"
| "nm_batch_deprovision (i # routeIDs) allOps =
     (case nm_MapDeprovision i of
        Inl e \<Rightarrow> Inl e
      | Inr ops \<Rightarrow> nm_batch_deprovision routeIDs (allOps @ ops))"

definition nm_MapBatchDeprovision :: "string list \<Rightarrow> gerror + NitroOperation list" where
  "nm_MapBatchDeprovision routeIDs = nm_batch_deprovision routeIDs []"

definition netscaler_mapper :: ResourceMapper where
  "netscaler_mapper = \<lparr>rm_MapProvision = nm_MapProvision, rm_MapDeprovision = nm_MapDeprovision,
     rm_RouteID = nm_RouteID, rm_MapBatchProvision = nm_MapBatchProvision,
     rm_MapBatchDeprovision = nm_MapBatchDeprovision, rm_MapList = nm_MapList\<rparr>"

section \<open>The contract of a mapper\<close>

text \<open>A batch combines the operations of its routes, in order.\<close>

locale resource_mapper =
  fixes m :: ResourceMapper
  assumes batch_provision: "map (\<lambda>r. rm_MapProvision m r (cs (rr_Host r))) rs = map Inr opss \<Longrightarrow>
      rm_MapBatchProvision m rs cs = Inr (concat opss)"
    and batch_deprovision: "map (rm_MapDeprovision m) ids = map Inr opss \<Longrightarrow>
      rm_MapBatchDeprovision m ids = Inr (concat opss)"
begin

text \<open>A batch is one request, whose operations are those of the single calls, in order.\<close>

lemma batch_is_one_request:
  assumes "ns_mapper p = m" "map (\<lambda>r. rm_MapProvision m r (cs (rr_Host r))) rs = map Inr opss"
  shows "ns_BatchProvision p rs cs w =
    wrapr ''batch execute failed'' (BatchExecute (ns_client p) (concat opss))
      (\<lambda>_. ret (map (\<lambda>r. ns_route p r (cs (rr_Host r))) rs)) w"
  using batch_provision [OF assms(2)] assms(1) by (simp add: ns_BatchProvision_def)

lemma batch_removal_is_one_request:
  assumes "ns_mapper p = m" "map (rm_MapDeprovision m) ids = map Inr opss"
  shows "ns_BatchDeprovision p ids w = BatchExecute (ns_client p) (concat opss) w"
  using batch_deprovision [OF assms(2)] assms(1) by (simp add: ns_BatchDeprovision_def)

end

lemma nm_batch_provision_acc:
  "map (\<lambda>r. nm_MapProvision r (cs (rr_Host r))) rs = map Inr opss \<Longrightarrow>
     nm_batch_provision rs cs acc = Inr (acc @ concat opss)"
  by (induction rs arbitrary: acc opss) (auto simp: Cons_eq_map_conv)

lemma nm_batch_deprovision_acc:
  "map nm_MapDeprovision ids = map Inr opss \<Longrightarrow> nm_batch_deprovision ids acc = Inr (acc @ concat opss)"
  by (induction ids arbitrary: acc opss) (auto simp: Cons_eq_map_conv)

interpretation nm: resource_mapper netscaler_mapper
proof
  fix cs rs opss
  assume "map (\<lambda>r. rm_MapProvision netscaler_mapper r (cs (rr_Host r))) rs = map Inr opss"
  then show "rm_MapBatchProvision netscaler_mapper rs cs = Inr (concat opss)"
    using nm_batch_provision_acc [of cs rs opss "[]"] by (simp add: netscaler_mapper_def nm_MapBatchProvision_def)
next
  fix ids opss
  assume "map (rm_MapDeprovision netscaler_mapper) ids = map Inr opss"
  then show "rm_MapBatchDeprovision netscaler_mapper ids = Inr (concat opss)"
    using nm_batch_deprovision_acc [of ids opss "[]"] by (simp add: netscaler_mapper_def nm_MapBatchDeprovision_def)
qed

section \<open>Decoding base64\<close>

fun b64_index :: "char \<Rightarrow> string \<Rightarrow> nat" where
  "b64_index c [] = 0"
| "b64_index c (x # xs) = (if c = x then 0 else Suc (b64_index c xs))"

definition b64_val :: "char \<Rightarrow> nat" where
  "b64_val c = b64_index c b64_alphabet"

fun b64_decode :: "string \<Rightarrow> string" where
  "b64_decode (w # x # y # z # cs) =
     (if y = CHR ''='' then [char_of (b64_val w * 4 + b64_val x div 16)]
      else if z = CHR ''='' then
        [char_of (b64_val w * 4 + b64_val x div 16), char_of (b64_val x mod 16 * 16 + b64_val y div 4)]
      else char_of (b64_val w * 4 + b64_val x div 16) # char_of (b64_val x mod 16 * 16 + b64_val y div 4) #
        char_of (b64_val y mod 4 * 64 + b64_val z) # b64_decode cs)"
| "b64_decode _ = []"

lemma b64_table: "list_all (\<lambda>n. b64_val (b64_char n) = n \<and> b64_char n \<noteq> CHR ''='') [0..<64]"
  by code_simp

lemma b64_val_char [simp]: "n < 64 \<Longrightarrow> b64_val (b64_char n) = n"
  and b64_char_pad [simp]: "n < 64 \<Longrightarrow> b64_char n \<noteq> CHR ''=''"
  using b64_table by (simp_all add: list_all_iff)

lemma byte_bound [simp]: "byte_of c < 256"
  by simp

lemma sextets:
  fixes a b c :: nat
  assumes "a < 256" "b < 256" "c < 256"
  shows "a div 4 < 64" "a mod 4 * 16 + b div 16 < 64" "b mod 16 * 4 + c div 64 < 64" "c mod 64 < 64"
    "a mod 4 * 16 < 64" "b mod 16 * 4 < 64"
    "a div 4 * 4 + (a mod 4 * 16 + b div 16) div 16 = a"
    "(a mod 4 * 16 + b div 16) mod 16 * 16 + (b mod 16 * 4 + c div 64) div 4 = b"
    "(b mod 16 * 4 + c div 64) mod 4 * 64 + c mod 64 = c"
    "a div 4 * 4 + a mod 4 * 16 div 16 = a"
    "(a mod 4 * 16 + b div 16) mod 16 * 16 + b mod 16 * 4 div 4 = b"
proof -
  have pack: "(x * k + y) div k = x" "(x * k + y) mod k = y" if "y < k" for x y k :: nat
    using that by simp_all
  have s: "a div 4 < 64" "b div 16 < 16" "c div 64 < 4" "c mod 64 < 64" "a mod 4 < 4" "b mod 16 < 16"
    using assms by (simp_all add: less_mult_imp_div_less)
  show "a div 4 < 64" "c mod 64 < 64" by (fact s)+
  show "a mod 4 * 16 + b div 16 < 64" "b mod 16 * 4 + c div 64 < 64" "a mod 4 * 16 < 64" "b mod 16 * 4 < 64"
    using s by linarith+
  show "a div 4 * 4 + (a mod 4 * 16 + b div 16) div 16 = a" using s by (simp add: pack)
  show "(a mod 4 * 16 + b div 16) mod 16 * 16 + (b mod 16 * 4 + c div 64) div 4 = b"
    using s by (simp add: pack)
  show "(b mod 16 * 4 + c div 64) mod 4 * 64 + c mod 64 = c" using s by (simp add: pack)
  show "a div 4 * 4 + a mod 4 * 16 div 16 = a" by simp
  show "(a mod 4 * 16 + b div 16) mod 16 * 16 + b mod 16 * 4 div 4 = b" using s by (simp add: pack)
qed

lemma b64_roundtrip: "b64_decode (EncodeToString s) = s"
proof (induction s rule: EncodeToString.induct)
  case 1
  show ?case by simp
next
  case (2 a)
  then show ?case using sextets [of "byte_of a" 0 0] by simp
next
  case (3 a b)
  then show ?case using sextets [of "byte_of a" "byte_of b" 0] by simp
next
  case (4 a b c cs)
  then show ?case using sextets [of "byte_of a" "byte_of b" "byte_of c"] by simp
qed

end
