(* ===== verification/LeaseMongo.thy ===== *)
theory LeaseMongo
  imports Prelude
begin

text \<open>
  \<open>impl/lease-mongo\<close> (\<open>elector.go\<close>, \<open>options.go\<close>): the filters and updates that the elector
  sends, what MongoDB documents that they do to the lease document, and the electors of
  several instances as a step relation over the shared document and a clock. Times are in
  milliseconds, the resolution of a BSON datetime; the instances share one clock.
\<close>

section \<open>Configuration\<close>

record lm_config =
  lm_leaseDuration :: int
  lm_renewInterval :: int
  lm_retryInterval :: int
  lm_identity :: string
  lm_leaseName :: string

definition lm_defaultConfig :: lm_config where
  "lm_defaultConfig = \<lparr>lm_leaseDuration = 15000, lm_renewInterval = 5000, lm_retryInterval = 5000,
     lm_identity = '''', lm_leaseName = ''leader''\<rparr>"

definition lm_WithLeaseDuration :: "int \<Rightarrow> lm_config \<Rightarrow> lm_config" where
  "lm_WithLeaseDuration d c = c\<lparr>lm_leaseDuration := d\<rparr>"

definition lm_WithRenewInterval :: "int \<Rightarrow> lm_config \<Rightarrow> lm_config" where
  "lm_WithRenewInterval d c = c\<lparr>lm_renewInterval := d\<rparr>"

definition lm_WithRetryInterval :: "int \<Rightarrow> lm_config \<Rightarrow> lm_config" where
  "lm_WithRetryInterval d c = c\<lparr>lm_retryInterval := d\<rparr>"

definition lm_WithIdentity :: "string \<Rightarrow> lm_config \<Rightarrow> lm_config" where
  "lm_WithIdentity i c = c\<lparr>lm_identity := i\<rparr>"

definition lm_WithLeaseName :: "string \<Rightarrow> lm_config \<Rightarrow> lm_config" where
  "lm_WithLeaseName n c = c\<lparr>lm_leaseName := n\<rparr>"

definition lm_New :: "(lm_config \<Rightarrow> lm_config) list \<Rightarrow> lm_config" where
  "lm_New opts = foldl (\<lambda>c opt. opt c) lm_defaultConfig opts"

section \<open>Filters and updates\<close>

datatype bval = BStr string | BTime int

type_synonym bdoc = "string \<rightharpoonup> bval"

text \<open>The conditions the elector uses: equality, \<open>$lt\<close> on datetimes and \<open>$or\<close> of conditions.\<close>

datatype cond = CEq string bval | CLt string int | COr "cond list"

fun holds :: "cond \<Rightarrow> bdoc \<Rightarrow> bool" where
  "holds (CEq k v) d \<longleftrightarrow> d k = Some v"
| "holds (CLt k t) d \<longleftrightarrow> (case d k of Some (BTime u) \<Rightarrow> u < t | _ \<Rightarrow> False)"
| "holds (COr cs) d \<longleftrightarrow> (\<exists>c \<in> set cs. holds c d)"

definition matches :: "cond list \<Rightarrow> bdoc \<Rightarrow> bool" where
  "matches filt d \<longleftrightarrow> (\<forall>c \<in> set filt. holds c d)"

definition apply_set :: "(string \<times> bval) list \<Rightarrow> bdoc \<Rightarrow> bdoc" where
  "apply_set sets d = foldl (\<lambda>m (k, v). m(k \<mapsto> v)) d sets"

text \<open>
  The calls on the collection as the elector uses them, as functions of the document with the
  lease's \<open>_id\<close>: \<open>FindOneAndUpdate\<close> with upsert, \<open>UpdateOne\<close> (the matched count) and
  \<open>DeleteOne\<close>. The collection is a parameter.
\<close>

record lease_collection =
  lc_FindOneAndUpdate :: "cond list \<Rightarrow> (string \<times> bval) list \<Rightarrow> bdoc option \<Rightarrow> (gerror + unit) \<times> bdoc option"
  lc_UpdateOne :: "cond list \<Rightarrow> (string \<times> bval) list \<Rightarrow> bdoc option \<Rightarrow> nat \<times> bdoc option"
  lc_DeleteOne :: "cond list \<Rightarrow> bdoc option \<Rightarrow> bdoc option"

section \<open>The operations of an elector\<close>

definition acquire_filter :: "lm_config \<Rightarrow> int \<Rightarrow> cond list" where
  "acquire_filter cfg now =
     [CEq ''_id'' (BStr (lm_leaseName cfg)),
      COr [CLt ''expiresAt'' now, CEq ''holder'' (BStr (lm_identity cfg))]]"

definition acquire_set :: "lm_config \<Rightarrow> int \<Rightarrow> (string \<times> bval) list" where
  "acquire_set cfg now =
     [(''holder'', BStr (lm_identity cfg)), (''acquiredAt'', BTime now), (''renewedAt'', BTime now),
      (''expiresAt'', BTime (now + lm_leaseDuration cfg))]"

definition holder_filter :: "lm_config \<Rightarrow> cond list" where
  "holder_filter cfg =
     [CEq ''_id'' (BStr (lm_leaseName cfg)), CEq ''holder'' (BStr (lm_identity cfg))]"

definition renew_set :: "lm_config \<Rightarrow> int \<Rightarrow> (string \<times> bval) list" where
  "renew_set cfg now = [(''renewedAt'', BTime now), (''expiresAt'', BTime (now + lm_leaseDuration cfg))]"

text \<open>\<open>tryAcquire\<close> and \<open>tryRenew\<close> at the time \<open>now\<close> they read, when the server answers.\<close>

definition tryAcquire :: "lease_collection \<Rightarrow> lm_config \<Rightarrow> int \<Rightarrow> bdoc option \<Rightarrow> (gerror + bool) \<times> bdoc option" where
  "tryAcquire q cfg now doc =
     (case lc_FindOneAndUpdate q (acquire_filter cfg now) (acquire_set cfg now) doc of
        (Inl e, d) \<Rightarrow> (if e = ErrDuplicateKey then Inr False else Inl e, d)
      | (Inr u, d) \<Rightarrow> (Inr True, d))"

definition tryRenew :: "lease_collection \<Rightarrow> lm_config \<Rightarrow> int \<Rightarrow> bdoc option \<Rightarrow> bool \<times> bdoc option" where
  "tryRenew q cfg now doc =
     (case lc_UpdateOne q (holder_filter cfg) (renew_set cfg now) doc of (n, d) \<Rightarrow> (0 < n, d))"

definition lm_release :: "lease_collection \<Rightarrow> lm_config \<Rightarrow> bdoc option \<Rightarrow> bdoc option" where
  "lm_release q cfg doc = lc_DeleteOne q (holder_filter cfg) doc"

section \<open>Several instances\<close>

text \<open>
  The program counter of \<open>Run\<close>: \<open>LmHead\<close> the head of the loop; \<open>LmAcquire t\<close> the request of
  \<open>tryAcquire\<close> with the time it read; \<open>LmLead next\<close> the \<open>select\<close> of \<open>renewLoop\<close> with the time of
  the next tick; \<open>LmRenew next t\<close> the request of \<open>tryRenew\<close>; \<open>LmStop\<close> leadership lost, the
  callback still running; \<open>LmStopped\<close> about to release; \<open>LmWait\<close> before a retry; \<open>LmDone\<close>
  returned. A request takes effect at some time after it was sent, or fails, and a request
  that fails may have taken effect. \<open>ls_exp n\<close> is the expiry that instance \<open>n\<close> wrote last.
\<close>

datatype lm_pc = LmHead | LmAcquire int | LmLead int | LmRenew int int | LmStop | LmStopped | LmWait | LmDone

record lease_sys =
  ls_now :: int
  ls_doc :: "bdoc option"
  ls_pc :: "string \<Rightarrow> lm_pc"
  ls_ctx :: "string \<Rightarrow> bool"
  ls_exp :: "string \<Rightarrow> int"

definition instance_cfg :: "lm_config \<Rightarrow> string \<Rightarrow> lm_config" where
  "instance_cfg c n = c\<lparr>lm_identity := n\<rparr>"

lemma instance_cfg_simps [simp]:
  "lm_identity (instance_cfg c n) = n" "lm_leaseName (instance_cfg c n) = lm_leaseName c"
  "lm_leaseDuration (instance_cfg c n) = lm_leaseDuration c"
  by (simp_all add: instance_cfg_def)

definition goto :: "lease_sys \<Rightarrow> string \<Rightarrow> lm_pc \<Rightarrow> lease_sys" where
  "goto s n pc = s\<lparr>ls_pc := (ls_pc s)(n := pc)\<rparr>"

definition lease_init :: "int \<Rightarrow> lease_sys" where
  "lease_init t0 = \<lparr>ls_now = t0, ls_doc = None, ls_pc = (\<lambda>_. LmHead), ls_ctx = (\<lambda>_. False), ls_exp = (\<lambda>_. t0)\<rparr>"

inductive lease_step :: "lease_collection \<Rightarrow> lm_config \<Rightarrow> lease_sys \<Rightarrow> lease_sys \<Rightarrow> bool" for q :: lease_collection and c :: lm_config where
  time_passes: "0 \<le> d \<Longrightarrow> lease_step q c s (s\<lparr>ls_now := ls_now s + d\<rparr>)"
| ctx_cancelled: "lease_step q c s (s\<lparr>ls_ctx := (ls_ctx s)(n := True)\<rparr>)"
| head_ctx: "ls_pc s n = LmHead \<Longrightarrow> ls_ctx s n \<Longrightarrow> lease_step q c s (goto s n LmDone)"
| head_try: "ls_pc s n = LmHead \<Longrightarrow> \<not> ls_ctx s n \<Longrightarrow> lease_step q c s (goto s n (LmAcquire (ls_now s)))"
| acquire_ok: "ls_pc s n = LmAcquire t \<Longrightarrow> tryAcquire q (instance_cfg c n) t (ls_doc s) = (Inr True, d) \<Longrightarrow>
    lease_step q c s ((goto s n (LmLead (ls_now s + lm_renewInterval c)))
      \<lparr>ls_doc := d, ls_exp := (ls_exp s)(n := t + lm_leaseDuration c)\<rparr>)"
| acquire_lost: "ls_pc s n = LmAcquire t \<Longrightarrow> tryAcquire q (instance_cfg c n) t (ls_doc s) = (Inr False, d) \<Longrightarrow>
    lease_step q c s ((goto s n LmWait)\<lparr>ls_doc := d\<rparr>)"
| acquire_error: "ls_pc s n = LmAcquire t \<Longrightarrow> lease_step q c s (goto s n LmDone)"
| acquire_error_applied: "ls_pc s n = LmAcquire t \<Longrightarrow> tryAcquire q (instance_cfg c n) t (ls_doc s) = (r, d) \<Longrightarrow>
    lease_step q c s ((goto s n LmDone)\<lparr>ls_doc := d\<rparr>)"
| lead_ctx: "ls_pc s n = LmLead next \<Longrightarrow> ls_ctx s n \<Longrightarrow> lease_step q c s (goto s n LmStop)"
| lead_tick: "ls_pc s n = LmLead next \<Longrightarrow> next \<le> ls_now s \<Longrightarrow>
    lease_step q c s (goto s n (LmRenew next (ls_now s)))"
| renew_ok: "ls_pc s n = LmRenew next t \<Longrightarrow> tryRenew q (instance_cfg c n) t (ls_doc s) = (True, d) \<Longrightarrow>
    lease_step q c s ((goto s n (LmLead (next + int (Suc k) * lm_renewInterval c)))
      \<lparr>ls_doc := d, ls_exp := (ls_exp s)(n := t + lm_leaseDuration c)\<rparr>)"
| renew_lost: "ls_pc s n = LmRenew next t \<Longrightarrow> tryRenew q (instance_cfg c n) t (ls_doc s) = (False, d) \<Longrightarrow>
    lease_step q c s ((goto s n LmStop)\<lparr>ls_doc := d\<rparr>)"
| renew_error: "ls_pc s n = LmRenew next t \<Longrightarrow> lease_step q c s (goto s n LmStop)"
| renew_error_applied: "ls_pc s n = LmRenew next t \<Longrightarrow> tryRenew q (instance_cfg c n) t (ls_doc s) = (r, d) \<Longrightarrow>
    lease_step q c s ((goto s n LmStop)\<lparr>ls_doc := d\<rparr>)"
| callback_done: "ls_pc s n = LmStop \<Longrightarrow> lease_step q c s (goto s n LmStopped)"
| release_done: "ls_pc s n = LmStopped \<Longrightarrow>
    lease_step q c s ((goto s n (if ls_ctx s n then LmDone else LmWait))
      \<lparr>ls_doc := lm_release q (instance_cfg c n) (ls_doc s)\<rparr>)"
| release_failed: "ls_pc s n = LmStopped \<Longrightarrow>
    lease_step q c s (goto s n (if ls_ctx s n then LmDone else LmWait))"
| wait_ctx: "ls_pc s n = LmWait \<Longrightarrow> ls_ctx s n \<Longrightarrow> lease_step q c s (goto s n LmDone)"
| wait_over: "ls_pc s n = LmWait \<Longrightarrow> lease_step q c s (goto s n LmHead)"

inductive lease_reachable :: "lease_collection \<Rightarrow> lm_config \<Rightarrow> lease_sys \<Rightarrow> bool" for q :: lease_collection and c :: lm_config where
  lease_start: "lease_reachable q c (lease_init t0)"
| lease_next: "lease_reachable q c s \<Longrightarrow> lease_step q c s s' \<Longrightarrow> lease_reachable q c s'"

text \<open>The flag \<open>leading\<close>, which \<open>IsLeader\<close> returns.\<close>

fun lm_leading :: "lm_pc \<Rightarrow> bool" where
  "lm_leading (LmLead _) \<longleftrightarrow> True"
| "lm_leading (LmRenew _ _) \<longleftrightarrow> True"
| "lm_leading _ \<longleftrightarrow> False"

text \<open>The lease of a document: its holder and its expiry.\<close>

definition lease_of :: "bdoc option \<Rightarrow> (string \<times> int) option" where
  "lease_of doc = (case doc of None \<Rightarrow> None
     | Some d \<Rightarrow> (case (d ''holder'', d ''expiresAt'') of (Some (BStr h), Some (BTime t)) \<Rightarrow> Some (h, t) | _ \<Rightarrow> None))"

definition lease_doc :: "string \<Rightarrow> bdoc option \<Rightarrow> bool" where
  "lease_doc name doc \<longleftrightarrow> (case doc of None \<Rightarrow> True | Some d \<Rightarrow> d ''_id'' = Some (BStr name) \<and> lease_of doc \<noteq> None)"

lemma apply_set_simps [simp]:
  "apply_set [] d = d" "apply_set ((k, v) # sets) d = apply_set sets (d(k \<mapsto> v))"
  by (simp_all add: apply_set_def)

section \<open>Safety\<close>

text \<open>The times in flight are not in the future.\<close>

fun sent_before :: "int \<Rightarrow> lm_pc \<Rightarrow> bool" where
  "sent_before now (LmAcquire t) \<longleftrightarrow> t \<le> now"
| "sent_before now (LmRenew _ t) \<longleftrightarrow> t \<le> now"
| "sent_before now _ \<longleftrightarrow> True"

text \<open>
  The document is a lease, and an instance that leads and whose last expiry has not passed
  holds it.
\<close>

definition lease_inv :: "lm_config \<Rightarrow> lease_sys \<Rightarrow> bool" where
  "lease_inv c s \<longleftrightarrow> lease_doc (lm_leaseName c) (ls_doc s) \<and>
     (\<forall>n. sent_before (ls_now s) (ls_pc s n)) \<and>
     (\<forall>n. lm_leading (ls_pc s n) \<longrightarrow> ls_now s \<le> ls_exp s n \<longrightarrow> lease_of (ls_doc s) = Some (n, ls_exp s n))"

lemma sent_before_mono: "sent_before now pc \<Longrightarrow> now \<le> now' \<Longrightarrow> sent_before now' pc"
  by (cases pc) auto

section \<open>The contract of the collection\<close>

text \<open>
  What MongoDB documents of the three calls. \<open>FindOneAndUpdate\<close> with upsert on the document of one \<open>_id\<close>: an existing document that
  matches is updated; one that does not match makes the insertion of the upsert fail with a
  duplicate key; with no document the upsert inserts the equalities of the filter and the
  update. \<open>UpdateOne\<close> and \<open>DeleteOne\<close> act on a matching document only.
\<close>

definition find_one_and_upsert ::
  "string \<Rightarrow> cond list \<Rightarrow> (string \<times> bval) list \<Rightarrow> bdoc option \<Rightarrow> (gerror + unit) \<times> bdoc option" where
  "find_one_and_upsert i filt sets doc =
     (case doc of
        None \<Rightarrow> (Inr (), Some (apply_set sets [''_id'' \<mapsto> BStr i]))
      | Some d \<Rightarrow> if matches filt d then (Inr (), Some (apply_set sets d)) else (Inl ErrDuplicateKey, Some d))"

definition update_one ::
  "cond list \<Rightarrow> (string \<times> bval) list \<Rightarrow> bdoc option \<Rightarrow> nat \<times> bdoc option" where
  "update_one filt sets doc =
     (case doc of
        None \<Rightarrow> (0, None)
      | Some d \<Rightarrow> if matches filt d then (1, Some (apply_set sets d)) else (0, Some d))"

definition delete_one :: "cond list \<Rightarrow> bdoc option \<Rightarrow> bdoc option" where
  "delete_one filt doc =
     (case doc of None \<Rightarrow> None | Some d \<Rightarrow> if matches filt d then None else Some d)"

locale lease_store =
  fixes q :: lease_collection
  assumes find_law: "lc_FindOneAndUpdate q (CEq ''_id'' (BStr i) # filt) sets doc =
      find_one_and_upsert i (CEq ''_id'' (BStr i) # filt) sets doc"
    and update_law: "lc_UpdateOne q filt sets doc = update_one filt sets doc"
    and delete_law: "lc_DeleteOne q filt doc = delete_one filt doc"
begin

lemma tryAcquire_run:
  assumes "lease_doc (lm_leaseName cfg) doc" and "tryAcquire q cfg now doc = (r, d)"
  shows "lease_doc (lm_leaseName cfg) d"
    and "(r = Inr True \<and> (\<forall>h t. lease_of doc = Some (h, t) \<longrightarrow> t < now \<or> h = lm_identity cfg) \<and>
        lease_of d = Some (lm_identity cfg, now + lm_leaseDuration cfg)) \<or>
      (r = Inr False \<and> d = doc \<and> (\<exists>h t. lease_of doc = Some (h, t) \<and> now \<le> t \<and> h \<noteq> lm_identity cfg))"
  using assms
  by (auto simp: tryAcquire_def find_law find_one_and_upsert_def acquire_filter_def acquire_set_def matches_def
      lease_of_def lease_doc_def split: option.splits bval.splits if_splits)

lemma tryRenew_cases:
  assumes "lease_doc (lm_leaseName cfg) doc" and "tryRenew q cfg now doc = (b, doc')"
  shows "lease_doc (lm_leaseName cfg) doc'"
    and "(\<exists>t. b \<and> lease_of doc = Some (lm_identity cfg, t) \<and>
        lease_of doc' = Some (lm_identity cfg, now + lm_leaseDuration cfg)) \<or>
      (\<not> b \<and> doc' = doc \<and> (\<forall>t. lease_of doc \<noteq> Some (lm_identity cfg, t)))"
  using assms
  by (auto simp: tryRenew_def update_law update_one_def holder_filter_def renew_set_def matches_def
      lease_of_def lease_doc_def split: option.splits bval.splits if_splits)

lemma lm_release_cases:
  assumes "lease_doc (lm_leaseName cfg) doc"
  shows "lease_doc (lm_leaseName cfg) (lm_release q cfg doc)"
    and "(\<exists>t. lease_of doc = Some (lm_identity cfg, t) \<and> lm_release q cfg doc = None) \<or>
      (lm_release q cfg doc = doc \<and> (\<forall>t. lease_of doc \<noteq> Some (lm_identity cfg, t)))"
  using assms
  by (auto simp: lm_release_def delete_law delete_one_def holder_filter_def matches_def
      lease_of_def lease_doc_def split: option.splits bval.splits if_splits)

text \<open>An acquisition by \<open>n\<close> leaves the unexpired lease of another instance alone.\<close>

lemma tryAcquire_other:
  assumes "lease_doc (lm_leaseName c) doc" "tryAcquire q (instance_cfg c n) t doc = (r, d)"
    and "lease_of doc = Some (m, e)" "m \<noteq> n" "t \<le> e"
  shows "lease_of d = Some (m, e)"
  using tryAcquire_run(2) [of "instance_cfg c n" doc t r d] assms by auto

lemma tryRenew_other:
  assumes "lease_doc (lm_leaseName c) doc" "tryRenew q (instance_cfg c n) t doc = (b, d)"
    and "lease_of doc = Some (m, e)" "m \<noteq> n"
  shows "lease_of d = Some (m, e)"
  using tryRenew_cases(2) [of "instance_cfg c n" doc t b d] assms by auto

lemma lm_release_other:
  assumes "lease_doc (lm_leaseName c) doc" "lease_of doc = Some (m, e)" "m \<noteq> n"
  shows "lease_of (lm_release q (instance_cfg c n) doc) = Some (m, e)"
  using lm_release_cases(2) [of "instance_cfg c n" doc] assms by auto

lemma lease_docs:
  assumes "lease_doc (lm_leaseName c) doc"
  shows "tryAcquire q (instance_cfg c n) t doc = (r, d) \<Longrightarrow> lease_doc (lm_leaseName c) d"
    and "tryRenew q (instance_cfg c n) t doc = (b, d) \<Longrightarrow> lease_doc (lm_leaseName c) d"
    and "lease_doc (lm_leaseName c) (lm_release q (instance_cfg c n) doc)"
  using tryAcquire_run(1) [of "instance_cfg c n" doc t r d] tryRenew_cases(1) [of "instance_cfg c n" doc t b d]
    lm_release_cases(1) [of "instance_cfg c n" doc] assms by auto

text \<open>
  A step of instance \<open>n\<close> keeps the invariant when it keeps it for \<open>n\<close>, leaves the unexpired
  lease of every other instance in the document and changes nothing else.
\<close>

lemma lease_inv_local:
  assumes "lease_inv c s" and "ls_now s' = ls_now s" "lease_doc (lm_leaseName c) (ls_doc s')"
    and "\<And>m. m \<noteq> n \<Longrightarrow> ls_pc s' m = ls_pc s m \<and> ls_exp s' m = ls_exp s m"
    and "\<And>m e. m \<noteq> n \<Longrightarrow> ls_now s \<le> e \<Longrightarrow> lease_of (ls_doc s) = Some (m, e) \<Longrightarrow> lease_of (ls_doc s') = Some (m, e)"
    and "sent_before (ls_now s) (ls_pc s' n)"
    and "lm_leading (ls_pc s' n) \<Longrightarrow> ls_now s \<le> ls_exp s' n \<Longrightarrow> lease_of (ls_doc s') = Some (n, ls_exp s' n)"
  shows "lease_inv c s'"
  unfolding lease_inv_def
proof (intro conjI allI impI)
  fix m
  show "sent_before (ls_now s') (ls_pc s' m)"
    using assms(1,2,4,6) by (cases "m = n") (simp_all add: lease_inv_def)
  assume "lm_leading (ls_pc s' m)" "ls_now s' \<le> ls_exp s' m"
  then show "lease_of (ls_doc s') = Some (m, ls_exp s' m)"
    using assms(1,2,4,5,7) by (cases "m = n") (simp_all add: lease_inv_def)
qed (rule assms(3))

lemma lease_inv_step: "lease_step q c s s' \<Longrightarrow> lease_inv c s \<Longrightarrow> lease_inv c s'"
proof (induction rule: lease_step.induct)
  case (time_passes d s)
  then show ?case by (auto simp: lease_inv_def intro: sent_before_mono)
next
  case (ctx_cancelled s n)
  then show ?case by (simp add: lease_inv_def)
next
  case (acquire_ok s n t d)
  then have doc: "lease_doc (lm_leaseName c) (ls_doc s)" and t: "t \<le> ls_now s"
    by (auto simp: lease_inv_def) (metis sent_before.simps(1))
  show ?case
    by (rule lease_inv_local [of c s _ n])
      (use acquire_ok doc t tryAcquire_other [OF doc acquire_ok(2)] lease_docs(1) [OF doc acquire_ok(2)]
          tryAcquire_run(2) [OF _ acquire_ok(2)] in \<open>auto simp: goto_def\<close>)
next
  case (acquire_error_applied s n t r d)
  then have doc: "lease_doc (lm_leaseName c) (ls_doc s)" and t: "t \<le> ls_now s"
    by (auto simp: lease_inv_def) (metis sent_before.simps(1))
  show ?case
    by (rule lease_inv_local [of c s _ n])
      (use acquire_error_applied doc t tryAcquire_other [OF doc acquire_error_applied(2)]
          lease_docs(1) [OF doc acquire_error_applied(2)] in \<open>auto simp: goto_def\<close>)
next
  case (acquire_lost s n t d)
  then have doc: "lease_doc (lm_leaseName c) (ls_doc s)" and t: "t \<le> ls_now s"
    by (auto simp: lease_inv_def) (metis sent_before.simps(1))
  show ?case
    by (rule lease_inv_local [of c s _ n])
      (use acquire_lost doc t tryAcquire_other [OF doc acquire_lost(2)]
          lease_docs(1) [OF doc acquire_lost(2)] in \<open>auto simp: goto_def\<close>)
next
  case (renew_ok s n nxt t d k)
  then have doc: "lease_doc (lm_leaseName c) (ls_doc s)" by (simp add: lease_inv_def)
  show ?case
    by (rule lease_inv_local [of c s _ n])
      (use renew_ok doc tryRenew_other [OF doc renew_ok(2)] lease_docs(2) [OF doc renew_ok(2)]
          tryRenew_cases(2) [OF _ renew_ok(2)] in \<open>auto simp: goto_def\<close>)
next
  case (renew_lost s n nxt t d)
  then have doc: "lease_doc (lm_leaseName c) (ls_doc s)" by (simp add: lease_inv_def)
  show ?case
    by (rule lease_inv_local [of c s _ n])
      (use renew_lost doc tryRenew_other [OF doc renew_lost(2)] lease_docs(2) [OF doc renew_lost(2)]
        in \<open>auto simp: goto_def\<close>)
next
  case (renew_error_applied s n nxt t r d)
  then have doc: "lease_doc (lm_leaseName c) (ls_doc s)" by (simp add: lease_inv_def)
  show ?case
    by (rule lease_inv_local [of c s _ n])
      (use renew_error_applied doc tryRenew_other [OF doc renew_error_applied(2)]
          lease_docs(2) [OF doc renew_error_applied(2)] in \<open>auto simp: goto_def\<close>)
next
  case (release_done s n)
  then have doc: "lease_doc (lm_leaseName c) (ls_doc s)" by (simp add: lease_inv_def)
  show ?case
    by (rule lease_inv_local [of c s _ n])
      (use release_done doc lm_release_other [OF doc] lease_docs(3) [OF doc] in \<open>auto simp: goto_def split: if_splits\<close>)
qed (auto simp: lease_inv_def goto_def)

lemma lease_reachable_inv: "lease_reachable q c s \<Longrightarrow> lease_inv c s"
proof (induction rule: lease_reachable.induct)
  case (lease_start t0)
  show ?case by (simp add: lease_inv_def lease_init_def lease_doc_def)
next
  case (lease_next s s')
  then show ?case by (blast intro: lease_inv_step)
qed

end

definition documented_collection :: lease_collection where
  "documented_collection = \<lparr>lc_FindOneAndUpdate = (\<lambda>filt sets doc. case filt of
       CEq k (BStr i) # _ \<Rightarrow> find_one_and_upsert i filt sets doc | _ \<Rightarrow> (Inl ErrDuplicateKey, doc)),
     lc_UpdateOne = update_one, lc_DeleteOne = delete_one\<rparr>"

interpretation docs: lease_store documented_collection
  by unfold_locales (simp_all add: documented_collection_def)

section \<open>Properties\<close>

text \<open>
  C7: two instances never both lead with an unexpired lease, however requests are delayed,
  reordered between instances, lost or applied in spite of an error; and the lease document names
  the one that does, with the expiry it last wrote.
\<close>

theorem lease_holder_unique:
  assumes "lease_store q" and "lease_reachable q c s"
    and "lm_leading (ls_pc s n)" "ls_now s \<le> ls_exp s n"
    and "lm_leading (ls_pc s m)" "ls_now s \<le> ls_exp s m"
  shows "n = m \<and> lease_of (ls_doc s) = Some (n, ls_exp s n)"
proof -
  have holds: "lease_of (ls_doc s) = Some (k, ls_exp s k)"
    if "lm_leading (ls_pc s k)" "ls_now s \<le> ls_exp s k" for k
    using lease_store.lease_reachable_inv [OF assms(1,2)] that unfolding lease_inv_def by blast
  from holds [OF assms(3,4)] holds [OF assms(5,6)] show ?thesis by simp
qed

text \<open>
  An attempt to acquire succeeds exactly when there is no lease, when the lease is expired
  at the time the attempt read, or when this instance holds it; it then holds the lease until
  that time plus the duration. Otherwise the document is unchanged.
\<close>

lemma acquire_exact:
  assumes "lease_store q" and "lease_doc (lm_leaseName cfg) doc" and "tryAcquire q cfg now doc = (r, d)"
  shows "r = Inr (\<forall>h t. lease_of doc = Some (h, t) \<longrightarrow> t < now \<or> h = lm_identity cfg) \<and>
    (if r = Inr True then lease_of d = Some (lm_identity cfg, now + lm_leaseDuration cfg) else d = doc)"
  using lease_store.tryAcquire_run(2) [OF assms] by force

section \<open>Instances\<close>

definition demo_lease :: lm_config where
  "demo_lease = lm_New [lm_WithLeaseDuration 3000]"

definition lease_document :: "string \<Rightarrow> int \<Rightarrow> bdoc" where
  "lease_document h t = [''_id'' \<mapsto> BStr ''leader'', ''holder'' \<mapsto> BStr h, ''acquiredAt'' \<mapsto> BTime t,
     ''renewedAt'' \<mapsto> BTime t, ''expiresAt'' \<mapsto> BTime (t + 3000)]"

lemma demo_lease_simps [simp]:
  "lm_leaseName demo_lease = ''leader''" "lm_leaseDuration demo_lease = 3000" "lm_renewInterval demo_lease = 5000"
  by (simp_all add: demo_lease_def lm_New_def lm_defaultConfig_def lm_WithLeaseDuration_def)

lemma demo_acquire:
  "tryAcquire documented_collection (instance_cfg demo_lease n) t None = (Inr True, Some (lease_document n t))"
  "u + 3000 < t \<Longrightarrow> tryAcquire documented_collection (instance_cfg demo_lease n) t (Some (lease_document m u)) =
     (Inr True, Some (lease_document n t))"
  by (auto simp: tryAcquire_def docs.find_law find_one_and_upsert_def acquire_filter_def acquire_set_def lease_document_def
      matches_def fun_eq_iff)

text \<open>
  A lease shorter than the renewal interval, which is 5 s unless it is set, lapses before
  its holder renews it: with a duration of 3 s a second instance acquires it after 4 s and both
  lead, with no delay of any request.
\<close>

lemma two_leaders_when_renewal_is_late:
  "\<exists>s. lease_reachable documented_collection demo_lease s \<and> lm_leading (ls_pc s ''a'') \<and> lm_leading (ls_pc s ''b'') \<and> ls_now s = 4000"
proof -
  note step = lease_next [of documented_collection demo_lease]
  note s1 = step [OF lease_start [of _ _ 0] head_try [of _ "''a''"]]
  note s2 = step [OF s1 acquire_ok [of _ "''a''" 0 _ _ "Some (lease_document ''a'' 0)"]]
  note s3 = step [OF s2 time_passes [of 4000]]
  note s4 = step [OF s3 head_try [of _ "''b''"]]
  note s5 = step [OF s4 acquire_ok [of _ "''b''" 4000 _ _ "Some (lease_document ''b'' 4000)"]]
  show ?thesis
    by (rule exI, rule conjI, rule s5) (simp_all add: lease_init_def goto_def demo_acquire)
qed

theorem lease_holder_unique_witness:
  "\<exists>s. lease_reachable documented_collection demo_lease s \<and> lm_leading (ls_pc s ''a'') \<and> ls_now s \<le> ls_exp s ''a'' \<and>
     lease_of (ls_doc s) = Some (''a'', ls_exp s ''a'')"
proof -
  note step = lease_next [of documented_collection demo_lease]
  note s1 = step [OF lease_start [of _ _ 0] head_try [of _ "''a''"]]
  note s2 = step [OF s1 acquire_ok [of _ "''a''" 0 _ _ "Some (lease_document ''a'' 0)"]]
  let ?s = "(goto (goto (lease_init 0) ''a'' (LmAcquire 0)) ''a'' (LmLead 5000))
    \<lparr>ls_doc := Some (lease_document ''a'' 0), ls_exp := (\<lambda>_. 0)(''a'' := 3000)\<rparr>"
  have r: "lease_reachable documented_collection demo_lease ?s"
    using s2 by (simp add: lease_init_def goto_def demo_acquire)
  have a: "lm_leading (ls_pc ?s ''a'')" "ls_now ?s \<le> ls_exp ?s ''a''"
    by (simp_all add: lease_init_def goto_def)
  show ?thesis
    using r a lease_holder_unique [OF docs.lease_store_axioms r a] by blast
qed

lemma acquire_exact_instance:
  "fst (tryAcquire documented_collection (instance_cfg demo_lease ''b'') 2000 (Some (lease_document ''a'' 0))) = Inr False"
proof -
  have d: "lease_doc (lm_leaseName (instance_cfg demo_lease ''b'')) (Some (lease_document ''a'' 0))"
    "lease_of (Some (lease_document ''a'' 0)) = Some (''a'', 3000)"
    by (simp_all add: lease_doc_def lease_of_def lease_document_def)
  from acquire_exact [OF docs.lease_store_axioms d(1), of 2000] d(2) show ?thesis
    by (cases "tryAcquire documented_collection (instance_cfg demo_lease ''b'') 2000 (Some (lease_document ''a'' 0))") simp
qed

end
