(* ===== verification/CertStores.thy ===== *)
theory CertStores
  imports CertIssuers
begin

text \<open>
  The three caching issuers, \<open>impl/certstore-kube\<close>, \<open>impl/certstore-file\<close> and
  \<open>impl/certstore-vault\<close> (\<open>issuer.go\<close>, \<open>options.go\<close>): each wraps an issuer and keeps its
  certificates in Kubernetes Secrets, in files or in Vault's KV engine. The Kubernetes client,
  the file system, the Vault client and the clock are parameters; a time is written and read
  back by \<open>te_Format\<close> and \<open>te_Parse\<close>, the RFC 3339 functions of Go's \<open>time\<close> package.
\<close>

record 'w time_env =
  te_Now :: "'w \<Rightarrow> int"
  te_Format :: "int \<Rightarrow> string"
  te_Parse :: "string \<Rightarrow> int option"

text \<open>\<open>time.Until(t) > renewBefore\<close>\<close>

definition still_fresh :: "'w time_env \<Rightarrow> int \<Rightarrow> 'w \<Rightarrow> int \<Rightarrow> bool" where
  "still_fresh te renewBefore w t \<longleftrightarrow> time_Until (te_Now te w) t > renewBefore"

text \<open>The layout \<open>time.RFC3339\<close> drops the fraction of the second.\<close>

definition to_second :: "int \<Rightarrow> int" where
  "to_second t = t div second * second"

text \<open>The years 0 to 9999, which the layout writes with the four digits it reads.\<close>

definition four_digit_year :: "int \<Rightarrow> bool" where
  "four_digit_year t \<longleftrightarrow> - 62167219200 * second \<le> t \<and> t < 253402300800 * second"

definition rfc3339_ok :: "'w time_env \<Rightarrow> bool" where
  "rfc3339_ok te \<longleftrightarrow> (\<forall>t. four_digit_year t \<longrightarrow> te_Parse te (te_Format te t) = Some (to_second t))"

text \<open>A field that is parsed when present and parseable keeps its zero value otherwise.\<close>

definition parsed_time :: "'w time_env \<Rightarrow> string option \<Rightarrow> int" where
  "parsed_time te v = (case v of None \<Rightarrow> zero_time
     | Some s \<Rightarrow> (case te_Parse te s of None \<Rightarrow> zero_time | Some t \<Rightarrow> t))"

lemma parsed_time_Format [simp]:
  "rfc3339_ok te \<Longrightarrow> four_digit_year t \<Longrightarrow> parsed_time te (Some (te_Format te t)) = to_second t"
  by (simp add: parsed_time_def rfc3339_ok_def)

definition lookup0 :: "(string \<rightharpoonup> string) \<Rightarrow> string \<Rightarrow> string" where
  "lookup0 m k = (case m k of None \<Rightarrow> '''' | Some v \<Rightarrow> v)"

section \<open>Kubernetes Secrets\<close>

record ck_config =
  ck_namespace :: string
  ck_secretPrefix :: string
  ck_renewBefore :: int
  ck_labels :: "string \<rightharpoonup> string"

definition ck_defaultConfig :: ck_config where
  "ck_defaultConfig = \<lparr>ck_namespace = ''default'', ck_secretPrefix = ''route-tls'',
     ck_renewBefore = 30 * 24 * 3600 * second,
     ck_labels = [''app.kubernetes.io/managed-by'' \<mapsto> ''route-provisioner'']\<rparr>"

definition ck_WithNamespace :: "string \<Rightarrow> ck_config \<Rightarrow> ck_config" where
  "ck_WithNamespace ns c = c\<lparr>ck_namespace := ns\<rparr>"

definition ck_WithSecretPrefix :: "string \<Rightarrow> ck_config \<Rightarrow> ck_config" where
  "ck_WithSecretPrefix prefix c = c\<lparr>ck_secretPrefix := prefix\<rparr>"

definition ck_WithRenewBefore :: "int \<Rightarrow> ck_config \<Rightarrow> ck_config" where
  "ck_WithRenewBefore d c = c\<lparr>ck_renewBefore := d\<rparr>"

definition ck_WithLabels :: "(string \<rightharpoonup> string) \<Rightarrow> ck_config \<Rightarrow> ck_config" where
  "ck_WithLabels labels c = c\<lparr>ck_labels := labels\<rparr>"

definition ck_New :: "(ck_config \<Rightarrow> ck_config) list \<Rightarrow> ck_config" where
  "ck_New opts = foldl (\<lambda>c opt. opt c) ck_defaultConfig opts"

record Secret =
  sec_Name :: string
  sec_Namespace :: string
  sec_Labels :: "string \<rightharpoonup> string"
  sec_Annotations :: "string \<rightharpoonup> string"
  sec_Type :: string
  sec_Data :: "string \<rightharpoonup> string"

record 'w secrets_api =
  sa_Get :: "string \<Rightarrow> string \<Rightarrow> ('w, Secret) svc"
  sa_Create :: "string \<Rightarrow> Secret \<Rightarrow> ('w, unit) svc"
  sa_Update :: "string \<Rightarrow> Secret \<Rightarrow> ('w, unit) svc"
  sa_Delete :: "string \<Rightarrow> string \<Rightarrow> ('w, unit) svc"

definition secretName :: "ck_config \<Rightarrow> string \<Rightarrow> string" where
  "secretName cfg host =
     (let name = ck_secretPrefix cfg @ ''-'' @ replace_dots_stars host
      in if length name > 253 then take 253 name else name)"

definition ck_SecretNameFunc :: "ck_config \<Rightarrow> string \<Rightarrow> string" where
  [simp]: "ck_SecretNameFunc cfg = secretName cfg"

definition ck_secretToCert :: "'w time_env \<Rightarrow> Secret \<Rightarrow> Certificate option" where
  "ck_secretToCert te secret =
     (let certPEM = lookup0 (sec_Data secret) ''tls.crt''; keyPEM = lookup0 (sec_Data secret) ''tls.key'' in
      if certPEM = '''' \<or> keyPEM = '''' then None
      else Some \<lparr>crt_Host = lookup0 (sec_Annotations secret) ''route-provisioner/host'',
        crt_CertPEM = certPEM, crt_KeyPEM = keyPEM, crt_CACertPEM = lookup0 (sec_Data secret) ''ca.crt'',
        crt_NotBefore = parsed_time te (sec_Annotations secret ''route-provisioner/not-before''),
        crt_NotAfter = parsed_time te (sec_Annotations secret ''route-provisioner/not-after''),
        crt_IssuerName = lookup0 (sec_Annotations secret) ''route-provisioner/issuer''\<rparr>)"

definition ck_secret :: "'w time_env \<Rightarrow> ck_config \<Rightarrow> string \<Rightarrow> Certificate \<Rightarrow> Secret" where
  "ck_secret te cfg name cert =
     \<lparr>sec_Name = name, sec_Namespace = ck_namespace cfg, sec_Labels = ck_labels cfg,
      sec_Annotations = [''route-provisioner/host'' \<mapsto> crt_Host cert,
        ''route-provisioner/issuer'' \<mapsto> crt_IssuerName cert,
        ''route-provisioner/not-before'' \<mapsto> te_Format te (crt_NotBefore cert),
        ''route-provisioner/not-after'' \<mapsto> te_Format te (crt_NotAfter cert)],
      sec_Type = ''kubernetes.io/tls'',
      sec_Data = (let d = [''tls.crt'' \<mapsto> crt_CertPEM cert, ''tls.key'' \<mapsto> crt_KeyPEM cert]
        in if crt_CACertPEM cert \<noteq> '''' then d(''ca.crt'' \<mapsto> crt_CACertPEM cert) else d)\<rparr>"

definition ck_storeCert ::
  "'w time_env \<Rightarrow> 'w secrets_api \<Rightarrow> ck_config \<Rightarrow> string \<Rightarrow> Certificate \<Rightarrow> ('w, unit) act" where
  "ck_storeCert te api cfg name cert =
     (let secret = ck_secret te cfg name cert in
      attempt (ext (sa_Get api (ck_namespace cfg) name))
        (\<lambda>err. if err = ErrNotFound then ext (sa_Create api (ck_namespace cfg) secret) else fail err)
        (\<lambda>_. ext (sa_Update api (ck_namespace cfg) secret)))"

text \<open>The tail of \<open>Issue\<close>: the wrapped issuer is asked, and a failure to store is logged.\<close>

definition ck_reissue ::
  "'w time_env \<Rightarrow> 'w secrets_api \<Rightarrow> ck_config \<Rightarrow> 'w Issuer \<Rightarrow> RouteRequest \<Rightarrow> ('w, Certificate option) act" where
  "ck_reissue te api cfg inner req =
     bindr (iss_Issue inner req) (\<lambda>cert. case cert of
       None \<Rightarrow> panic ''nil pointer dereference''
     | Some c \<Rightarrow> attempt (ck_storeCert te api cfg (secretName cfg (rr_Host req)) c)
         (\<lambda>e. ret (Some c)) (\<lambda>_. ret (Some c)))"

definition ck_Issue ::
  "'w time_env \<Rightarrow> 'w secrets_api \<Rightarrow> ck_config \<Rightarrow> 'w Issuer \<Rightarrow> RouteRequest \<Rightarrow> ('w, Certificate option) act" where
  "ck_Issue te api cfg inner req =
     (let name = secretName cfg (rr_Host req) in
      attempt (ext (sa_Get api (ck_namespace cfg) name))
        (\<lambda>err. if err = ErrNotFound then ck_reissue te api cfg inner req
           else fail (ErrWrap (''get secret '' @ name) err))
        (\<lambda>secret w. case ck_secretToCert te secret of
           None \<Rightarrow> ck_reissue te api cfg inner req w
         | Some cert \<Rightarrow>
             if still_fresh te (ck_renewBefore cfg) w (crt_NotAfter cert) then (Ret (Some cert), w)
             else ck_reissue te api cfg inner req w))"

definition ck_Revoke ::
  "'w secrets_api \<Rightarrow> ck_config \<Rightarrow> 'w Issuer \<Rightarrow> Certificate \<Rightarrow> ('w, unit) act" where
  "ck_Revoke api cfg inner cert =
     attempt (ext (sa_Delete api (ck_namespace cfg) (secretName cfg (crt_Host cert))))
       (\<lambda>err. iss_Revoke inner cert) (\<lambda>_. iss_Revoke inner cert)"

definition ck_issuer ::
  "'w time_env \<Rightarrow> 'w secrets_api \<Rightarrow> ck_config \<Rightarrow> 'w Issuer \<Rightarrow> 'w Issuer" where
  "ck_issuer te api cfg inner = \<lparr>iss_Issue = ck_Issue te api cfg inner,
     iss_Revoke = ck_Revoke api cfg inner, iss_Name = iss_Name inner\<rparr>"

text \<open>The documented behaviour of the Secrets of one namespace.\<close>

definition secrets_ok :: "'w secrets_api \<Rightarrow> string \<Rightarrow> ('w \<Rightarrow> string \<rightharpoonup> Secret) \<Rightarrow> bool" where
  "secrets_ok api ns secs \<longleftrightarrow>
     (\<forall>n w. sa_Get api ns n w = ((case secs w n of None \<Rightarrow> Inl ErrNotFound | Some s \<Rightarrow> Inr s), w)) \<and>
     (\<forall>s w. secs w (sec_Name s) = None \<longrightarrow>
        (\<exists>w'. sa_Create api ns s w = (Inr (), w') \<and> secs w' = (secs w)(sec_Name s \<mapsto> s))) \<and>
     (\<forall>s w. secs w (sec_Name s) \<noteq> None \<longrightarrow>
        (\<exists>w'. sa_Update api ns s w = (Inr (), w') \<and> secs w' = (secs w)(sec_Name s \<mapsto> s)))"

section \<open>Facts on the Secrets store\<close>

definition truncated :: "Certificate \<Rightarrow> Certificate" where
  "truncated c = c\<lparr>crt_NotBefore := to_second (crt_NotBefore c), crt_NotAfter := to_second (crt_NotAfter c)\<rparr>"

lemma ck_secret_roundtrip:
  assumes "rfc3339_ok te" "four_digit_year (crt_NotBefore c)" "four_digit_year (crt_NotAfter c)"
    "crt_CertPEM c \<noteq> ''''" "crt_KeyPEM c \<noteq> ''''"
  shows "ck_secretToCert te (ck_secret te cfg name c) = Some (truncated c)"
  using assms by (simp add: ck_secretToCert_def ck_secret_def lookup0_def truncated_def Let_def)

lemma secretName_length: "length (secretName cfg host) \<le> 253"
  by (auto simp: secretName_def Let_def min_def)

lemma ck_storeCert_run:
  assumes "secrets_ok api (ck_namespace cfg) secs"
  obtains w' where "ck_storeCert te api cfg name c w = (Ret (), w')"
    "secs w' = (secs w)(name \<mapsto> ck_secret te cfg name c)"
proof (cases "secs w name")
  case None
  have n: "sec_Name (ck_secret te cfg name c) = name" by (simp add: ck_secret_def)
  from assms None n obtain w' where
    "sa_Create api (ck_namespace cfg) (ck_secret te cfg name c) w = (Inr (), w')"
    "secs w' = (secs w)(name \<mapsto> ck_secret te cfg name c)" unfolding secrets_ok_def by metis
  moreover have "sa_Get api (ck_namespace cfg) name w = (Inl ErrNotFound, w)"
    using assms None by (simp add: secrets_ok_def)
  ultimately show ?thesis using that by (simp add: ck_storeCert_def Let_def)
next
  case (Some s)
  have n: "sec_Name (ck_secret te cfg name c) = name" by (simp add: ck_secret_def)
  from assms Some n obtain w' where
    "sa_Update api (ck_namespace cfg) (ck_secret te cfg name c) w = (Inr (), w')"
    "secs w' = (secs w)(name \<mapsto> ck_secret te cfg name c)"
    unfolding secrets_ok_def by (metis option.distinct(1))
  moreover have "sa_Get api (ck_namespace cfg) name w = (Inr s, w)"
    using assms Some by (simp add: secrets_ok_def)
  ultimately show ?thesis using that by (simp add: ck_storeCert_def Let_def)
qed

text \<open>What the cache serves for a host.\<close>

definition ck_cached ::
  "'w time_env \<Rightarrow> ck_config \<Rightarrow> ('w \<Rightarrow> string \<rightharpoonup> Secret) \<Rightarrow> string \<Rightarrow> 'w \<Rightarrow> Certificate option" where
  "ck_cached te cfg secs host w =
     (case Option.bind (secs w (secretName cfg host)) (ck_secretToCert te) of
        None \<Rightarrow> None
      | Some c \<Rightarrow> if still_fresh te (ck_renewBefore cfg) w (crt_NotAfter c) then Some c else None)"

lemma ck_Issue_cases:
  assumes "secrets_ok api (ck_namespace cfg) secs"
  shows "ck_Issue te api cfg inner req w =
    (case ck_cached te cfg secs (rr_Host req) w of
       Some c \<Rightarrow> (Ret (Some c), w) | None \<Rightarrow> ck_reissue te api cfg inner req w)"
proof (cases "secs w (secretName cfg (rr_Host req))")
  case None
  then have "sa_Get api (ck_namespace cfg) (secretName cfg (rr_Host req)) w = (Inl ErrNotFound, w)"
    using assms by (simp add: secrets_ok_def)
  with None show ?thesis by (simp add: ck_Issue_def ck_cached_def Let_def)
next
  case (Some s)
  then have "sa_Get api (ck_namespace cfg) (secretName cfg (rr_Host req)) w = (Inr s, w)"
    using assms by (simp add: secrets_ok_def)
  with Some show ?thesis
    by (cases "ck_secretToCert te s") (simp_all add: ck_Issue_def ck_cached_def Let_def)
qed

section \<open>Files\<close>

record cf_config =
  cf_renewBefore :: int

definition cf_defaultConfig :: cf_config where
  "cf_defaultConfig = \<lparr>cf_renewBefore = 30 * 24 * 3600 * second\<rparr>"

definition cf_WithRenewBefore :: "int \<Rightarrow> cf_config \<Rightarrow> cf_config" where
  "cf_WithRenewBefore d c = c\<lparr>cf_renewBefore := d\<rparr>"

definition cf_New :: "(cf_config \<Rightarrow> cf_config) list \<Rightarrow> cf_config" where
  "cf_New opts = foldl (\<lambda>c opt. opt c) cf_defaultConfig opts"

record certMeta =
  cm_Host :: string
  cm_IssuerName :: string
  cm_NotBefore :: int
  cm_NotAfter :: int

text \<open>
  The functions of \<open>os\<close>, \<open>path/filepath\<close> and \<open>encoding/json\<close> that the store calls, and the
  clock. A nil slice and an empty one are both the empty string.
\<close>

record 'w file_env =
  fe_Now :: "'w \<Rightarrow> int"
  fe_Join :: "string \<Rightarrow> string \<Rightarrow> string"
  fe_MkdirAll :: "string \<Rightarrow> ('w, unit) svc"
  fe_WriteFile :: "string \<Rightarrow> string \<Rightarrow> ('w, unit) svc"
  fe_ReadFile :: "string \<Rightarrow> ('w, string) svc"
  fe_RemoveAll :: "string \<Rightarrow> ('w, unit) svc"
  fe_Marshal :: "certMeta \<Rightarrow> gerror + string"
  fe_Unmarshal :: "string \<Rightarrow> gerror + certMeta"

definition cf_hostDir :: "'w file_env \<Rightarrow> string \<Rightarrow> string \<Rightarrow> string" where
  "cf_hostDir fe dir host = fe_Join fe dir (ReplaceAll1 host CHR ''*'' ''_wildcard_'')"

definition cf_write :: "'w file_env \<Rightarrow> string \<Rightarrow> string \<Rightarrow> string \<Rightarrow> ('w, unit) act \<Rightarrow> ('w, unit) act" where
  "cf_write fe dir name content k =
     wrapr (''write '' @ name) (ext (fe_WriteFile fe (fe_Join fe dir name) content)) (\<lambda>_. k)"

definition meta_of :: "Certificate \<Rightarrow> certMeta" where
  "meta_of cert = \<lparr>cm_Host = crt_Host cert, cm_IssuerName = crt_IssuerName cert,
     cm_NotBefore = crt_NotBefore cert, cm_NotAfter = crt_NotAfter cert\<rparr>"

definition cf_write_meta :: "'w file_env \<Rightarrow> string \<Rightarrow> Certificate \<Rightarrow> ('w, unit) act" where
  "cf_write_meta fe dir cert =
     (case fe_Marshal fe (meta_of cert) of
        Inl e \<Rightarrow> fail (ErrWrap ''marshal meta'' e)
      | Inr metaBytes \<Rightarrow> cf_write fe dir ''meta.json'' metaBytes (ret ()))"

definition cf_store :: "'w file_env \<Rightarrow> string \<Rightarrow> Certificate \<Rightarrow> ('w, unit) act" where
  "cf_store fe dir cert =
     wrapr (''mkdir '' @ dir) (ext (fe_MkdirAll fe dir)) (\<lambda>_.
       cf_write fe dir ''cert.pem'' (crt_CertPEM cert)
      (cf_write fe dir ''key.pem'' (crt_KeyPEM cert)
      (if crt_CACertPEM cert \<noteq> ''''
       then cf_write fe dir ''ca.pem'' (crt_CACertPEM cert) (cf_write_meta fe dir cert)
       else cf_write_meta fe dir cert)))"

definition cf_load :: "'w file_env \<Rightarrow> string \<Rightarrow> ('w, Certificate) act" where
  "cf_load fe dir =
     bindr (ext (fe_ReadFile fe (fe_Join fe dir ''meta.json''))) (\<lambda>metaBytes.
       case fe_Unmarshal fe metaBytes of
         Inl e \<Rightarrow> fail e
       | Inr meta \<Rightarrow>
           bindr (ext (fe_ReadFile fe (fe_Join fe dir ''cert.pem''))) (\<lambda>certPEM.
           bindr (ext (fe_ReadFile fe (fe_Join fe dir ''key.pem''))) (\<lambda>keyPEM.
           bindr (attempt (ext (fe_ReadFile fe (fe_Join fe dir ''ca.pem''))) (\<lambda>_. ret '''') ret) (\<lambda>caPEM.
             ret \<lparr>crt_Host = cm_Host meta, crt_CertPEM = certPEM, crt_KeyPEM = keyPEM, crt_CACertPEM = caPEM,
               crt_NotBefore = cm_NotBefore meta, crt_NotAfter = cm_NotAfter meta,
               crt_IssuerName = cm_IssuerName meta\<rparr>))))"

text \<open>
  A nil certificate of the wrapped issuer is dereferenced only after the directory of the host
  is created; when that fails \<open>Issue\<close> returns the nil certificate.
\<close>

definition cf_store_nil :: "'w file_env \<Rightarrow> string \<Rightarrow> ('w, Certificate option) act" where
  "cf_store_nil fe hostDir =
     attempt (ext (fe_MkdirAll fe hostDir)) (\<lambda>e. ret None) (\<lambda>_. panic ''nil pointer dereference'')"

definition cf_Issue ::
  "'w file_env \<Rightarrow> string \<Rightarrow> cf_config \<Rightarrow> 'w Issuer \<Rightarrow> RouteRequest \<Rightarrow> ('w, Certificate option) act" where
  "cf_Issue fe dir cfg inner req =
     (let hostDir = cf_hostDir fe dir (rr_Host req);
          issue = bindr (iss_Issue inner req) (\<lambda>cert. case cert of
            None \<Rightarrow> cf_store_nil fe hostDir
          | Some c \<Rightarrow> attempt (cf_store fe hostDir c) (\<lambda>e. ret (Some c)) (\<lambda>_. ret (Some c)))
      in attempt (cf_load fe hostDir) (\<lambda>e. issue)
           (\<lambda>cached w. if time_Until (fe_Now fe w) (crt_NotAfter cached) > cf_renewBefore cfg
                        then (Ret (Some cached), w) else issue w))"

definition cf_Revoke ::
  "'w file_env \<Rightarrow> string \<Rightarrow> 'w Issuer \<Rightarrow> Certificate \<Rightarrow> ('w, unit) act" where
  "cf_Revoke fe dir inner cert =
     attempt (ext (fe_RemoveAll fe (cf_hostDir fe dir (crt_Host cert))))
       (\<lambda>err. iss_Revoke inner cert) (\<lambda>_. iss_Revoke inner cert)"

definition cf_issuer :: "'w file_env \<Rightarrow> string \<Rightarrow> cf_config \<Rightarrow> 'w Issuer \<Rightarrow> 'w Issuer" where
  "cf_issuer fe dir cfg inner = \<lparr>iss_Issue = cf_Issue fe dir cfg inner, iss_Revoke = cf_Revoke fe dir inner,
     iss_Name = iss_Name inner\<rparr>"

section \<open>Vault\<close>

record cv_config =
  cv_address :: string
  cv_token :: string
  cv_mount :: string
  cv_prefix :: string
  cv_renewBefore :: int

definition cv_defaultConfig :: cv_config where
  "cv_defaultConfig = \<lparr>cv_address = ''http://127.0.0.1:8200'', cv_token = '''', cv_mount = ''secret'',
     cv_prefix = ''route-tls'', cv_renewBefore = 30 * 24 * 3600 * second\<rparr>"

definition cv_WithAddress :: "string \<Rightarrow> cv_config \<Rightarrow> cv_config" where
  "cv_WithAddress a c = c\<lparr>cv_address := a\<rparr>"

definition cv_WithToken :: "string \<Rightarrow> cv_config \<Rightarrow> cv_config" where
  "cv_WithToken t c = c\<lparr>cv_token := t\<rparr>"

definition cv_WithMount :: "string \<Rightarrow> cv_config \<Rightarrow> cv_config" where
  "cv_WithMount m c = c\<lparr>cv_mount := m\<rparr>"

definition cv_WithPrefix :: "string \<Rightarrow> cv_config \<Rightarrow> cv_config" where
  "cv_WithPrefix p c = c\<lparr>cv_prefix := p\<rparr>"

definition cv_WithRenewBefore :: "int \<Rightarrow> cv_config \<Rightarrow> cv_config" where
  "cv_WithRenewBefore d c = c\<lparr>cv_renewBefore := d\<rparr>"

text \<open>
  A KV v2 secret: the member \<open>data\<close> of its data, if that is a map; a value that is not a
  string fails the type assertions of the code. \<open>va_Read\<close> returns a nil secret for a path
  without one.
\<close>

datatype vval = VStr string | VArr "vval list" | VOther

type_synonym vault_secret = "(string \<rightharpoonup> vval) option"

record 'w vault_api =
  va_Read :: "string \<Rightarrow> ('w, vault_secret option) svc"
  va_Write :: "string \<Rightarrow> (string \<rightharpoonup> vval) \<Rightarrow> ('w, unit) svc"
  va_Delete :: "string \<Rightarrow> ('w, unit) svc"

text \<open>
  \<open>New\<close>: \<open>mk\<close> is \<open>vault.NewClient\<close> on the default configuration, with the address replaced when
  one is configured, and \<open>SetToken\<close> when a token is.
\<close>

definition cv_New ::
  "(string option \<Rightarrow> string option \<Rightarrow> gerror + 'w vault_api) \<Rightarrow> (cv_config \<Rightarrow> cv_config) list
   \<Rightarrow> gerror + ('w vault_api \<times> cv_config)" where
  "cv_New mk opts =
     (let cfg = foldl (\<lambda>c opt. opt c) cv_defaultConfig opts;
          nonempty = (\<lambda>s. if s \<noteq> '''' then Some s else None) in
      case mk (nonempty (cv_address cfg)) (nonempty (cv_token cfg)) of
        Inl e \<Rightarrow> Inl (ErrWrap ''create vault client'' e)
      | Inr client \<Rightarrow> Inr (client, cfg))"

definition sanitizeHost :: "string \<Rightarrow> string" where
  "sanitizeHost host = replace_dots_stars host"

definition cv_secretPath :: "cv_config \<Rightarrow> string \<Rightarrow> string" where
  "cv_secretPath cfg host = cv_mount cfg @ ''/data/'' @ cv_prefix cfg @ ''/'' @ sanitizeHost host"

fun vstr :: "vval option \<Rightarrow> string option" where
  "vstr (Some (VStr s)) = Some s"
| "vstr _ = None"

definition vstr0 :: "vval option \<Rightarrow> string" where
  "vstr0 v = (case vstr v of None \<Rightarrow> '''' | Some s \<Rightarrow> s)"

definition cv_secretToCert :: "'w time_env \<Rightarrow> vault_secret \<Rightarrow> Certificate option" where
  "cv_secretToCert te secret =
     (case secret of None \<Rightarrow> None
      | Some data \<Rightarrow>
        (let certPEM = vstr0 (data ''cert_pem''); keyPEM = vstr0 (data ''key_pem'') in
         if certPEM = '''' \<or> keyPEM = '''' then None
         else Some \<lparr>crt_Host = vstr0 (data ''host''), crt_CertPEM = certPEM, crt_KeyPEM = keyPEM,
           crt_CACertPEM = vstr0 (data ''ca_pem''),
           crt_NotBefore = parsed_time te (vstr (data ''not_before'')),
           crt_NotAfter = parsed_time te (vstr (data ''not_after'')),
           crt_IssuerName = vstr0 (data ''issuer'')\<rparr>))"

definition cv_data :: "'w time_env \<Rightarrow> Certificate \<Rightarrow> string \<rightharpoonup> vval" where
  "cv_data te cert =
     [''host'' \<mapsto> VStr (crt_Host cert), ''issuer'' \<mapsto> VStr (crt_IssuerName cert),
      ''cert_pem'' \<mapsto> VStr (crt_CertPEM cert), ''key_pem'' \<mapsto> VStr (crt_KeyPEM cert),
      ''ca_pem'' \<mapsto> VStr (crt_CACertPEM cert), ''not_before'' \<mapsto> VStr (te_Format te (crt_NotBefore cert)),
      ''not_after'' \<mapsto> VStr (te_Format te (crt_NotAfter cert))]"

definition cv_storeCert ::
  "'w time_env \<Rightarrow> 'w vault_api \<Rightarrow> cv_config \<Rightarrow> string \<Rightarrow> Certificate \<Rightarrow> ('w, unit) act" where
  "cv_storeCert te api cfg host cert = ext (va_Write api (cv_secretPath cfg host) (cv_data te cert))"

definition cv_reissue ::
  "'w time_env \<Rightarrow> 'w vault_api \<Rightarrow> cv_config \<Rightarrow> 'w Issuer \<Rightarrow> RouteRequest \<Rightarrow> ('w, Certificate option) act" where
  "cv_reissue te api cfg inner req =
     bindr (iss_Issue inner req) (\<lambda>cert. case cert of
       None \<Rightarrow> panic ''nil pointer dereference''
     | Some c \<Rightarrow> attempt (cv_storeCert te api cfg (rr_Host req) c) (\<lambda>e. ret (Some c)) (\<lambda>_. ret (Some c)))"

definition cv_Issue ::
  "'w time_env \<Rightarrow> 'w vault_api \<Rightarrow> cv_config \<Rightarrow> 'w Issuer \<Rightarrow> RouteRequest \<Rightarrow> ('w, Certificate option) act" where
  "cv_Issue te api cfg inner req =
     attempt (ext (va_Read api (cv_secretPath cfg (rr_Host req))))
       (\<lambda>err. cv_reissue te api cfg inner req)
       (\<lambda>secret w. case Option.bind secret (cv_secretToCert te) of
          None \<Rightarrow> cv_reissue te api cfg inner req w
        | Some cert \<Rightarrow>
            if still_fresh te (cv_renewBefore cfg) w (crt_NotAfter cert) then (Ret (Some cert), w)
            else cv_reissue te api cfg inner req w)"

definition cv_Revoke ::
  "'w vault_api \<Rightarrow> cv_config \<Rightarrow> 'w Issuer \<Rightarrow> Certificate \<Rightarrow> ('w, unit) act" where
  "cv_Revoke api cfg inner cert =
     attempt (ext (va_Delete api (cv_mount cfg @ ''/metadata/'' @ cv_prefix cfg @ ''/'' @ sanitizeHost (crt_Host cert))))
       (\<lambda>err. iss_Revoke inner cert) (\<lambda>_. iss_Revoke inner cert)"

definition cv_issuer ::
  "'w time_env \<Rightarrow> 'w vault_api \<Rightarrow> cv_config \<Rightarrow> 'w Issuer \<Rightarrow> 'w Issuer" where
  "cv_issuer te api cfg inner = \<lparr>iss_Issue = cv_Issue te api cfg inner,
     iss_Revoke = cv_Revoke api cfg inner, iss_Name = iss_Name inner\<rparr>"

lemma cv_roundtrip:
  assumes "rfc3339_ok te" "four_digit_year (crt_NotBefore c)" "four_digit_year (crt_NotAfter c)"
    "crt_CertPEM c \<noteq> ''''" "crt_KeyPEM c \<noteq> ''''"
  shows "cv_secretToCert te (Some (cv_data te c)) = Some (truncated c)"
  using assms by (simp add: cv_secretToCert_def cv_data_def vstr0_def truncated_def Let_def)

end
