(* ===== verification/CertCaching.thy ===== *)
theory CertCaching
  imports CertStores
begin

text \<open>
  What the three caching issuers have in common, as the locale \<open>cert_cache\<close> with an
  interpretation for each, and their properties.
\<close>

section \<open>The contract of a cache\<close>

text \<open>
  A caching issuer looks up a usable certificate, and only on a miss asks the wrapped issuer
  and stores what it returns; a failure to store is not an error. What it does with a nil
  certificate is its own (\<open>on_nil\<close>).
\<close>

definition issue_and_store ::
  "'w Issuer \<Rightarrow> (RouteRequest \<Rightarrow> ('w, Certificate option) act) \<Rightarrow> (RouteRequest \<Rightarrow> Certificate \<Rightarrow> ('w, unit) act) \<Rightarrow>
   RouteRequest \<Rightarrow> ('w, Certificate option) act" where
  "issue_and_store inner on_nil store req =
     bindr (iss_Issue inner req) (\<lambda>cert. case cert of
       None \<Rightarrow> on_nil req
     | Some c \<Rightarrow> attempt (store req c) (\<lambda>e. ret (Some c)) (\<lambda>_. ret (Some c)))"

locale cert_cache =
  fixes iss inner :: "'w Issuer"
    and lookup :: "RouteRequest \<Rightarrow> ('w, Certificate option) act"
    and on_nil :: "RouteRequest \<Rightarrow> ('w, Certificate option) act"
    and store :: "RouteRequest \<Rightarrow> Certificate \<Rightarrow> ('w, unit) act"
  assumes issue_law: "iss_Issue iss r w =
      bindr (lookup r) (\<lambda>hit. case hit of Some c \<Rightarrow> ret (Some c)
        | None \<Rightarrow> issue_and_store inner on_nil store r) w"
    and lookup_no_panic: "no_panic (lookup r)"
    and store_no_panic: "no_panic (store r c)"
begin

lemma hit: "lookup r w = (Ret (Some c), w') \<Longrightarrow> iss_Issue iss r w = (Ret (Some c), w')"
  by (simp add: issue_law)

lemma miss_returns_issued:
  assumes "lookup r w = (Ret None, w1)" "iss_Issue inner r w1 = (Ret (Some c), w2)"
  shows "fst (iss_Issue iss r w) = Ret (Some c)"
proof -
  obtain x v where s: "store r c w2 = (x, v)" by fastforce
  then have "x \<noteq> Panic z" for z using no_panicD [OF store_no_panic] by blast
  with assms s show ?thesis by (cases x) (auto simp: issue_law issue_and_store_def)
qed

lemma miss_stores:
  assumes "lookup r w = (Ret None, w1)" "iss_Issue inner r w1 = (Ret (Some c), w2)" "store r c w2 = (Ret (), w3)"
  shows "iss_Issue iss r w = (Ret (Some c), w3)"
  using assms by (simp add: issue_law issue_and_store_def)

lemma keeps_contract:
  assumes inner: "nonnil_issuer inner" and run: "iss_Issue iss r w = (x, w')"
  shows "(\<exists>c. x = Ret (Some c)) \<or> (\<exists>e. x = Fail e)"
proof -
  obtain y v where l: "lookup r w = (y, v)" by fastforce
  show ?thesis
  proof (cases y)
    case (Ret h)
    show ?thesis
    proof (cases h)
      case None
      obtain z u where i: "iss_Issue inner r v = (z, u)" by fastforce
      then consider c where "z = Ret (Some c)" | e where "z = Fail e"
        using nonnil_issuer.issue_nonnil [OF inner] by blast
      then show ?thesis
      proof cases
        case 1
        then show ?thesis using miss_returns_issued [of r w v c u] l Ret None i run by simp
      next
        case 2
        then show ?thesis using l Ret None i run by (auto simp: issue_law issue_and_store_def)
      qed
    qed (use l Ret run hit in auto)
  next
    case (Fail e)
    then show ?thesis using l run by (auto simp: issue_law)
  next
    case (Panic z)
    then show ?thesis using l no_panicD [OF lookup_no_panic] by blast
  qed
qed

lemma caching_nonnil:
  assumes "nonnil_issuer inner"
  shows "nonnil_issuer iss"
  by (rule nonnil_issuer.intro) (rule keeps_contract [OF assms])

end

section \<open>The three caches\<close>

definition ck_lookup ::
  "'w time_env \<Rightarrow> 'w secrets_api \<Rightarrow> ck_config \<Rightarrow> RouteRequest \<Rightarrow> ('w, Certificate option) act" where
  "ck_lookup te api cfg req =
     attempt (ext (sa_Get api (ck_namespace cfg) (secretName cfg (rr_Host req))))
       (\<lambda>err. if err = ErrNotFound then ret None
          else fail (ErrWrap (''get secret '' @ secretName cfg (rr_Host req)) err))
       (\<lambda>secret w. (Ret (case ck_secretToCert te secret of None \<Rightarrow> None | Some c \<Rightarrow>
          if still_fresh te (ck_renewBefore cfg) w (crt_NotAfter c) then Some c else None), w))"

definition cf_lookup ::
  "'w file_env \<Rightarrow> string \<Rightarrow> cf_config \<Rightarrow> RouteRequest \<Rightarrow> ('w, Certificate option) act" where
  "cf_lookup fe dir cfg req =
     attempt (cf_load fe (cf_hostDir fe dir (rr_Host req))) (\<lambda>e. ret None)
       (\<lambda>c w. (Ret (if time_Until (fe_Now fe w) (crt_NotAfter c) > cf_renewBefore cfg then Some c else None), w))"

definition cv_lookup ::
  "'w time_env \<Rightarrow> 'w vault_api \<Rightarrow> cv_config \<Rightarrow> RouteRequest \<Rightarrow> ('w, Certificate option) act" where
  "cv_lookup te api cfg req =
     attempt (ext (va_Read api (cv_secretPath cfg (rr_Host req)))) (\<lambda>err. ret None)
       (\<lambda>secret w. (Ret (case Option.bind secret (cv_secretToCert te) of None \<Rightarrow> None | Some c \<Rightarrow>
          if still_fresh te (cv_renewBefore cfg) w (crt_NotAfter c) then Some c else None), w))"

lemma no_panic_state_ret [simp]: "no_panic (\<lambda>w. (Ret (f w), w))"
  by (simp add: no_panic_def)

lemma ck_storeCert_no_panic: "no_panic (ck_storeCert te api cfg n c)"
  unfolding ck_storeCert_def Let_def by (intro no_panic_intros) simp_all

lemma cf_write_no_panic: "no_panic k \<Longrightarrow> no_panic (cf_write fe dir n c k)"
  unfolding cf_write_def by (intro no_panic_intros) simp_all

lemma cf_store_no_panic: "no_panic (cf_store fe dir c)"
proof -
  have "no_panic (cf_write_meta fe dir c)"
    by (simp add: cf_write_meta_def cf_write_no_panic split: sum.split)
  then show ?thesis unfolding cf_store_def by (intro no_panic_intros) (simp_all add: cf_write_no_panic)
qed

lemma cf_load_no_panic: "no_panic (cf_load fe dir)"
  unfolding cf_load_def
  by (intro no_panic_intros) (auto split: sum.split intro!: no_panic_intros)

interpretation ck: cert_cache "ck_issuer te api cfg inner" inner "ck_lookup te api cfg"
  "\<lambda>_. panic ''nil pointer dereference''"
  "\<lambda>r. ck_storeCert te api cfg (secretName cfg (rr_Host r))" for te api cfg inner
proof
  fix r w c
  show "no_panic (ck_lookup te api cfg r)"
    unfolding ck_lookup_def by (intro no_panic_intros) simp_all
  show "no_panic (ck_storeCert te api cfg (secretName cfg (rr_Host r)) c)" by (rule ck_storeCert_no_panic)
  show "iss_Issue (ck_issuer te api cfg inner) r w = bindr (ck_lookup te api cfg r)
      (\<lambda>hit. case hit of Some c \<Rightarrow> ret (Some c)
       | None \<Rightarrow> issue_and_store inner (\<lambda>_. panic ''nil pointer dereference'')
           (\<lambda>r. ck_storeCert te api cfg (secretName cfg (rr_Host r))) r) w"
    by (cases "sa_Get api (ck_namespace cfg) (secretName cfg (rr_Host r)) w")
      (auto simp: ck_issuer_def ck_Issue_def ck_lookup_def ck_reissue_def issue_and_store_def act_defs Let_def
        split: sum.splits option.splits)
qed

interpretation cf: cert_cache "cf_issuer fe dir cfg inner" inner "cf_lookup fe dir cfg"
  "\<lambda>r. cf_store_nil fe (cf_hostDir fe dir (rr_Host r))"
  "\<lambda>r. cf_store fe (cf_hostDir fe dir (rr_Host r))" for fe dir cfg inner
proof
  fix r w c
  show "no_panic (cf_lookup fe dir cfg r)"
    unfolding cf_lookup_def by (intro no_panic_intros) (simp_all add: cf_load_no_panic)
  show "no_panic (cf_store fe (cf_hostDir fe dir (rr_Host r)) c)" by (rule cf_store_no_panic)
  show "iss_Issue (cf_issuer fe dir cfg inner) r w = bindr (cf_lookup fe dir cfg r)
      (\<lambda>hit. case hit of Some c \<Rightarrow> ret (Some c)
       | None \<Rightarrow> issue_and_store inner (\<lambda>r. cf_store_nil fe (cf_hostDir fe dir (rr_Host r)))
           (\<lambda>r. cf_store fe (cf_hostDir fe dir (rr_Host r))) r) w"
    by (cases "cf_load fe (cf_hostDir fe dir (rr_Host r)) w"; cases "fst (cf_load fe (cf_hostDir fe dir (rr_Host r)) w)")
      (simp_all add: cf_issuer_def cf_Issue_def cf_lookup_def issue_and_store_def bindr_def attempt_def Let_def)
qed

interpretation cv: cert_cache "cv_issuer te api cfg inner" inner "cv_lookup te api cfg"
  "\<lambda>_. panic ''nil pointer dereference''"
  "\<lambda>r. cv_storeCert te api cfg (rr_Host r)" for te api cfg inner
proof
  fix r w c
  show "no_panic (cv_lookup te api cfg r)"
    unfolding cv_lookup_def by (intro no_panic_intros) simp_all
  show "no_panic (cv_storeCert te api cfg (rr_Host r) c)" by (simp add: cv_storeCert_def)
  show "iss_Issue (cv_issuer te api cfg inner) r w = bindr (cv_lookup te api cfg r)
      (\<lambda>hit. case hit of Some c \<Rightarrow> ret (Some c)
       | None \<Rightarrow> issue_and_store inner (\<lambda>_. panic ''nil pointer dereference'')
           (\<lambda>r. cv_storeCert te api cfg (rr_Host r)) r) w"
    by (cases "va_Read api (cv_secretPath cfg (rr_Host r)) w")
      (auto simp: cv_issuer_def cv_Issue_def cv_lookup_def cv_reissue_def issue_and_store_def act_defs Let_def
        split: sum.splits option.splits)
qed

text \<open>
  The documented behaviour of the directory of a host: it can be created and written, a
  written file reads back, and its four file names are different.
\<close>

definition files_ok :: "'w file_env \<Rightarrow> ('w \<Rightarrow> string \<rightharpoonup> string) \<Rightarrow> string \<Rightarrow> bool" where
  "files_ok fe fs dir \<longleftrightarrow>
     (\<forall>w. \<exists>w'. fe_MkdirAll fe dir w = (Inr (), w') \<and> fs w' = fs w) \<and>
     (\<forall>p s w. \<exists>w'. fe_WriteFile fe p s w = (Inr (), w') \<and> fs w' = (fs w)(p \<mapsto> s)) \<and>
     (\<forall>p w. fe_ReadFile fe p w = ((case fs w p of None \<Rightarrow> Inl ErrNotFound | Some s \<Rightarrow> Inr s), w)) \<and>
     distinct (map (fe_Join fe dir) [''meta.json'', ''cert.pem'', ''key.pem'', ''ca.pem''])"

lemma cf_write_run:
  assumes "files_ok fe fs dir"
  obtains w' where "cf_write fe dir n s k w = k w'" "fs w' = (fs w)(fe_Join fe dir n \<mapsto> s)"
proof -
  from assms obtain w' where "fe_WriteFile fe (fe_Join fe dir n) s w = (Inr (), w')"
    "fs w' = (fs w)(fe_Join fe dir n \<mapsto> s)" unfolding files_ok_def by metis
  then show ?thesis using that [of w'] by (simp add: cf_write_def)
qed

text \<open>The files that \<open>store\<close> leaves, over those that were there.\<close>

definition cf_files ::
  "'w file_env \<Rightarrow> string \<Rightarrow> Certificate \<Rightarrow> string \<Rightarrow> (string \<rightharpoonup> string) \<Rightarrow> string \<rightharpoonup> string" where
  "cf_files fe dir c s m =
     (let m' = m(fe_Join fe dir ''cert.pem'' \<mapsto> crt_CertPEM c, fe_Join fe dir ''key.pem'' \<mapsto> crt_KeyPEM c)
      in (if crt_CACertPEM c \<noteq> '''' then m'(fe_Join fe dir ''ca.pem'' \<mapsto> crt_CACertPEM c) else m')
           (fe_Join fe dir ''meta.json'' \<mapsto> s))"

lemma cf_store_run:
  assumes ok: "files_ok fe fs dir" and m: "fe_Marshal fe (meta_of c) = Inr s"
  obtains w' where "cf_store fe dir c w = (Ret (), w')" "fs w' = cf_files fe dir c s (fs w)"
proof -
  obtain w1 where w1: "fe_MkdirAll fe dir w = (Inr (), w1)" "fs w1 = fs w"
    using ok unfolding files_ok_def by metis
  let ?ca = "cf_write fe dir ''ca.pem'' (crt_CACertPEM c) (cf_write_meta fe dir c)"
  let ?last = "if crt_CACertPEM c \<noteq> '''' then ?ca else cf_write_meta fe dir c"
  let ?k = "cf_write fe dir ''key.pem'' (crt_KeyPEM c) ?last"
  obtain w2 where w2: "cf_write fe dir ''cert.pem'' (crt_CertPEM c) ?k w1 = ?k w2"
    "fs w2 = (fs w1)(fe_Join fe dir ''cert.pem'' \<mapsto> crt_CertPEM c)"
    by (rule cf_write_run [OF ok])
  obtain w3 where w3: "?k w2 = ?last w3"
    "fs w3 = (fs w2)(fe_Join fe dir ''key.pem'' \<mapsto> crt_KeyPEM c)"
    by (rule cf_write_run [OF ok])
  obtain w4 where w4: "?ca w3 = cf_write_meta fe dir c w4"
    "fs w4 = (fs w3)(fe_Join fe dir ''ca.pem'' \<mapsto> crt_CACertPEM c)"
    by (rule cf_write_run [OF ok])
  define w5 where "w5 = (if crt_CACertPEM c \<noteq> '''' then w4 else w3)"
  obtain w6 where w6: "cf_write fe dir ''meta.json'' s (ret ()) w5 = ret () w6"
    "fs w6 = (fs w5)(fe_Join fe dir ''meta.json'' \<mapsto> s)"
    by (rule cf_write_run [OF ok])
  have last: "?last w3 = ret () w6"
    using w4(1) w6(1) m by (cases "crt_CACertPEM c = ''''") (simp_all add: w5_def cf_write_meta_def)
  have "cf_store fe dir c w = (Ret (), w6)"
    using w1(1) w2(1) w3(1) last by (simp add: cf_store_def)
  then show ?thesis using that w1(2) w2(2) w3(2) w4(2) w6(2) by (simp add: cf_files_def w5_def)
qed

text \<open>What is read back is what was written, with the chain that the file has then.\<close>

lemma cf_load_stored:
  assumes ok: "files_ok fe fs dir" and u: "fe_Unmarshal fe s = Inr (meta_of c)"
    and w: "fs w = cf_files fe dir c s m"
  shows "cf_load fe dir w = (Ret (if crt_CACertPEM c = ''''
      then c\<lparr>crt_CACertPEM := lookup0 m (fe_Join fe dir ''ca.pem'')\<rparr> else c), w)"
proof -
  have read: "fe_ReadFile fe p w = ((case fs w p of None \<Rightarrow> Inl ErrNotFound | Some x \<Rightarrow> Inr x), w)" for p
    using ok by (simp add: files_ok_def)
  have names: "distinct (map (fe_Join fe dir) [''meta.json'', ''cert.pem'', ''key.pem'', ''ca.pem''])"
    using ok unfolding files_ok_def by blast
  moreover from names have "distinct (rev (map (fe_Join fe dir) [''meta.json'', ''cert.pem'', ''key.pem'', ''ca.pem'']))"
    by (simp only: distinct_rev)
  ultimately show ?thesis
    using u by (cases "m (fe_Join fe dir ''ca.pem'')")
      (simp_all add: cf_load_def read w cf_files_def meta_of_def lookup0_def)
qed

section \<open>Example environments\<close>

text \<open>Times written as signed decimal seconds, and stores that are maps.\<close>

definition example_Format :: "int \<Rightarrow> string" where
  "example_Format t = (if t < 0 then ''-'' @ itoa (nat (- (t div second))) else ''+'' @ itoa (nat (t div second)))"

definition example_Parse :: "string \<Rightarrow> int option" where
  "example_Parse s = (case s of [] \<Rightarrow> None
     | sign # digits \<Rightarrow> map_option (\<lambda>n. (if sign = CHR ''-'' then - int n else int n) * second) (atoi digits))"

definition example_time :: "'w time_env" where
  "example_time = \<lparr>te_Now = \<lambda>w. 0, te_Format = example_Format, te_Parse = example_Parse\<rparr>"

lemma example_time_ok: "rfc3339_ok example_time"
  by (auto simp: rfc3339_ok_def example_time_def example_Format_def example_Parse_def to_second_def
      div_nonpos_pos_le0)

definition example_secrets :: "(string \<rightharpoonup> Secret) secrets_api" where
  "example_secrets = \<lparr>sa_Get = \<lambda>ns n m. (case m n of None \<Rightarrow> Inl ErrNotFound | Some s \<Rightarrow> Inr s, m),
     sa_Create = \<lambda>ns s m. (Inr (), m(sec_Name s \<mapsto> s)), sa_Update = \<lambda>ns s m. (Inr (), m(sec_Name s \<mapsto> s)),
     sa_Delete = \<lambda>ns n m. (Inr (), m(n := None))\<rparr>"

lemma example_secrets_ok: "secrets_ok example_secrets ns id"
  by (simp add: secrets_ok_def example_secrets_def)

definition example_files :: "certMeta \<Rightarrow> (string \<rightharpoonup> string) file_env" where
  "example_files m = \<lparr>fe_Now = \<lambda>w. 0, fe_Join = \<lambda>d n. d @ ''/'' @ n, fe_MkdirAll = \<lambda>d w. (Inr (), w),
     fe_WriteFile = \<lambda>p s w. (Inr (), w(p \<mapsto> s)),
     fe_ReadFile = \<lambda>p w. (case w p of None \<Rightarrow> Inl ErrNotFound | Some s \<Rightarrow> Inr s, w),
     fe_RemoveAll = \<lambda>p w. (Inr (), w), fe_Marshal = \<lambda>x. Inr ''{}'', fe_Unmarshal = \<lambda>s. Inr m\<rparr>"

lemma example_files_ok: "files_ok (example_files m) id dir"
  by (simp add: files_ok_def example_files_def)

definition example_cert :: "string \<Rightarrow> string \<Rightarrow> Certificate" where
  "example_cert host ca = \<lparr>crt_Host = host, crt_CertPEM = ''C'', crt_KeyPEM = ''K'', crt_CACertPEM = ca,
     crt_NotBefore = 0, crt_NotAfter = 90 * 24 * 3600 * second, crt_IssuerName = ''vault-pki''\<rparr>"

definition example_issuer :: "'w Issuer" where
  "example_issuer = \<lparr>iss_Issue = \<lambda>r. ret (Some (example_cert (rr_Host r) '''')), iss_Revoke = \<lambda>c. ret (),
     iss_Name = ''vault-pki''\<rparr>"

lemma example_issuer_nonnil: "nonnil_issuer example_issuer"
  by (rule nonnil_issuer.intro) (auto simp: example_issuer_def)

section \<open>Properties\<close>

text \<open>
  C19: the decorators are transparent to the pipeline: around an issuer that never returns a
  nil certificate with a nil error, none of the three caching issuers does or panics, whatever
  the store answers.
\<close>

theorem caching_keeps_contract:
  assumes "nonnil_issuer inner"
  shows "nonnil_issuer (ck_issuer te api cfg inner) \<and> nonnil_issuer (cf_issuer fe dir fcfg inner) \<and>
    nonnil_issuer (cv_issuer te vapi vcfg inner)"
  using ck.caching_nonnil [OF assms] cf.caching_nonnil [OF assms] cv.caching_nonnil [OF assms] by blast

theorem caching_keeps_contract_witness:
  "nonnil_issuer (ck_issuer example_time example_secrets ck_defaultConfig (example_issuer :: (string \<rightharpoonup> Secret) Issuer)) \<and>
   nonnil_issuer (cf_issuer \<lparr>fe_Now = \<lambda>w. 0, fe_Join = (@), fe_MkdirAll = \<lambda>d w. (Inr (), w),
     fe_WriteFile = \<lambda>p s w. (Inr (), w), fe_ReadFile = \<lambda>p w. (Inl ErrNotFound, w),
     fe_RemoveAll = \<lambda>p w. (Inr (), w), fe_Marshal = \<lambda>x. Inr ''{}'',
     fe_Unmarshal = \<lambda>s. Inl ErrNotFound\<rparr> ''/certs'' cf_defaultConfig (example_issuer :: (string \<rightharpoonup> Secret) Issuer)) \<and>
   nonnil_issuer (cv_issuer example_time \<lparr>va_Read = \<lambda>p w. (Inr None, w), va_Write = \<lambda>p d w. (Inr (), w),
     va_Delete = \<lambda>p w. (Inr (), w)\<rparr> cv_defaultConfig (example_issuer :: (string \<rightharpoonup> Secret) Issuer))"
  by (rule caching_keeps_contract) (rule example_issuer_nonnil)

text \<open>
  C20: a certificate that the Kubernetes store does not have is issued once: the Secret then
  written makes every later call for the host, as long as more than the renewal margin is left,
  return the same certificate, its times cut to the second, without asking the issuer.
\<close>

theorem kube_cache_roundtrip:
  assumes "secrets_ok api (ck_namespace cfg) secs" and "rfc3339_ok te"
    and "secs w (secretName cfg (rr_Host req)) = None"
    and "iss_Issue inner req w = (Ret (Some c), w1)" and "secs w1 = secs w"
    and "four_digit_year (crt_NotBefore c)" and "four_digit_year (crt_NotAfter c)"
    and "crt_CertPEM c \<noteq> ''''" and "crt_KeyPEM c \<noteq> ''''"
  shows "\<exists>w2. ck_Issue te api cfg inner req w = (Ret (Some c), w2) \<and>
    (\<forall>w3. secs w3 = secs w2 \<and> still_fresh te (ck_renewBefore cfg) w3 (to_second (crt_NotAfter c)) \<longrightarrow>
       ck_Issue te api cfg inner req w3 = (Ret (Some (truncated c)), w3))"
proof -
  let ?n = "secretName cfg (rr_Host req)"
  obtain w2 where st: "ck_storeCert te api cfg ?n c w1 = (Ret (), w2)"
    "secs w2 = (secs w1)(?n \<mapsto> ck_secret te cfg ?n c)"
    by (rule ck_storeCert_run [OF assms(1)])
  have "ck_Issue te api cfg inner req w = (Ret (Some c), w2)"
    using assms(3,4) st(1) by (simp add: ck_Issue_cases [OF assms(1)] ck_cached_def ck_reissue_def)
  moreover have "ck_Issue te api cfg inner req w3 = (Ret (Some (truncated c)), w3)"
    if "secs w3 = secs w2" "still_fresh te (ck_renewBefore cfg) w3 (to_second (crt_NotAfter c))" for w3
    using that st(2) ck_secret_roundtrip [OF assms(2,6,7,8,9)]
    by (simp add: ck_Issue_cases [OF assms(1)] ck_cached_def) (simp add: truncated_def)
  ultimately show ?thesis by blast
qed

theorem kube_cache_roundtrip_witness:
  "\<exists>w2. ck_Issue example_time example_secrets ck_defaultConfig example_issuer
      (zero_RouteRequest\<lparr>rr_Host := ''a.io''\<rparr>) Map.empty = (Ret (Some (example_cert ''a.io'' '''')), w2) \<and>
    (\<forall>w3. id w3 = id w2 \<and> still_fresh example_time (ck_renewBefore ck_defaultConfig) w3
        (to_second (crt_NotAfter (example_cert ''a.io'' ''''))) \<longrightarrow>
       ck_Issue example_time example_secrets ck_defaultConfig example_issuer
         (zero_RouteRequest\<lparr>rr_Host := ''a.io''\<rparr>) w3 = (Ret (Some (truncated (example_cert ''a.io'' ''''))), w3))"
  by (rule kube_cache_roundtrip [OF example_secrets_ok example_time_ok])
    (simp_all add: example_issuer_def example_cert_def four_digit_year_def zero_RouteRequest_def)

text \<open>
  C21: the file store likewise: when it has no usable certificate of the host, what it is issued is
  returned, with its exact times, by every later call for the host, as long as more than the renewal
  margin is left, without asking the issuer. The chain is its own, if it has one; otherwise it is the
  chain of an earlier certificate whose \<open>ca.pem\<close> is still there.
\<close>

theorem file_cache_roundtrip:
  assumes "files_ok fe fs (cf_hostDir fe dir (rr_Host req))"
    and "cf_lookup fe dir cfg req w = (Ret None, w)"
    and "iss_Issue inner req w = (Ret (Some c), w1)" and "fs w1 = fs w"
    and "fe_Marshal fe (meta_of c) = Inr s" and "fe_Unmarshal fe s = Inr (meta_of c)"
  shows "\<exists>w2. cf_Issue fe dir cfg inner req w = (Ret (Some c), w2) \<and>
    (\<forall>w3. fs w3 = fs w2 \<and> time_Until (fe_Now fe w3) (crt_NotAfter c) > cf_renewBefore cfg \<longrightarrow>
       cf_Issue fe dir cfg inner req w3 =
         (Ret (Some (if crt_CACertPEM c \<noteq> '''' then c
            else c\<lparr>crt_CACertPEM := lookup0 (fs w) (fe_Join fe (cf_hostDir fe dir (rr_Host req)) ''ca.pem'')\<rparr>)), w3))"
proof -
  let ?d = "cf_hostDir fe dir (rr_Host req)"
  let ?c = "if crt_CACertPEM c \<noteq> '''' then c else c\<lparr>crt_CACertPEM := lookup0 (fs w) (fe_Join fe ?d ''ca.pem'')\<rparr>"
  have issue: "iss_Issue (cf_issuer fe dir cfg inner) req = cf_Issue fe dir cfg inner req"
    by (simp add: cf_issuer_def)
  obtain w2 where st: "cf_store fe ?d c w1 = (Ret (), w2)" "fs w2 = cf_files fe ?d c s (fs w1)"
    by (rule cf_store_run [OF assms(1,5)])
  have "cf_Issue fe dir cfg inner req w = (Ret (Some c), w2)"
    using cf.miss_stores [OF assms(2,3) st(1)] by (simp add: issue)
  moreover have "cf_Issue fe dir cfg inner req w3 = (Ret (Some ?c), w3)"
    if w3: "fs w3 = fs w2" "time_Until (fe_Now fe w3) (crt_NotAfter c) > cf_renewBefore cfg" for w3
  proof -
    have "cf_load fe ?d w3 = (Ret ?c, w3)"
      using cf_load_stored [OF assms(1,6), of w3 "fs w1"] w3(1) st(2) assms(4) by simp
    moreover have "crt_NotAfter ?c = crt_NotAfter c" by simp
    ultimately have "cf_lookup fe dir cfg req w3 = (Ret (Some ?c), w3)"
      using w3(2) unfolding cf_lookup_def by (simp only: attempt_Ret if_True)
    then show ?thesis using cf.hit issue by metis
  qed
  ultimately show ?thesis by blast
qed

text \<open>The chain that an earlier certificate has left is served with the new one.\<close>

theorem file_cache_roundtrip_witness:
  "\<exists>w2. cf_Issue (example_files (meta_of (example_cert ''a.io'' ''''))) ''/certs'' cf_defaultConfig example_issuer
      (zero_RouteRequest\<lparr>rr_Host := ''a.io''\<rparr>) [''/certs/a.io/ca.pem'' \<mapsto> ''OLD''] = (Ret (Some (example_cert ''a.io'' '''')), w2) \<and>
    cf_Issue (example_files (meta_of (example_cert ''a.io'' ''''))) ''/certs'' cf_defaultConfig example_issuer
      (zero_RouteRequest\<lparr>rr_Host := ''a.io''\<rparr>) w2 = (Ret (Some (example_cert ''a.io'' ''OLD'')), w2)"
proof -
  let ?fe = "example_files (meta_of (example_cert ''a.io'' ''''))" and ?w = "[''/certs/a.io/ca.pem'' \<mapsto> ''OLD'']"
  let ?req = "zero_RouteRequest\<lparr>rr_Host := ''a.io''\<rparr>"
  have dir: "cf_hostDir ?fe ''/certs'' (rr_Host ?req) = ''/certs/a.io''"
    by (simp add: cf_hostDir_def example_files_def zero_RouteRequest_def ReplaceAll1_def)
  have fresh: "time_Until (fe_Now ?fe w) (crt_NotAfter (example_cert ''a.io'' '''')) > cf_renewBefore cf_defaultConfig" for w
    by (simp add: example_files_def example_cert_def cf_defaultConfig_def time_Until_def max_duration_def min_duration_def)
  obtain w2 where w2: "cf_Issue ?fe ''/certs'' cf_defaultConfig example_issuer ?req ?w = (Ret (Some (example_cert ''a.io'' '''')), w2)"
    "\<forall>w3. id w3 = id w2 \<and> time_Until (fe_Now ?fe w3) (crt_NotAfter (example_cert ''a.io'' '''')) > cf_renewBefore cf_defaultConfig \<longrightarrow>
      cf_Issue ?fe ''/certs'' cf_defaultConfig example_issuer ?req w3 =
        (Ret (Some (if crt_CACertPEM (example_cert ''a.io'' '''') \<noteq> '''' then example_cert ''a.io'' ''''
          else (example_cert ''a.io'' '''')\<lparr>crt_CACertPEM :=
            lookup0 (id ?w) (fe_Join ?fe (cf_hostDir ?fe ''/certs'' (rr_Host ?req)) ''ca.pem'')\<rparr>)), w3)"
    using file_cache_roundtrip [where fe = ?fe and fs = id and ?w1.0 = ?w and s = "''{}''" and cfg = cf_defaultConfig
        and inner = example_issuer and dir = "''/certs''" and req = ?req and w = ?w and c = "example_cert ''a.io'' ''''",
        OF example_files_ok]
    by (simp add: example_files_def example_issuer_def zero_RouteRequest_def cf_lookup_def cf_load_def) blast
  have "lookup0 (id ?w) (fe_Join ?fe (cf_hostDir ?fe ''/certs'' (rr_Host ?req)) ''ca.pem'') = ''OLD''"
    unfolding dir by (simp add: example_files_def lookup0_def)
  then have "cf_Issue ?fe ''/certs'' cf_defaultConfig example_issuer ?req w2 = (Ret (Some (example_cert ''a.io'' ''OLD'')), w2)"
    using w2(2) [THEN spec [of _ w2]] fresh by (simp add: example_cert_def)
  with w2(1) show ?thesis by blast
qed

text \<open>The documented behaviour of a KV v2 engine: a write is read back, a path without secret is nil.\<close>

definition kv_ok :: "'w vault_api \<Rightarrow> ('w \<Rightarrow> string \<rightharpoonup> (string \<rightharpoonup> vval)) \<Rightarrow> bool" where
  "kv_ok api kv \<longleftrightarrow>
     (\<forall>p w. va_Read api p w = (Inr (map_option Some (kv w p)), w)) \<and>
     (\<forall>p d w. \<exists>w'. va_Write api p d w = (Inr (), w') \<and> kv w' = (kv w)(p \<mapsto> d))"

definition example_kv :: "(string \<rightharpoonup> (string \<rightharpoonup> vval)) vault_api" where
  "example_kv = \<lparr>va_Read = \<lambda>p w. (Inr (map_option Some (w p)), w), va_Write = \<lambda>p d w. (Inr (), w(p \<mapsto> d)),
     va_Delete = \<lambda>p w. (Inr (), w(p := None))\<rparr>"

lemma example_kv_ok: "kv_ok example_kv id"
  by (simp add: kv_ok_def example_kv_def)

text \<open>
  C22: the Vault store likewise: when it has no usable certificate of the host, what it is issued is
  returned, its times cut to the second, by every later call for the host, as long as more than the
  renewal margin is left, without asking the issuer.
\<close>

theorem vault_cache_roundtrip:
  assumes "kv_ok api kv" and "rfc3339_ok te"
    and "cv_lookup te api cfg req w = (Ret None, w)"
    and "iss_Issue inner req w = (Ret (Some c), w1)"
    and "four_digit_year (crt_NotBefore c)" and "four_digit_year (crt_NotAfter c)"
    and "crt_CertPEM c \<noteq> ''''" and "crt_KeyPEM c \<noteq> ''''"
  shows "\<exists>w2. cv_Issue te api cfg inner req w = (Ret (Some c), w2) \<and>
    (\<forall>w3. kv w3 = kv w2 \<and> still_fresh te (cv_renewBefore cfg) w3 (to_second (crt_NotAfter c)) \<longrightarrow>
       cv_Issue te api cfg inner req w3 = (Ret (Some (truncated c)), w3))"
proof -
  let ?p = "cv_secretPath cfg (rr_Host req)"
  have issue: "iss_Issue (cv_issuer te api cfg inner) req = cv_Issue te api cfg inner req"
    by (simp add: cv_issuer_def)
  obtain w2 where w2: "va_Write api ?p (cv_data te c) w1 = (Inr (), w2)"
    "kv w2 = (kv w1)(?p \<mapsto> cv_data te c)" using assms(1) unfolding kv_ok_def by blast
  then have "cv_storeCert te api cfg (rr_Host req) c w1 = (Ret (), w2)" by (simp add: cv_storeCert_def)
  then have "cv_Issue te api cfg inner req w = (Ret (Some c), w2)"
    using cv.miss_stores [OF assms(3,4)] issue by metis
  moreover have "cv_Issue te api cfg inner req w3 = (Ret (Some (truncated c)), w3)"
    if w3: "kv w3 = kv w2" "still_fresh te (cv_renewBefore cfg) w3 (to_second (crt_NotAfter c))" for w3
  proof -
    have "va_Read api ?p w3 = (Inr (Some (Some (cv_data te c))), w3)"
      using assms(1) w3(1) w2(2) by (simp add: kv_ok_def)
    then have "cv_lookup te api cfg req w3 = (Ret (Some (truncated c)), w3)"
      using w3(2) cv_roundtrip [OF assms(2,5-8)] by (simp add: cv_lookup_def) (simp add: truncated_def)
    then show ?thesis using cv.hit issue by metis
  qed
  ultimately show ?thesis by blast
qed

theorem vault_cache_roundtrip_witness:
  "\<exists>w2. cv_Issue example_time example_kv cv_defaultConfig example_issuer
      (zero_RouteRequest\<lparr>rr_Host := ''a.io''\<rparr>) Map.empty = (Ret (Some (example_cert ''a.io'' '''')), w2) \<and>
    (\<forall>w3. id w3 = id w2 \<and> still_fresh example_time (cv_renewBefore cv_defaultConfig) w3
        (to_second (crt_NotAfter (example_cert ''a.io'' ''''))) \<longrightarrow>
       cv_Issue example_time example_kv cv_defaultConfig example_issuer
         (zero_RouteRequest\<lparr>rr_Host := ''a.io''\<rparr>) w3 = (Ret (Some (truncated (example_cert ''a.io'' ''''))), w3))"
  by (rule vault_cache_roundtrip [OF example_kv_ok example_time_ok, where ?w1.0 = Map.empty])
    (simp_all add: example_issuer_def example_cert_def four_digit_year_def zero_RouteRequest_def
      cv_lookup_def example_kv_def)

text \<open>
  Secret names never exceed 253 characters, and the cache is keyed by them alone: for a
  host whose name collides with that of another, it serves the other host's certificate.
\<close>

lemma kube_cache_collision:
  assumes "secrets_ok api (ck_namespace cfg) secs"
    and "secretName cfg (rr_Host req) = secretName cfg host"
    and "secs w (secretName cfg host) = Some (ck_secret te cfg (secretName cfg host) c)"
    and "ck_secretToCert te (ck_secret te cfg (secretName cfg host) c) = Some c'"
    and "still_fresh te (ck_renewBefore cfg) w (crt_NotAfter c')"
  shows "length (secretName cfg host) \<le> 253 \<and> ck_Issue te api cfg inner req w = (Ret (Some c'), w)"
  using assms secretName_length by (simp add: ck_Issue_cases [OF assms(1)] ck_cached_def)

lemma kube_cache_collision_instance:
  "length (secretName ck_defaultConfig ''a.b.io'') \<le> 253 \<and>
   ck_Issue example_time example_secrets ck_defaultConfig example_issuer
     (zero_RouteRequest\<lparr>rr_Host := ''a-b.io''\<rparr>)
     [''route-tls-a-b-io'' \<mapsto> ck_secret (example_time :: (string \<rightharpoonup> Secret) time_env) ck_defaultConfig ''route-tls-a-b-io'' (example_cert ''a.b.io'' '''')] =
   (Ret (Some (truncated (example_cert ''a.b.io'' ''''))),
    [''route-tls-a-b-io'' \<mapsto> ck_secret (example_time :: (string \<rightharpoonup> Secret) time_env) ck_defaultConfig ''route-tls-a-b-io'' (example_cert ''a.b.io'' '''')])"
proof -
  have n: "secretName ck_defaultConfig ''a.b.io'' = ''route-tls-a-b-io''"
    "secretName ck_defaultConfig ''a-b.io'' = ''route-tls-a-b-io''"
    by (simp_all add: secretName_def ck_defaultConfig_def Let_def)
  have renew: "ck_renewBefore ck_defaultConfig = 30 * 24 * 3600 * second"
    by (simp add: ck_defaultConfig_def)
  let ?te = "example_time :: (string \<rightharpoonup> Secret) time_env"
  have c: "ck_secretToCert ?te (ck_secret ?te ck_defaultConfig (secretName ck_defaultConfig ''a.b.io'')
      (example_cert ''a.b.io'' '''')) = Some (truncated (example_cert ''a.b.io'' ''''))"
    by (rule ck_secret_roundtrip [OF example_time_ok]) (simp_all add: example_cert_def four_digit_year_def)
  show ?thesis
    by (rule kube_cache_collision [OF example_secrets_ok _ _ c])
      (simp_all add: n zero_RouteRequest_def still_fresh_def example_time_def renew truncated_def
        example_cert_def to_second_def time_Until_def max_duration_def min_duration_def)
qed

text \<open>
  The file store leaves an old \<open>ca.pem\<close> in place when it stores a certificate without
  chain: what it serves next combines the new certificate with the old chain.
\<close>

lemma file_cache_stale_chain:
  assumes "files_ok fe fs dir" and "crt_CACertPEM c = ''''"
    and "fe_Marshal fe (meta_of c) = Inr s" and "fe_Unmarshal fe s = Inr (meta_of c)"
    and "fs w (fe_Join fe dir ''ca.pem'') = Some old"
  shows "\<exists>w'. cf_store fe dir c w = (Ret (), w') \<and> cf_load fe dir w' = (Ret (c\<lparr>crt_CACertPEM := old\<rparr>), w')"
proof -
  obtain w' where "cf_store fe dir c w = (Ret (), w')" "fs w' = cf_files fe dir c s (fs w)"
    by (rule cf_store_run [OF assms(1,3)])
  then show ?thesis
    using cf_load_stored [OF assms(1,4)] assms(2,5) by (auto simp: lookup0_def)
qed

lemma file_cache_stale_chain_instance:
  "\<exists>w'. cf_store (example_files (meta_of (example_cert ''a.io'' ''''))) ''d'' (example_cert ''a.io'' '''')
      [''d/ca.pem'' \<mapsto> ''OLD''] = (Ret (), w') \<and>
    cf_load (example_files (meta_of (example_cert ''a.io'' ''''))) ''d'' w' =
      (Ret ((example_cert ''a.io'' '''')\<lparr>crt_CACertPEM := ''OLD''\<rparr>), w')"
  by (rule file_cache_stale_chain [where s = "''{}''", OF example_files_ok])
    (simp_all add: example_files_def example_cert_def)

end
