(* ===== verification/CertVault.thy ===== *)
theory CertVault
  imports CertStores
begin

text \<open>
  \<open>impl/cert-vault\<close> (\<open>issuer.go\<close>, \<open>options.go\<close>): the issuer over Vault's PKI engine. The Vault
  client, PEM decoding and the X.509 parser are parameters, the fields of \<open>pki_env\<close>; the number
  formatting of the revocation (\<open>big.Int.Bytes\<close>, \<open>%02x\<close>, \<open>strings.Join\<close>) is defined.
\<close>

section \<open>Configuration\<close>

record vi_config =
  vi_address :: string
  vi_token :: string
  vi_mount :: string
  vi_role :: string
  vi_ttl :: string

definition vi_defaultConfig :: vi_config where
  "vi_defaultConfig = \<lparr>vi_address = ''http://127.0.0.1:8200'', vi_token = '''', vi_mount = ''pki'',
     vi_role = '''', vi_ttl = ''720h''\<rparr>"

definition vi_WithAddress :: "string \<Rightarrow> vi_config \<Rightarrow> vi_config" where
  "vi_WithAddress addr c = c\<lparr>vi_address := addr\<rparr>"

definition vi_WithToken :: "string \<Rightarrow> vi_config \<Rightarrow> vi_config" where
  "vi_WithToken token c = c\<lparr>vi_token := token\<rparr>"

definition vi_WithMount :: "string \<Rightarrow> vi_config \<Rightarrow> vi_config" where
  "vi_WithMount mount c = c\<lparr>vi_mount := mount\<rparr>"

definition vi_WithRole :: "string \<Rightarrow> vi_config \<Rightarrow> vi_config" where
  "vi_WithRole role c = c\<lparr>vi_role := role\<rparr>"

definition vi_WithTTL :: "string \<Rightarrow> vi_config \<Rightarrow> vi_config" where
  "vi_WithTTL ttl c = c\<lparr>vi_ttl := ttl\<rparr>"

section \<open>The client\<close>

record x509_leaf =
  xl_SerialNumber :: int
  xl_NotBefore :: int
  xl_NotAfter :: int

text \<open>The \<open>Data\<close> of a secret is a map or nil; the secret itself can be nil.\<close>

record 'w pki_env =
  pk_Write :: "string \<Rightarrow> (string \<rightharpoonup> vval) \<Rightarrow> ('w, (string \<rightharpoonup> vval) option option) svc"
  pk_PemDecode :: "string \<Rightarrow> string option"
  pk_ParseCertificate :: "string \<Rightarrow> gerror + x509_leaf"

text \<open>
  \<open>New\<close>: \<open>mk\<close> is \<open>vault.NewClient\<close> on the default configuration, with the address replaced when
  one is configured, and \<open>SetToken\<close> when a token is.
\<close>

record 'w VaultIssuer =
  vi_client :: "'w pki_env"
  vi_cfg :: vi_config

definition vi_New ::
  "(string option \<Rightarrow> string option \<Rightarrow> gerror + 'w pki_env) \<Rightarrow> (vi_config \<Rightarrow> vi_config) list
   \<Rightarrow> gerror + 'w VaultIssuer" where
  "vi_New mk opts =
     (let cfg = foldl (\<lambda>c opt. opt c) vi_defaultConfig opts;
          nonempty = (\<lambda>s. if s \<noteq> '''' then Some s else None) in
      case mk (nonempty (vi_address cfg)) (nonempty (vi_token cfg)) of
        Inl e \<Rightarrow> Inl (ErrWrap ''create vault client'' e)
      | Inr client \<Rightarrow> Inr \<lparr>vi_client = client, vi_cfg = cfg\<rparr>)"

section \<open>Issuing\<close>

fun append_chain :: "string \<Rightarrow> vval list \<Rightarrow> string" where
  "append_chain caPEM [] = caPEM"
| "append_chain caPEM (VStr s # cs) = append_chain (caPEM @ s @ ''\<newline>'') cs"
| "append_chain caPEM (_ # cs) = append_chain caPEM cs"

definition ca_chain :: "vval option \<Rightarrow> string" where
  "ca_chain v = (case v of Some (VArr cs) \<Rightarrow> append_chain '''' cs | _ \<Rightarrow> '''')"

definition vi_read_response ::
  "'w pki_env \<Rightarrow> string \<Rightarrow> (string \<rightharpoonup> vval) \<Rightarrow> ('w, Certificate option) act" where
  "vi_read_response env host data =
     (let certPEM = vstr0 (data ''certificate''); keyPEM = vstr0 (data ''private_key'') in
      if certPEM = '''' \<or> keyPEM = ''''
      then fail (ErrMsg ''vault pki issue: missing certificate or private_key in response'')
      else case pk_PemDecode env certPEM of
        None \<Rightarrow> fail (ErrMsg ''vault pki issue: failed to decode certificate PEM'')
      | Some bytes \<Rightarrow>
        (case pk_ParseCertificate env bytes of
           Inl e \<Rightarrow> fail (ErrWrap ''vault pki issue: parse certificate'' e)
         | Inr leaf \<Rightarrow> ret (Some \<lparr>crt_Host = host, crt_CertPEM = certPEM, crt_KeyPEM = keyPEM,
             crt_CACertPEM = ca_chain (data ''ca_chain''), crt_NotBefore = xl_NotBefore leaf,
             crt_NotAfter = xl_NotAfter leaf, crt_IssuerName = ''vault-pki''\<rparr>)))"

definition vi_Issue :: "'w VaultIssuer \<Rightarrow> RouteRequest \<Rightarrow> ('w, Certificate option) act" where
  "vi_Issue v req =
     wrapr ''vault pki issue''
       (ext (pk_Write (vi_client v) (vi_mount (vi_cfg v) @ ''/issue/'' @ vi_role (vi_cfg v))
          [''common_name'' \<mapsto> VStr (rr_Host req), ''ttl'' \<mapsto> VStr (vi_ttl (vi_cfg v))]))
       (\<lambda>secret. case Option.bind secret id of
          None \<Rightarrow> fail (ErrMsg ''vault pki issue: empty response'')
        | Some data \<Rightarrow> vi_read_response (vi_client v) (rr_Host req) data)"

section \<open>Revoking\<close>

text \<open>\<open>big.Int.Bytes\<close>: the absolute value in big-endian order, without leading zeros.\<close>

fun nat_bytes :: "nat \<Rightarrow> nat list" where
  "nat_bytes n = (if n = 0 then [] else nat_bytes (n div 256) @ [n mod 256])"

declare nat_bytes.simps [simp del]

definition big_Bytes :: "int \<Rightarrow> nat list" where
  "big_Bytes i = nat_bytes (nat \<bar>i\<bar>)"

text \<open>\<open>%02x\<close> of a byte\<close>

definition hex_digit :: "nat \<Rightarrow> char" where
  "hex_digit d = ''0123456789abcdef'' ! d"

definition hex2 :: "nat \<Rightarrow> string" where
  "hex2 b = [hex_digit (b div 16), hex_digit (b mod 16)]"

definition formatSerial :: "nat list \<Rightarrow> string" where
  "formatSerial b = strings_Join (map hex2 b) '':''"

definition vi_Revoke :: "'w VaultIssuer \<Rightarrow> Certificate \<Rightarrow> ('w, unit) act" where
  "vi_Revoke v cert =
     (case pk_PemDecode (vi_client v) (crt_CertPEM cert) of
        None \<Rightarrow> fail (ErrMsg ''failed to decode certificate PEM'')
      | Some bytes \<Rightarrow>
        (case pk_ParseCertificate (vi_client v) bytes of
           Inl e \<Rightarrow> fail (ErrWrap ''parse certificate'' e)
         | Inr parsed \<Rightarrow>
             wrapr ''vault pki revoke''
               (ext (pk_Write (vi_client v) (vi_mount (vi_cfg v) @ ''/revoke'')
                  [''serial_number'' \<mapsto> VStr (formatSerial (big_Bytes (xl_SerialNumber parsed)))]))
               (\<lambda>_. ret ())))"

definition vault_issuer :: "'w VaultIssuer \<Rightarrow> 'w Issuer" where
  "vault_issuer v = \<lparr>iss_Issue = vi_Issue v, iss_Revoke = vi_Revoke v, iss_Name = ''vault-pki''\<rparr>"

section \<open>Contract\<close>

lemma vi_read_response_cases:
  "(\<exists>e. vi_read_response env host data w = (Fail e, w)) \<or>
   (\<exists>c. vi_read_response env host data w = (Ret (Some c), w) \<and> crt_Host c = host \<and>
      Some (VStr (crt_CertPEM c)) = data ''certificate'' \<and> crt_CertPEM c \<noteq> '''' \<and> crt_KeyPEM c \<noteq> '''' \<and>
      (\<exists>b leaf. pk_PemDecode env (crt_CertPEM c) = Some b \<and> pk_ParseCertificate env b = Inr leaf))"
  by (auto simp: vi_read_response_def Let_def vstr0_def split: option.splits sum.splits elim: vstr.elims)

lemma vi_Issue_cases:
  assumes "vi_Issue v req w = (x, w')"
  obtains e where "x = Fail e"
    | c where "x = Ret (Some c)" "crt_Host c = rr_Host req" "crt_CertPEM c \<noteq> ''''" "crt_KeyPEM c \<noteq> ''''"
        "\<exists>b leaf. pk_PemDecode (vi_client v) (crt_CertPEM c) = Some b \<and> pk_ParseCertificate (vi_client v) b = Inr leaf"
proof -
  let ?m = "ext (pk_Write (vi_client v) (vi_mount (vi_cfg v) @ ''/issue/'' @ vi_role (vi_cfg v))
          [''common_name'' \<mapsto> VStr (rr_Host req), ''ttl'' \<mapsto> VStr (vi_ttl (vi_cfg v))])"
  obtain y u where m: "?m w = (y, u)" by fastforce
  show ?thesis
  proof (cases y)
    case (Ret secret)
    show ?thesis
    proof (cases "Option.bind secret id")
      case None
      then have "x = Fail (ErrMsg ''vault pki issue: empty response'')"
        using assms m Ret by (simp add: vi_Issue_def)
      then show ?thesis by (rule that(1))
    next
      case (Some data)
      then have "vi_read_response (vi_client v) (rr_Host req) data u = (x, w')"
        using assms m Ret by (simp add: vi_Issue_def)
      then show ?thesis
        using that vi_read_response_cases [of "vi_client v" "rr_Host req" data u] by auto
    qed
  next
    case (Fail e)
    then have "x = Fail (ErrWrap ''vault pki issue'' e)" using assms m by (simp add: vi_Issue_def)
    then show ?thesis by (rule that(1))
  next
    case (Panic s)
    then show ?thesis using m by simp
  qed
qed

interpretation vi: host_issuer "vault_issuer v" for v
proof
  fix r w x w'
  assume "iss_Issue (vault_issuer v) r w = (x, w')"
  then show "(\<exists>c. x = Ret (Some c)) \<or> (\<exists>e. x = Fail e)"
    by (auto simp: vault_issuer_def elim: vi_Issue_cases)
next
  fix r w c w'
  assume "iss_Issue (vault_issuer v) r w = (Ret (Some c), w')"
  then show "crt_Host c = rr_Host r" by (auto simp: vault_issuer_def elim: vi_Issue_cases)
qed

section \<open>Reading a serial number back\<close>

fun hex_val :: "char \<Rightarrow> string \<Rightarrow> nat option" where
  "hex_val c [] = None"
| "hex_val c (d # ds) = (if c = d then Some 0 else map_option Suc (hex_val c ds))"

definition hex_value :: "char \<Rightarrow> nat option" where
  "hex_value c = hex_val c ''0123456789abcdef''"

text \<open>The colon-separated form, and the number that bytes stand for.\<close>

fun parse_serial :: "string \<Rightarrow> nat list option" where
  "parse_serial [] = Some []"
| "parse_serial [h, l] = (case (hex_value h, hex_value l) of (Some a, Some b) \<Rightarrow> Some [16 * a + b] | _ \<Rightarrow> None)"
| "parse_serial (h # l # c # s) =
     (case (hex_value h, hex_value l, parse_serial s) of
        (Some a, Some b, Some bs) \<Rightarrow> if c = CHR '':'' \<and> s \<noteq> [] then Some ((16 * a + b) # bs) else None
      | _ \<Rightarrow> None)"
| "parse_serial _ = None"

definition bytes_value :: "nat list \<Rightarrow> nat" where
  "bytes_value bs = foldl (\<lambda>a b. 256 * a + b) 0 bs"

lemma hex_table: "list_all (\<lambda>d. hex_value (hex_digit d) = Some d) [0..<16]"
  by code_simp

lemma hex_value_digit [simp]: "d < 16 \<Longrightarrow> hex_value (hex_digit d) = Some d"
  using hex_table by (simp add: list_all_iff)

lemma parse_formatSerial: "\<forall>b \<in> set bs. b < 256 \<Longrightarrow> parse_serial (formatSerial bs) = Some bs"
proof (induction bs)
  case Nil
  then show ?case by (simp add: formatSerial_def)
next
  case (Cons b bs)
  then have b: "b div 16 < 16" "16 * (b div 16) + b mod 16 = b" by (simp_all add: less_mult_imp_div_less)
  show ?case
  proof (cases bs)
    case Nil
    with b show ?thesis by (simp add: formatSerial_def hex2_def)
  next
    case (Cons c cs)
    then have "formatSerial (b # bs) = hex_digit (b div 16) # hex_digit (b mod 16) # CHR '':'' # formatSerial bs"
      by (simp add: formatSerial_def hex2_def)
    moreover have "formatSerial bs \<noteq> []"
      using Cons by (cases cs) (simp_all add: formatSerial_def hex2_def)
    ultimately show ?thesis using b Cons.IH Cons.prems by simp
  qed
qed

lemma nat_bytes_range: "b \<in> set (nat_bytes n) \<Longrightarrow> b < 256"
  by (induction n rule: nat_bytes.induct) (subst (asm) (2) nat_bytes.simps, auto split: if_splits)

lemma bytes_value_nat_bytes: "bytes_value (nat_bytes n) = n"
proof (induction n rule: nat_bytes.induct)
  case (1 n)
  then show ?case
    by (cases "n = 0") (simp_all add: nat_bytes.simps [of n] nat_bytes.simps [of 0] bytes_value_def)
qed

lemma serial_roundtrip:
  assumes "0 \<le> i"
  shows "map_option bytes_value (parse_serial (formatSerial (big_Bytes i))) = Some (nat i)"
proof -
  have "parse_serial (formatSerial (big_Bytes i)) = Some (big_Bytes i)"
    by (rule parse_formatSerial) (auto simp: big_Bytes_def dest: nat_bytes_range)
  then show ?thesis using assms by (simp add: big_Bytes_def bytes_value_nat_bytes)
qed

section \<open>Properties\<close>

text \<open>
  The serial number sent to Vault for a revocation, two lower-case hexadecimal digits per
  byte with colons between, denotes the serial number of the certificate.
\<close>

lemma vault_serial_roundtrip:
  assumes "pk_PemDecode (vi_client v) (crt_CertPEM cert) = Some b"
    and "pk_ParseCertificate (vi_client v) b = Inr leaf" and "0 \<le> xl_SerialNumber leaf"
  shows "\<exists>s. vi_Revoke v cert = wrapr ''vault pki revoke''
        (ext (pk_Write (vi_client v) (vi_mount (vi_cfg v) @ ''/revoke'') [''serial_number'' \<mapsto> VStr s])) (\<lambda>_. ret ()) \<and>
      map_option bytes_value (parse_serial s) = Some (nat (xl_SerialNumber leaf))"
  using assms(1,2) serial_roundtrip [OF assms(3)]
  by (intro exI [of _ "formatSerial (big_Bytes (xl_SerialNumber leaf))"]) (simp add: vi_Revoke_def)

text \<open>A client that records what is written, and a certificate with the serial number 0x12345.\<close>

definition example_pki :: "(string \<times> (string \<rightharpoonup> vval)) list pki_env" where
  "example_pki = \<lparr>pk_Write = \<lambda>path data log. (Inr None, log @ [(path, data)]), pk_PemDecode = Some,
     pk_ParseCertificate = \<lambda>b. Inr \<lparr>xl_SerialNumber = 74565, xl_NotBefore = 0, xl_NotAfter = 1\<rparr>\<rparr>"

definition example_vault :: "(string \<times> (string \<rightharpoonup> vval)) list VaultIssuer" where
  "example_vault = \<lparr>vi_client = example_pki, vi_cfg = vi_defaultConfig\<rparr>"

definition example_leaf :: Certificate where
  "example_leaf = \<lparr>crt_Host = ''a.io'', crt_CertPEM = ''C'', crt_KeyPEM = ''K'', crt_CACertPEM = '''',
     crt_NotBefore = 0, crt_NotAfter = 1, crt_IssuerName = ''vault-pki''\<rparr>"

lemma vault_serial_roundtrip_instance:
  "\<exists>s. vi_Revoke example_vault example_leaf = wrapr ''vault pki revoke''
        (ext (pk_Write example_pki ''pki/revoke'' [''serial_number'' \<mapsto> VStr s])) (\<lambda>_. ret ()) \<and>
      map_option bytes_value (parse_serial s) = Some 74565"
  using vault_serial_roundtrip [of example_vault example_leaf "''C''"]
  by (simp add: example_vault_def example_pki_def example_leaf_def vi_defaultConfig_def)

lemma example_revocation:
  "vi_Revoke example_vault example_leaf [] =
     (Ret (), [(''pki/revoke'', [''serial_number'' \<mapsto> VStr ''01:23:45''])])"
proof -
  have "formatSerial (big_Bytes 74565) = ''01:23:45''"
    by (simp add: big_Bytes_def nat_bytes.simps formatSerial_def hex2_def hex_digit_def)
  then show ?thesis
    by (simp add: vi_Revoke_def example_vault_def example_pki_def example_leaf_def vi_defaultConfig_def)
qed

end
