(* ===== verification/CertAcme.thy ===== *)
theory CertAcme
  imports CertIssuers
begin

text \<open>
  \<open>impl/cert-acme-http\<close> and \<open>impl/cert-acme-dns\<close>: the ACME issuers with the HTTP-01 and the
  DNS-01 challenge. The two packages repeat the same flow around their own challenge; it is
  stated once here (\<open>acme_Issue\<close>) and instantiated twice. The ACME client (\<open>golang.org/x/crypto/acme\<close>)
  and Go's \<open>crypto\<close> and \<open>encoding/pem\<close> are parameters, the fields of \<open>acme_env\<close>.
\<close>

section \<open>Configuration\<close>

record acme_config =
  ac_directoryURL :: string
  ac_email :: string
  ac_accountKey :: "string option"

definition acme_defaultConfig :: acme_config where
  "acme_defaultConfig = \<lparr>ac_directoryURL = ''https://acme-v02.api.letsencrypt.org/directory'',
     ac_email = '''', ac_accountKey = None\<rparr>"

definition acme_WithDirectoryURL :: "string \<Rightarrow> acme_config \<Rightarrow> acme_config" where
  "acme_WithDirectoryURL url c = c\<lparr>ac_directoryURL := url\<rparr>"

definition acme_WithEmail :: "string \<Rightarrow> acme_config \<Rightarrow> acme_config" where
  "acme_WithEmail email c = c\<lparr>ac_email := email\<rparr>"

definition acme_WithAccountKey :: "string option \<Rightarrow> acme_config \<Rightarrow> acme_config" where
  "acme_WithAccountKey key c = c\<lparr>ac_accountKey := key\<rparr>"

section \<open>The client\<close>

record challenge =
  ch_Type :: string
  ch_Token :: string

record authorization =
  az_Status :: string
  az_Challenges :: "challenge list"

record acme_order =
  od_URI :: string
  od_AuthzURLs :: "string list"
  od_FinalizeURL :: string

text \<open>
  \<open>ErrAlreadyExists\<close> stands for \<open>acme.ErrAccountAlreadyExists\<close>. \<open>ae_ParseCertificate\<close> returns
  the validity of a certificate, keys and DER blocks are strings.
\<close>

record 'w acme_env =
  ae_Register :: "string list \<Rightarrow> ('w, unit) svc"
  ae_AuthorizeOrder :: "(string \<times> string) list \<Rightarrow> ('w, acme_order) svc"
  ae_GetAuthorization :: "string \<Rightarrow> ('w, authorization) svc"
  ae_HTTP01ChallengeResponse :: "string \<Rightarrow> gerror + string"
  ae_DNS01ChallengeRecord :: "string \<Rightarrow> gerror + string"
  ae_Accept :: "challenge \<Rightarrow> ('w, unit) svc"
  ae_WaitAuthorization :: "string \<Rightarrow> ('w, unit) svc"
  ae_WaitOrder :: "string \<Rightarrow> ('w, acme_order) svc"
  ae_GenerateKey :: "('w, string) svc"
  ae_CreateCertificateRequest :: "string \<Rightarrow> string list \<Rightarrow> string \<Rightarrow> ('w, string) svc"
  ae_CreateOrderCert :: "string \<Rightarrow> string \<Rightarrow> ('w, string list) svc"
  ae_MarshalECPrivateKey :: "string \<Rightarrow> gerror + string"
  ae_ParseCertificate :: "string \<Rightarrow> gerror + (int \<times> int)"
  ae_PemEncode :: "string \<Rightarrow> string \<Rightarrow> string"
  ae_PemDecode :: "string \<Rightarrow> string option"
  ae_RevokeCert :: "string \<Rightarrow> ('w, unit) svc"

text \<open>A pure call that can fail, as a call of the program.\<close>

definition pure :: "(gerror + 'a) \<Rightarrow> ('w, 'a) act" where
  "pure r = (case r of Inl e \<Rightarrow> fail e | Inr x \<Rightarrow> ret x)"

text \<open>
  A deferred call runs when the function returns, whatever it returns, and when it panics; its
  result is dropped.
\<close>

definition with_defer :: "('w, 'b) act \<Rightarrow> ('w, 'a) act \<Rightarrow> ('w, 'a) act" where
  "with_defer d m w =
     (case m w of (r, w') \<Rightarrow>
        (case d w' of (Panic s, w'') \<Rightarrow> (Panic s, w'') | (_, w'') \<Rightarrow> (r, w'')))"

section \<open>The flow of both issuers\<close>

text \<open>
  \<open>New\<close>: a client has the account key and the directory, whose answers are those of the
  environment \<open>aa_Client\<close> gives; a key is generated when the options set none.
\<close>

record 'w acme_api =
  aa_GenerateKey :: "('w, string) svc"
  aa_Client :: "string \<Rightarrow> string \<Rightarrow> 'w acme_env"

definition acme_New ::
  "'w acme_api \<Rightarrow> acme_config \<Rightarrow> (acme_config \<Rightarrow> acme_config) list \<Rightarrow> ('w, 'w acme_env \<times> acme_config) act" where
  "acme_New api def_cfg opts =
     (let cfg = foldl (\<lambda>c opt. opt c) def_cfg opts;
          client = (\<lambda>key. (aa_Client api key (ac_directoryURL cfg), cfg\<lparr>ac_accountKey := Some key\<rparr>)) in
      case ac_accountKey cfg of
        Some key \<Rightarrow> ret (client key)
      | None \<Rightarrow> wrapr ''generate account key'' (ext (aa_GenerateKey api)) (\<lambda>key. ret (client key)))"

fun encode_cas :: "'w acme_env \<Rightarrow> string \<Rightarrow> string list \<Rightarrow> string" where
  "encode_cas env caPEM [] = caPEM"
| "encode_cas env caPEM (der # ders) = encode_cas env (caPEM @ ae_PemEncode env ''CERTIFICATE'' der) ders"

fun encodeDERChain :: "'w acme_env \<Rightarrow> string list \<Rightarrow> gerror + (string \<times> string)" where
  "encodeDERChain env [] = Inl (ErrMsg ''empty certificate chain'')"
| "encodeDERChain env (leaf # ders) =
     Inr (ae_PemEncode env ''CERTIFICATE'' leaf, encode_cas env '''' ders)"

fun find_challenge :: "string \<Rightarrow> challenge list \<Rightarrow> challenge option" where
  "find_challenge t [] = None"
| "find_challenge t (c # cs) = (if ch_Type c = t then Some c else find_challenge t cs)"

text \<open>Step 1: an account that exists already is fine.\<close>

definition acme_register :: "'w acme_env \<Rightarrow> acme_config \<Rightarrow> ('w, unit) act" where
  "acme_register env cfg =
     attempt (ext (ae_Register env (if ac_email cfg \<noteq> '''' then [''mailto:'' @ ac_email cfg] else [])))
       (\<lambda>e. if e = ErrAlreadyExists then ret () else fail (ErrWrap ''register account'' e)) ret"

text \<open>Step 3: the authorizations of the order, one after the other.\<close>

fun fulfill_all :: "(string \<Rightarrow> ('w, unit) act) \<Rightarrow> string list \<Rightarrow> ('w, unit) act" where
  "fulfill_all f [] = ret ()"
| "fulfill_all f (u # us) = bindr (f u) (\<lambda>_. fulfill_all f us)"

text \<open>Steps 5 to 8: key, signing request, certificate and its metadata.\<close>

definition acme_certificate ::
  "'w acme_env \<Rightarrow> string \<Rightarrow> string \<Rightarrow> string \<Rightarrow> string list \<Rightarrow> ('w, Certificate option) act" where
  "acme_certificate env name domain certKey derChain =
     bindr (pure (encodeDERChain env derChain)) (\<lambda>(certPEM, caPEM).
     wrapr ''marshal private key'' (pure (ae_MarshalECPrivateKey env certKey)) (\<lambda>keyDER.
     wrapr ''parse leaf certificate'' (pure (ae_ParseCertificate env (hd derChain))) (\<lambda>(notBefore, notAfter).
       ret (Some \<lparr>crt_Host = domain, crt_CertPEM = certPEM,
         crt_KeyPEM = ae_PemEncode env ''EC PRIVATE KEY'' keyDER, crt_CACertPEM = caPEM,
         crt_NotBefore = notBefore, crt_NotAfter = notAfter, crt_IssuerName = name\<rparr>))))"

definition acme_finalize ::
  "'w acme_env \<Rightarrow> string \<Rightarrow> string \<Rightarrow> acme_order \<Rightarrow> ('w, Certificate option) act" where
  "acme_finalize env name domain order =
     wrapr ''generate cert key'' (ext (ae_GenerateKey env)) (\<lambda>certKey.
     wrapr ''create CSR'' (ext (ae_CreateCertificateRequest env domain [domain] certKey)) (\<lambda>csr.
     wrapr ''finalize order'' (ext (ae_CreateOrderCert env (od_FinalizeURL order) csr)) (\<lambda>derChain.
       acme_certificate env name domain certKey derChain)))"

definition acme_Issue ::
  "'w acme_env \<Rightarrow> acme_config \<Rightarrow> string \<Rightarrow> (string \<Rightarrow> string \<Rightarrow> ('w, unit) act) \<Rightarrow> RouteRequest
   \<Rightarrow> ('w, Certificate option) act" where
  "acme_Issue env cfg name fulfill req =
     bindr (acme_register env cfg) (\<lambda>_.
     let domain = rr_Host req in
     wrapr ''authorize order'' (ext (ae_AuthorizeOrder env [(''dns'', domain)])) (\<lambda>order.
     bindr (fulfill_all (fulfill domain) (od_AuthzURLs order)) (\<lambda>_.
     wrapr ''wait order'' (ext (ae_WaitOrder env (od_URI order))) (\<lambda>order.
       acme_finalize env name domain order))))"

definition acme_Revoke :: "'w acme_env \<Rightarrow> Certificate \<Rightarrow> ('w, unit) act" where
  "acme_Revoke env cert =
     (case ae_PemDecode env (crt_CertPEM cert) of
        None \<Rightarrow> fail (ErrMsg ''failed to decode certificate PEM'')
      | Some bytes \<Rightarrow> ext (ae_RevokeCert env bytes))"

section \<open>HTTP-01\<close>

record 'w ChallengeSolver =
  sol_Present :: "string \<Rightarrow> string \<Rightarrow> string \<Rightarrow> ('w, unit) act"
  sol_Cleanup :: "string \<Rightarrow> string \<Rightarrow> ('w, unit) act"

text \<open>The part of the function after the challenge is presented.\<close>

definition await_authorization :: "'w acme_env \<Rightarrow> challenge \<Rightarrow> string \<Rightarrow> ('w, unit) act" where
  "await_authorization env chal authzURL =
     wrapr ''accept challenge'' (ext (ae_Accept env chal)) (\<lambda>_.
     wrapr ''wait authorization'' (ext (ae_WaitAuthorization env authzURL)) (\<lambda>_. ret ()))"

definition ah_present ::
  "'w acme_env \<Rightarrow> 'w ChallengeSolver \<Rightarrow> string \<Rightarrow> string \<Rightarrow> challenge \<Rightarrow> ('w, unit) act" where
  "ah_present env solver domain authzURL chal =
     wrapr ''compute challenge response'' (pure (ae_HTTP01ChallengeResponse env (ch_Token chal))) (\<lambda>keyAuth.
     wrapr ''present challenge'' (sol_Present solver domain (ch_Token chal) keyAuth) (\<lambda>_.
       with_defer (sol_Cleanup solver domain (ch_Token chal)) (await_authorization env chal authzURL)))"

definition ah_fulfillAuthorization ::
  "'w acme_env \<Rightarrow> 'w ChallengeSolver \<Rightarrow> string \<Rightarrow> string \<Rightarrow> ('w, unit) act" where
  "ah_fulfillAuthorization env solver domain authzURL =
     wrapr ''get authorization'' (ext (ae_GetAuthorization env authzURL)) (\<lambda>authz.
       if az_Status authz = ''valid'' then ret ()
       else case find_challenge ''http-01'' (az_Challenges authz) of
         None \<Rightarrow> fail (ErrMsg (''no http-01 challenge found for '' @ domain))
       | Some chal \<Rightarrow> ah_present env solver domain authzURL chal)"

definition ah_Issue ::
  "'w acme_env \<Rightarrow> acme_config \<Rightarrow> 'w ChallengeSolver \<Rightarrow> RouteRequest \<Rightarrow> ('w, Certificate option) act" where
  "ah_Issue env cfg solver = acme_Issue env cfg ''acme-http-01'' (ah_fulfillAuthorization env solver)"

definition ah_issuer :: "'w acme_env \<Rightarrow> acme_config \<Rightarrow> 'w ChallengeSolver \<Rightarrow> 'w Issuer" where
  "ah_issuer env cfg solver = \<lparr>iss_Issue = ah_Issue env cfg solver, iss_Revoke = acme_Revoke env,
     iss_Name = ''acme-http-01''\<rparr>"

definition ah_New ::
  "'w acme_api \<Rightarrow> 'w ChallengeSolver \<Rightarrow> (acme_config \<Rightarrow> acme_config) list \<Rightarrow> ('w, 'w Issuer) act" where
  "ah_New api solver opts =
     bindr (acme_New api acme_defaultConfig opts) (\<lambda>(env, cfg). ret (ah_issuer env cfg solver))"

section \<open>DNS-01\<close>

text \<open>The options of the package, which repeat those of the other one.\<close>

definition ad_defaultConfig :: acme_config where
  "ad_defaultConfig = \<lparr>ac_directoryURL = ''https://acme-v02.api.letsencrypt.org/directory'',
     ac_email = '''', ac_accountKey = None\<rparr>"

definition ad_WithDirectoryURL :: "string \<Rightarrow> acme_config \<Rightarrow> acme_config" where
  "ad_WithDirectoryURL url c = c\<lparr>ac_directoryURL := url\<rparr>"

definition ad_WithEmail :: "string \<Rightarrow> acme_config \<Rightarrow> acme_config" where
  "ad_WithEmail email c = c\<lparr>ac_email := email\<rparr>"

definition ad_WithAccountKey :: "string option \<Rightarrow> acme_config \<Rightarrow> acme_config" where
  "ad_WithAccountKey key c = c\<lparr>ac_accountKey := key\<rparr>"

record 'w DNSProvider =
  dns_Present :: "string \<Rightarrow> string \<Rightarrow> ('w, unit) act"
  dns_Cleanup :: "string \<Rightarrow> ('w, unit) act"

text \<open>The provider is an interface value, which can be nil.\<close>

definition ad_present ::
  "'w acme_env \<Rightarrow> 'w DNSProvider option \<Rightarrow> string \<Rightarrow> string \<Rightarrow> challenge \<Rightarrow> ('w, unit) act" where
  "ad_present env provider domain authzURL chal =
     wrapr ''compute challenge record'' (pure (ae_DNS01ChallengeRecord env (ch_Token chal))) (\<lambda>rec.
       case provider of
         None \<Rightarrow> panic ''nil pointer dereference''
       | Some p \<Rightarrow> wrapr ''present challenge'' (dns_Present p domain rec) (\<lambda>_.
           with_defer (dns_Cleanup p domain) (await_authorization env chal authzURL)))"

definition ad_fulfillAuthorization ::
  "'w acme_env \<Rightarrow> 'w DNSProvider option \<Rightarrow> string \<Rightarrow> string \<Rightarrow> ('w, unit) act" where
  "ad_fulfillAuthorization env provider domain authzURL =
     wrapr ''get authorization'' (ext (ae_GetAuthorization env authzURL)) (\<lambda>authz.
       if az_Status authz = ''valid'' then ret ()
       else case find_challenge ''dns-01'' (az_Challenges authz) of
         None \<Rightarrow> fail (ErrMsg (''no dns-01 challenge found for '' @ domain))
       | Some chal \<Rightarrow> ad_present env provider domain authzURL chal)"

definition ad_Issue ::
  "'w acme_env \<Rightarrow> acme_config \<Rightarrow> 'w DNSProvider option \<Rightarrow> RouteRequest \<Rightarrow> ('w, Certificate option) act" where
  "ad_Issue env cfg provider = acme_Issue env cfg ''acme-dns-01'' (ad_fulfillAuthorization env provider)"

definition ad_issuer :: "'w acme_env \<Rightarrow> acme_config \<Rightarrow> 'w DNSProvider option \<Rightarrow> 'w Issuer" where
  "ad_issuer env cfg provider = \<lparr>iss_Issue = ad_Issue env cfg provider, iss_Revoke = acme_Revoke env,
     iss_Name = ''acme-dns-01''\<rparr>"

definition ad_New ::
  "'w acme_api \<Rightarrow> 'w DNSProvider option \<Rightarrow> (acme_config \<Rightarrow> acme_config) list \<Rightarrow> ('w, 'w Issuer) act" where
  "ad_New api provider opts =
     bindr (acme_New api ad_defaultConfig opts) (\<lambda>(env, cfg). ret (ad_issuer env cfg provider))"

section \<open>Facts on the flow\<close>

lemma pure_simps [simp]: "pure (Inl e) w = (Fail e, w)" "pure (Inr x) w = (Ret x, w)"
  by (simp_all add: pure_def)

text \<open>Without a provider a pending DNS-01 challenge brings the process down.\<close>

lemma ad_nil_provider_panics:
  assumes "ae_GetAuthorization env u w = (Inr authz, w')" and "az_Status authz \<noteq> ''valid''"
    and "find_challenge ''dns-01'' (az_Challenges authz) = Some chal"
    and "ae_DNS01ChallengeRecord env (ch_Token chal) = Inr rec"
  shows "ad_fulfillAuthorization env None d u w = (Panic ''nil pointer dereference'', w')"
  using assms by (simp add: ad_fulfillAuthorization_def ad_present_def)

lemma pure_RetD: "pure r w = (Ret x, w') \<Longrightarrow> r = Inr x \<and> w' = w"
  by (cases r) simp_all

lemma no_panic_pure [simp]: "no_panic (pure r)"
  by (cases r) (simp_all add: pure_def)

lemma no_panic_with_defer: "no_panic d \<Longrightarrow> no_panic m \<Longrightarrow> no_panic (with_defer d m)"
  unfolding with_defer_def no_panic_def
  by (auto split: prod.split res.split) (metis fst_conv)+

lemma encodeDERChain_nonempty: "encodeDERChain env ders = Inr x \<Longrightarrow> ders \<noteq> []"
  by (cases ders) simp_all

text \<open>The index of the first block is never out of range: an empty chain is an error before it.\<close>

lemma acme_certificate_Ret:
  assumes "acme_certificate env name domain key ders w = (Ret x, w')"
  obtains c where "x = Some c" "crt_Host c = domain" "crt_IssuerName c = name" "ders \<noteq> []"
  using assms unfolding acme_certificate_def
  by (auto elim!: bindr_RetD wrapr_RetD dest!: pure_RetD encodeDERChain_nonempty split: prod.splits)

lemma acme_Issue_Ret:
  assumes "acme_Issue env cfg name f req w = (Ret x, w')"
  obtains c where "x = Some c" "crt_Host c = rr_Host req" "crt_IssuerName c = name"
  using assms unfolding acme_Issue_def acme_finalize_def Let_def
  by (auto elim!: bindr_RetD wrapr_RetD elim: acme_certificate_Ret)

lemma fulfill_all_no_panic: "(\<And>u. no_panic (f u)) \<Longrightarrow> no_panic (fulfill_all f us)"
  by (induction us) (auto intro: no_panic_bindr)

lemma acme_Issue_no_panic:
  assumes "\<And>d u. no_panic (f d u)"
  shows "no_panic (acme_Issue env cfg name f req)"
proof -
  have "no_panic (acme_register env cfg)"
    unfolding acme_register_def by (intro no_panic_attempt) simp_all
  moreover have "no_panic (acme_certificate env name d k ders)" for d k ders
    unfolding acme_certificate_def by (intro no_panic_intros) (auto split: prod.split intro!: no_panic_intros)
  ultimately show ?thesis
    unfolding acme_Issue_def acme_finalize_def Let_def
    by (intro no_panic_intros fulfill_all_no_panic assms) simp_all
qed

lemma await_authorization_no_panic: "no_panic (await_authorization env chal u)"
  unfolding await_authorization_def by (intro no_panic_intros) simp_all

end
