(* ===== verification/ChallengeServer.thy ===== *)
theory ChallengeServer
  imports CertAcme
begin

text \<open>
  \<open>cmd/routes-provisioner/internal/certificate/challenge_server.go\<close>: the HTTP server that
  serves the tokens of HTTP-01 challenges, the contract of a challenge solver discharged for it,
  and the life of a challenge of the ACME issuer. The world is the server and the rest;
  \<open>net.Listen\<close> is a parameter that acts on the rest. The mutex makes each operation atomic.
\<close>

section \<open>State and operations\<close>

text \<open>
  \<open>cs_server\<close> says whether the field \<open>server\<close> is set, \<open>cs_listening\<close> whether a goroutine serves
  on a listener.
\<close>

record ChallengeServer =
  cs_port :: int
  cs_tokens :: "string \<rightharpoonup> string"
  cs_server :: bool
  cs_listening :: bool

type_synonym 'e cs_world = "ChallengeServer \<times> 'e"

definition NewChallengeServer :: "int \<Rightarrow> ChallengeServer" where
  "NewChallengeServer port = \<lparr>cs_port = port, cs_tokens = Map.empty, cs_server = False, cs_listening = False\<rparr>"

definition ensureRunning :: "(string \<Rightarrow> ('e, unit) svc) \<Rightarrow> ('e cs_world, unit) act" where
  "ensureRunning listen = (\<lambda>(s, e).
     if cs_server s then (Ret (), (s, e))
     else
       let s' = s\<lparr>cs_server := True\<rparr> in
       case listen ('':'' @ fmt_d (cs_port s)) e of
         (Inl err, e') \<Rightarrow> (Fail (ErrWrap (''listen on port '' @ fmt_d (cs_port s)) err), (s', e'))
       | (Inr _, e') \<Rightarrow> (Ret (), (s'\<lparr>cs_listening := True\<rparr>, e')))"

definition cs_Present ::
  "(string \<Rightarrow> ('e, unit) svc) \<Rightarrow> string \<Rightarrow> string \<Rightarrow> string \<Rightarrow> ('e cs_world, unit) act" where
  "cs_Present listen domain token keyAuth = (\<lambda>(s, e).
     ensureRunning listen (s\<lparr>cs_tokens := (cs_tokens s)(token \<mapsto> keyAuth)\<rparr>, e))"

definition cs_Cleanup :: "string \<Rightarrow> string \<Rightarrow> ('e cs_world, unit) act" where
  "cs_Cleanup domain token = (\<lambda>(s, e). (Ret (), (s\<lparr>cs_tokens := (cs_tokens s)(token := None)\<rparr>, e)))"

text \<open>
  \<open>handleChallenge\<close> for the path of a request that the mux routes to it, that is one with the
  prefix: the status and the body.
\<close>

definition challenge_prefix :: string where
  "challenge_prefix = ''/.well-known/acme-challenge/''"

definition handleChallenge :: "ChallengeServer \<Rightarrow> string \<Rightarrow> int \<times> string" where
  "handleChallenge s path =
     (case cs_tokens s (drop (length challenge_prefix) path) of
        None \<Rightarrow> (404, ''404 page not found'')
      | Some keyAuth \<Rightarrow> (200, keyAuth))"

definition server_solver :: "(string \<Rightarrow> ('e, unit) svc) \<Rightarrow> 'e cs_world ChallengeSolver" where
  "server_solver listen = \<lparr>sol_Present = cs_Present listen, sol_Cleanup = cs_Cleanup\<rparr>"

text \<open>What a client gets for a token: an answer only from a server that listens.\<close>

definition served :: "'e cs_world \<Rightarrow> string \<Rightarrow> string option" where
  "served w token = (if cs_listening (fst w) then
     (case handleChallenge (fst w) (challenge_prefix @ token) of (st, body) \<Rightarrow> if st = 200 then Some body else None)
     else None)"

section \<open>Contract\<close>

text \<open>
  The contract of a solver (\<open>solver.go\<close>): after \<open>Present\<close> returns nil the key authorization is
  served at the path of the token; \<open>Cleanup\<close> takes it away and leaves the others. \<open>ready\<close> is
  the state of the solver in which that holds.
\<close>

locale challenge_solver =
  fixes sol :: "'w ChallengeSolver"
    and serves :: "'w \<Rightarrow> string \<rightharpoonup> string"
    and ready :: "'w \<Rightarrow> bool"
  assumes present_law: "ready w \<Longrightarrow> sol_Present sol d t k w = (Ret (), w') \<Longrightarrow> ready w' \<and> serves w' t = Some k"
    and present_no_panic: "no_panic (sol_Present sol d t k)"
    and cleanup_law: "\<exists>w'. sol_Cleanup sol d t w = (Ret (), w') \<and> serves w' = (serves w)(t := None)"
begin

lemma fulfill_no_panic: "no_panic (ah_fulfillAuthorization env sol d u)"
proof -
  have "no_panic (sol_Cleanup sol d t)" for t
    using cleanup_law unfolding no_panic_def by (metis fst_conv res.distinct(3))
  then have "no_panic (ah_present env sol d u chal)" for chal
    unfolding ah_present_def
    by (intro no_panic_wrapr no_panic_with_defer present_no_panic await_authorization_no_panic) simp_all
  then show ?thesis
    unfolding ah_fulfillAuthorization_def by (intro no_panic_wrapr) (auto split: option.split)
qed

text \<open>
  The life of a challenge: the client of a solver that is ready accepts and waits while the key authorization is served,
  and whatever comes of it, the token is not served afterwards.
\<close>

lemma challenge_life:
  assumes auth: "ae_GetAuthorization env u w = (Inr authz, w1)" and pending: "az_Status authz \<noteq> ''valid''"
    and chal: "find_challenge ''http-01'' (az_Challenges authz) = Some chal"
    and key: "ae_HTTP01ChallengeResponse env (ch_Token chal) = Inr k"
    and pres: "sol_Present sol d (ch_Token chal) k w1 = (Ret (), w2)"
    and await: "await_authorization env chal u w2 = (r, w3)"
  shows "(ready w1 \<longrightarrow> serves w2 (ch_Token chal) = Some k) \<and>
    (\<exists>w'. ah_fulfillAuthorization env sol d u w = (r, w') \<and> serves w' = (serves w3)(ch_Token chal := None))"
proof -
  obtain w' where c: "sol_Cleanup sol d (ch_Token chal) w3 = (Ret (), w')"
    "serves w' = (serves w3)(ch_Token chal := None)" using cleanup_law by blast
  have "with_defer (sol_Cleanup sol d (ch_Token chal)) (await_authorization env chal u) w2 = (r, w')"
    using await c(1) by (simp add: with_defer_def)
  then have "ah_fulfillAuthorization env sol d u w = (r, w')"
    using auth pending chal key pres by (simp add: ah_fulfillAuthorization_def ah_present_def)
  with c(2) present_law [OF _ pres] show ?thesis by blast
qed

end

lemma handleChallenge_prefix [simp]:
  "handleChallenge s (challenge_prefix @ t) =
     (case cs_tokens s t of None \<Rightarrow> (404, ''404 page not found'') | Some k \<Rightarrow> (200, k))"
  by (simp add: handleChallenge_def)

lemma served_eq: "served w t = (if cs_listening (fst w) then cs_tokens (fst w) t else None)"
  by (simp add: served_def split: option.split)

lemma ensureRunning_no_panic: "no_panic (ensureRunning listen)"
  by (auto simp: no_panic_def ensureRunning_def Let_def split: prod.split sum.split)

lemma cs_Present_no_panic: "no_panic (cs_Present listen d t k)"
  using ensureRunning_no_panic [of listen] by (auto simp: no_panic_def cs_Present_def split: prod.split)

text \<open>The server is a solver as long as it listens whenever the field \<open>server\<close> is set.\<close>

definition cs_ready :: "'e cs_world \<Rightarrow> bool" where
  "cs_ready w \<longleftrightarrow> (cs_server (fst w) \<longrightarrow> cs_listening (fst w))"

interpretation cs: challenge_solver "server_solver listen" served cs_ready for listen
proof
  fix d t k w w'
  assume "cs_ready w" "sol_Present (server_solver listen) d t k w = (Ret (), w')"
  then show "cs_ready w' \<and> served w' t = Some k"
    by (cases w) (auto simp: server_solver_def cs_Present_def ensureRunning_def Let_def cs_ready_def served_eq
        split: if_splits prod.splits sum.splits)
next
  fix d t w
  show "\<exists>w'. sol_Cleanup (server_solver listen) d t w = (Ret (), w') \<and> served w' = (served w)(t := None)"
    by (cases w) (auto simp: server_solver_def cs_Cleanup_def served_eq fun_eq_iff)
qed (simp add: server_solver_def cs_Present_no_panic)

text \<open>With this solver the HTTP-01 issuer keeps the contracts of an issuer.\<close>

interpretation ah: host_issuer "ah_issuer env cfg (server_solver listen)" for env cfg listen
proof
  fix r w x w'
  assume run: "iss_Issue (ah_issuer env cfg (server_solver listen)) r w = (x, w')"
  have np: "no_panic (ah_Issue env cfg (server_solver listen) r)"
    unfolding ah_Issue_def by (rule acme_Issue_no_panic) (rule cs.fulfill_no_panic)
  then have "x \<noteq> Panic s" for s
    using no_panicD [OF np, of w s w'] run by (auto simp: ah_issuer_def)
  then show "(\<exists>c. x = Ret (Some c)) \<or> (\<exists>e. x = Fail e)"
    using run by (cases x) (auto simp: ah_issuer_def ah_Issue_def elim: acme_Issue_Ret)
next
  fix r w c w'
  assume "iss_Issue (ah_issuer env cfg (server_solver listen)) r w = (Ret (Some c), w')"
  then show "crt_Host c = rr_Host r" by (auto simp: ah_issuer_def ah_Issue_def elim: acme_Issue_Ret)
qed

section \<open>Properties\<close>

lemma cs_not_ready:
  assumes "\<not> cs_ready w" "cs_Present listen d t k w = (x, w')"
  shows "served w' = Map.empty"
  using assms by (cases w) (auto simp: cs_ready_def cs_Present_def ensureRunning_def served_eq fun_eq_iff)

text \<open>
  C29: the life of a challenge. When an authorization is pending and \<open>Present\<close> has returned nil,
  the ACME server is told to validate, and waited for, in a state in which the key authorization
  is served under its token, unless the server has failed to listen before: then nothing is
  served. Afterwards, whether the validation succeeded or failed, the token is not served and the
  other tokens are as they were.
\<close>

theorem challenge_served_while_pending:
  assumes "ae_GetAuthorization env u w = (Inr authz, w1)" and "az_Status authz \<noteq> ''valid''"
    and "find_challenge ''http-01'' (az_Challenges authz) = Some chal"
    and "ae_HTTP01ChallengeResponse env (ch_Token chal) = Inr k"
    and "cs_Present listen d (ch_Token chal) k w1 = (Ret (), w2)"
    and "await_authorization env chal u w2 = (r, w3)"
  shows "(if cs_server (fst w1) \<and> \<not> cs_listening (fst w1) then served w2 = Map.empty
      else served w2 (ch_Token chal) = Some k) \<and>
    (\<exists>w'. ah_fulfillAuthorization env (server_solver listen) d u w = (r, w') \<and>
       served w' = (served w3)(ch_Token chal := None))"
  using cs.challenge_life [of env u w authz w1 chal k listen d w2 r w3] assms cs_not_ready [OF _ assms(5)]
  by (auto simp: server_solver_def cs_ready_def)

text \<open>
  A failure to listen is not recovered from: \<open>Present\<close> reports it once, keeps the token, and
  from then on every call succeeds although no server listens and no token is ever served.
\<close>

lemma failed_listen_is_forgotten:
  assumes "\<not> cs_server s" and "listen ('':'' @ fmt_d (cs_port s)) e = (Inl err, e')"
  shows "\<exists>s'. cs_Present listen d t k (s, e) = (Fail (ErrWrap (''listen on port '' @ fmt_d (cs_port s)) err), (s', e')) \<and>
    cs_tokens s' t = Some k \<and>
    (\<forall>d' t' k'. \<exists>s''. cs_Present listen d' t' k' (s', e') = (Ret (), (s'', e')) \<and>
       (cs_listening s \<or> served (s'', e') = Map.empty))"
proof -
  let ?s' = "s\<lparr>cs_tokens := (cs_tokens s)(t \<mapsto> k), cs_server := True\<rparr>"
  have "cs_Present listen d t k (s, e) = (Fail (ErrWrap (''listen on port '' @ fmt_d (cs_port s)) err), (?s', e'))"
    using assms by (simp add: cs_Present_def ensureRunning_def Let_def)
  moreover have "cs_Present listen d' t' k' (?s', e') = (Ret (), (?s'\<lparr>cs_tokens := (cs_tokens ?s')(t' \<mapsto> k')\<rparr>, e'))" for d' t' k'
    by (simp add: cs_Present_def ensureRunning_def)
  ultimately show ?thesis by (intro exI [of _ ?s']) (auto simp: served_eq fun_eq_iff)
qed

section \<open>Instances\<close>

definition example_acme :: "nat cs_world acme_env" where
  "example_acme = \<lparr>ae_Register = \<lambda>c w. (Inr (), w),
     ae_AuthorizeOrder = \<lambda>ids w. (Inr \<lparr>od_URI = ''o'', od_AuthzURLs = [''z''], od_FinalizeURL = ''f''\<rparr>, w),
     ae_GetAuthorization = \<lambda>u w. (Inr \<lparr>az_Status = ''pending'',
       az_Challenges = [\<lparr>ch_Type = ''dns-01'', ch_Token = ''d''\<rparr>, \<lparr>ch_Type = ''http-01'', ch_Token = ''t''\<rparr>]\<rparr>, w),
     ae_HTTP01ChallengeResponse = \<lambda>t. Inr (t @ ''.key''), ae_DNS01ChallengeRecord = \<lambda>t. Inr t,
     ae_Accept = \<lambda>c w. (Inr (), w), ae_WaitAuthorization = \<lambda>u w. (Inl (ErrExt ''invalid''), w),
     ae_WaitOrder = \<lambda>u w. (Inr \<lparr>od_URI = ''o'', od_AuthzURLs = [''z''], od_FinalizeURL = ''f''\<rparr>, w),
     ae_GenerateKey = \<lambda>w. (Inr ''K'', w), ae_CreateCertificateRequest = \<lambda>d ds k w. (Inr ''R'', w),
     ae_CreateOrderCert = \<lambda>u c w. (Inr [''L''], w), ae_MarshalECPrivateKey = \<lambda>k. Inr k,
     ae_ParseCertificate = \<lambda>d. Inr (0, 1), ae_PemEncode = \<lambda>t s. s, ae_PemDecode = Some,
     ae_RevokeCert = \<lambda>c w. (Inr (), w)\<rparr>"

theorem challenge_served_while_pending_witness:
  "\<exists>(w2 :: nat cs_world) w'. served w2 ''t'' = Some ''t.key'' \<and>
     ah_fulfillAuthorization example_acme (server_solver (\<lambda>a e. (Inr (), Suc e))) ''a.io'' ''z'' (NewChallengeServer 80, 0) =
       (Fail (ErrWrap ''wait authorization'' (ErrExt ''invalid'')), w') \<and> served w' ''t'' = None"
proof -
  let ?chal = "\<lparr>ch_Type = ''http-01'', ch_Token = ''t''\<rparr>" and ?w = "(NewChallengeServer 80, 0 :: nat)"
  let ?w2 = "((NewChallengeServer 80)\<lparr>cs_tokens := [''t'' \<mapsto> ''t.key''], cs_server := True, cs_listening := True\<rparr>, Suc 0)"
  have a: "await_authorization example_acme ?chal ''z'' ?w2 = (Fail (ErrWrap ''wait authorization'' (ErrExt ''invalid'')), ?w2)"
    by (simp add: await_authorization_def example_acme_def)
  have p: "cs_Present (\<lambda>a e. (Inr (), Suc e)) ''a.io'' (ch_Token ?chal) ''t.key'' ?w = (Ret (), ?w2)"
    by (simp add: cs_Present_def ensureRunning_def NewChallengeServer_def Let_def)
  have g: "ae_GetAuthorization example_acme ''z'' ?w = (Inr \<lparr>az_Status = ''pending'',
       az_Challenges = [\<lparr>ch_Type = ''dns-01'', ch_Token = ''d''\<rparr>, ?chal]\<rparr>, ?w)"
    by (simp add: example_acme_def)
  have "served ?w2 (ch_Token ?chal) = Some ''t.key'' \<and> (\<exists>w'. ah_fulfillAuthorization example_acme
      (server_solver (\<lambda>a e. (Inr (), Suc e))) ''a.io'' ''z'' ?w =
      (Fail (ErrWrap ''wait authorization'' (ErrExt ''invalid'')), w') \<and> served w' = (served ?w2)(ch_Token ?chal := None))"
    using challenge_served_while_pending [OF g _ _ _ p a] by (simp add: example_acme_def NewChallengeServer_def)
  then obtain w' where "served ?w2 ''t'' = Some ''t.key''" "ah_fulfillAuthorization example_acme
      (server_solver (\<lambda>a e. (Inr (), Suc e))) ''a.io'' ''z'' ?w =
      (Fail (ErrWrap ''wait authorization'' (ErrExt ''invalid'')), w')" "served w' ''t'' = None" by force
  then show ?thesis by (intro exI [of _ ?w2] exI [of _ w']) simp
qed

lemma failed_listen_is_forgotten_instance:
  "\<exists>s'. cs_Present (\<lambda>a e. (Inl (ErrExt ''address in use''), e)) ''a.io'' ''t'' ''k'' (NewChallengeServer 80, ()) =
     (Fail (ErrWrap ''listen on port 80'' (ErrExt ''address in use'')), (s', ())) \<and> cs_tokens s' ''t'' = Some ''k'' \<and>
    (\<forall>d' t' k'. \<exists>s''. cs_Present (\<lambda>a e. (Inl (ErrExt ''address in use''), e)) d' t' k' (s', ()) = (Ret (), (s'', ())) \<and>
       served (s'', ()) = Map.empty)"
proof -
  have "fmt_d 80 = ''80''" by code_simp
  then show ?thesis
    using failed_listen_is_forgotten [of "NewChallengeServer 80" "\<lambda>a e. (Inl (ErrExt ''address in use''), e)" "()"
      "ErrExt ''address in use''" "()" "''a.io''" "''t''" "''k''"]
    by (simp add: NewChallengeServer_def)
qed

end
