(* ===== verification/SourceMongo.thy ===== *)
theory SourceMongo
  imports Core
begin

text \<open>
  \<open>impl/source-mongo\<close> (\<open>trigger.go\<close>, \<open>lister.go\<close>, \<open>mapper.go\<close>, \<open>options.go\<close>) and
  \<open>cmd/routes-provisioner/internal/source/mongo_mapper.go\<close>: the trigger over a change stream,
  the list of the desired state, and the mapper of documents to routes. The driver, \<open>net/url\<close>,
  \<open>fmt\<close>'s verb \<open>%v\<close> on values of the driver and the clock are parameters.
\<close>

section \<open>Documents\<close>

text \<open>
  The Go values the mapper tells apart: strings, embedded documents as a \<open>bson.M\<close> (\<open>BsM\<close>) or a
  \<open>bson.D\<close> (\<open>BsD\<close>), and the rest.
\<close>

datatype bson =
    BsStr string
  | BsM "(string \<times> bson) list"
  | BsD "(string \<times> bson) list"
  | BsOther string

type_synonym bson_M = "(string \<times> bson) list"

definition bget :: "bson_M \<Rightarrow> string \<Rightarrow> bson option" where
  "bget d k = map_of d k"

text \<open>\<open>v, ok := m[k].(string)\<close> and \<open>v, ok := m[k].(bson.M)\<close>\<close>

definition bstr :: "bson option \<Rightarrow> string option" where
  "bstr v = (case v of Some (BsStr s) \<Rightarrow> Some s | _ \<Rightarrow> None)"

definition bdoc :: "bson option \<Rightarrow> bson_M option" where
  "bdoc v = (case v of Some (BsM d) \<Rightarrow> Some d | _ \<Rightarrow> None)"

text \<open>
  BSON as the server sends it, and \<open>Decode\<close> into a \<open>bson.M\<close>. Which of the two types the driver
  chooses for an embedded document is an option of the client: a \<open>bson.M\<close> with
  \<open>BSONOptions.DefaultDocumentM\<close> (\<open>dm\<close>), a \<open>bson.D\<close> otherwise.
\<close>

datatype raw_bson = RStr string | RDoc "(string \<times> raw_bson) list" | ROther string

fun decoded :: "bool \<Rightarrow> raw_bson \<Rightarrow> bson" and decode_M :: "bool \<Rightarrow> (string \<times> raw_bson) list \<Rightarrow> bson_M" where
  "decoded dm (RStr s) = BsStr s"
| "decoded dm (ROther s) = BsOther s"
| "decoded dm (RDoc fs) = (if dm then BsM (decode_M dm fs) else BsD (decode_M dm fs))"
| "decode_M dm [] = []"
| "decode_M dm ((k, v) # fs) = (k, decoded dm v) # decode_M dm fs"

lemma bget_decode_M: "bget (decode_M dm fs) k = map_option (decoded dm) (map_of fs k)"
  by (induction fs) (auto simp: bget_def)

lemma bstr_decode_M: "bstr (bget (decode_M dm fs) k) = (case map_of fs k of Some (RStr s) \<Rightarrow> Some s | _ \<Rightarrow> None)"
  by (simp add: bget_decode_M bstr_def split: option.split raw_bson.split)

lemma bdoc_decode_M:
  "bdoc (bget (decode_M dm fs) k) =
     (case map_of fs k of Some (RDoc d) \<Rightarrow> if dm then Some (decode_M dm d) else None | _ \<Rightarrow> None)"
  by (simp add: bget_decode_M bdoc_def split: option.split raw_bson.split)

text \<open>\<open>main\<close> connects with \<open>options.Client().ApplyURI(uri)\<close> and sets no BSON options.\<close>

definition main_DefaultDocumentM :: bool where
  "main_DefaultDocumentM = False"

section \<open>The mapper interface\<close>

record DocumentMapper =
  dm_Pipeline :: "string list"
  dm_MapEvent :: "int \<Rightarrow> bson_M \<Rightarrow> gerror + RouteEvent option"
  dm_MapDocument :: "bson_M \<Rightarrow> gerror + RouteRequest option"

section \<open>The mapper of the application\<close>

record MongoMapper =
  mm_URLField :: string
  mm_Path :: string
  mm_TLS :: bool
  mm_Backends :: "Backend list"

text \<open>\<open>ue_Hostname\<close> is \<open>url.Parse\<close> followed by \<open>Hostname\<close>; \<open>ue_fmt_v\<close> is \<open>%v\<close>, of nil too.\<close>

record url_env =
  ue_Hostname :: "string \<Rightarrow> gerror + string"
  ue_fmt_v :: "bson option \<Rightarrow> string"

text \<open>The operation types that \<open>Pipeline\<close> matches.\<close>

definition mm_Pipeline :: "string list" where
  "mm_Pipeline = [''insert'', ''update'', ''replace'', ''delete'']"

text \<open>The members that \<open>MapEvent\<close> and \<open>MapDocument\<close> set the same way.\<close>

definition mm_route :: "url_env \<Rightarrow> MongoMapper \<Rightarrow> bson_M \<Rightarrow> string \<Rightarrow> string \<Rightarrow> RouteRequest" where
  "mm_route ue m doc rawURL host =
     zero_RouteRequest\<lparr>rr_ID := ue_fmt_v ue (bget doc ''_id''), rr_Host := host, rr_Path := mm_Path m,
       rr_Backends := mm_Backends m, rr_TLS := mm_TLS m, rr_Metadata := [''source_url'' \<mapsto> rawURL]\<rparr>"

definition mm_MapDelete :: "url_env \<Rightarrow> bson_M \<Rightarrow> gerror + RouteEvent option" where
  "mm_MapDelete ue changeEvent =
     (case bdoc (bget changeEvent ''documentKey'') of
        None \<Rightarrow> Inr None
      | Some docKey \<Rightarrow> Inr (Some \<lparr>ev_Type = EventRouteDeleted,
          ev_Route = zero_RouteRequest\<lparr>rr_ID := ue_fmt_v ue (bget docKey ''_id'')\<rparr>, ev_RawData = ''''\<rparr>))"

definition mm_MapEvent :: "url_env \<Rightarrow> MongoMapper \<Rightarrow> int \<Rightarrow> bson_M \<Rightarrow> gerror + RouteEvent option" where
  "mm_MapEvent ue m now changeEvent =
     (let opType = (case bstr (bget changeEvent ''operationType'') of None \<Rightarrow> '''' | Some s \<Rightarrow> s) in
      if opType = ''delete'' then mm_MapDelete ue changeEvent
      else case bdoc (bget changeEvent ''fullDocument'') of
        None \<Rightarrow> Inr None
      | Some fullDoc \<Rightarrow>
        (case bstr (bget fullDoc (mm_URLField m)) of
           None \<Rightarrow> Inr None
         | Some rawURL \<Rightarrow>
             if rawURL = '''' then Inr None
             else case ue_Hostname ue rawURL of
               Inl err \<Rightarrow> Inl (ErrWrap (''parse url '' @ rawURL) err)
             | Inr host \<Rightarrow>
                 if host = '''' then Inr None
                 else Inr (Some
                   \<lparr>ev_Type = (if opType = ''update'' \<or> opType = ''replace'' then EventRouteUpdated else EventRouteCreated),
                    ev_Route = (mm_route ue m fullDoc rawURL host)\<lparr>rr_CreatedAt := now\<rparr>, ev_RawData = ''''\<rparr>)))"

definition mm_MapDocument :: "url_env \<Rightarrow> MongoMapper \<Rightarrow> bson_M \<Rightarrow> gerror + RouteRequest option" where
  "mm_MapDocument ue m doc =
     (case bstr (bget doc (mm_URLField m)) of
        None \<Rightarrow> Inr None
      | Some rawURL \<Rightarrow>
          if rawURL = '''' then Inr None
          else case ue_Hostname ue rawURL of
            Inl err \<Rightarrow> Inl (ErrWrap (''parse url '' @ rawURL) err)
          | Inr host \<Rightarrow> if host = '''' then Inr None else Inr (Some (mm_route ue m doc rawURL host)))"

definition mongo_mapper :: "url_env \<Rightarrow> MongoMapper \<Rightarrow> DocumentMapper" where
  "mongo_mapper ue m = \<lparr>dm_Pipeline = mm_Pipeline, dm_MapEvent = mm_MapEvent ue m, dm_MapDocument = mm_MapDocument ue m\<rparr>"

section \<open>Options of the trigger\<close>

record mt_config =
  mt_fullDocument :: string
  mt_resumeAfter :: "string option"
  mt_startAfter :: "string option"

definition mt_defaultConfig :: mt_config where
  "mt_defaultConfig = \<lparr>mt_fullDocument = ''updateLookup'', mt_resumeAfter = None, mt_startAfter = None\<rparr>"

definition mt_WithFullDocument :: "string \<Rightarrow> mt_config \<Rightarrow> mt_config" where
  "mt_WithFullDocument mode c = c\<lparr>mt_fullDocument := mode\<rparr>"

definition mt_WithResumeAfter :: "string option \<Rightarrow> mt_config \<Rightarrow> mt_config" where
  "mt_WithResumeAfter token c = c\<lparr>mt_resumeAfter := token\<rparr>"

definition mt_WithStartAfter :: "string option \<Rightarrow> mt_config \<Rightarrow> mt_config" where
  "mt_WithStartAfter token c = c\<lparr>mt_startAfter := token\<rparr>"

definition mt_New :: "(mt_config \<Rightarrow> mt_config) list \<Rightarrow> mt_config" where
  "mt_New opts = foldl (\<lambda>c opt. opt c) mt_defaultConfig opts"

section \<open>The trigger\<close>

text \<open>
  One turn of the loop of \<open>Start\<close> sees what \<open>cs.Next\<close> delivered: a document or a decoding error,
  the time of the clock, and whether the event channel takes the event before the context is
  cancelled. The loop runs over the turns until \<open>cs.Next\<close> returns false, with the error of the
  stream then; the result comes with the events sent.
\<close>

record turn =
  tn_Decode :: "gerror + bson_M"
  tn_Now :: int
  tn_Taken :: bool

fun mt_loop ::
  "DocumentMapper \<Rightarrow> gerror option \<Rightarrow> turn list \<Rightarrow> RouteEvent list \<Rightarrow> (gerror + unit) \<times> RouteEvent list" where
  "mt_loop mapper err [] sent =
     ((case err of None \<Rightarrow> Inr () | Some e \<Rightarrow> Inl (ErrWrap ''change stream error'' e)), sent)"
| "mt_loop mapper err (t # ts) sent =
     (case tn_Decode t of
        Inl e \<Rightarrow> (Inl (ErrWrap ''decode change event'' e), sent)
      | Inr raw \<Rightarrow>
        (case dm_MapEvent mapper (tn_Now t) raw of
           Inl e \<Rightarrow> (Inl (ErrWrap ''map change event'' e), sent)
         | Inr None \<Rightarrow> mt_loop mapper err ts sent
         | Inr (Some ev) \<Rightarrow>
             if tn_Taken t then mt_loop mapper err ts (sent @ [ev]) else (Inl ErrCtx, sent)))"

text \<open>\<open>watch\<close> is \<open>collection.Watch\<close>: an error, or the turns of the stream and its final error.\<close>

definition mt_Start ::
  "(mt_config \<Rightarrow> string list \<Rightarrow> gerror + (turn list \<times> gerror option)) \<Rightarrow> DocumentMapper \<Rightarrow> mt_config
   \<Rightarrow> (gerror + unit) \<times> RouteEvent list" where
  "mt_Start watch mapper cfg =
     (case watch cfg (dm_Pipeline mapper) of
        Inl e \<Rightarrow> (Inl (ErrWrap ''open change stream'' e), [])
      | Inr (turns, err) \<Rightarrow> mt_loop mapper err turns [])"

text \<open>
  The stream as the server sends it: the turns of the loop for the raw change events (or errors of
  the cursor), each with the clock and whether the event is taken.
\<close>

definition decoded_turn :: "bool \<Rightarrow> (gerror + (string \<times> raw_bson) list) \<times> int \<times> bool \<Rightarrow> turn" where
  "decoded_turn dm e = (case e of (d, now, taken) \<Rightarrow>
     \<lparr>tn_Decode = (case d of Inl err \<Rightarrow> Inl err | Inr fs \<Rightarrow> Inr (decode_M dm fs)), tn_Now = now, tn_Taken = taken\<rparr>)"

definition decoded_stream ::
  "bool \<Rightarrow> (mt_config \<Rightarrow> string list \<Rightarrow> gerror + (((gerror + (string \<times> raw_bson) list) \<times> int \<times> bool) list \<times> gerror option))
   \<Rightarrow> mt_config \<Rightarrow> string list \<Rightarrow> gerror + (turn list \<times> gerror option)" where
  "decoded_stream dm watch cfg pipeline = (case watch cfg pipeline of
     Inl e \<Rightarrow> Inl e | Inr (events, err) \<Rightarrow> Inr (map (decoded_turn dm) events, err))"

section \<open>The desired state\<close>

fun md_loop ::
  "DocumentMapper \<Rightarrow> gerror option \<Rightarrow> (gerror + bson_M) list \<Rightarrow> RouteRequest list \<Rightarrow> gerror + RouteRequest list" where
  "md_loop mapper err [] routes =
     (case err of None \<Rightarrow> Inr routes | Some e \<Rightarrow> Inl (ErrWrap ''cursor error'' e))"
| "md_loop mapper err (d # ds) routes =
     (case d of
        Inl e \<Rightarrow> Inl (ErrWrap ''decode document'' e)
      | Inr doc \<Rightarrow>
        (case dm_MapDocument mapper doc of
           Inl e \<Rightarrow> Inl (ErrWrap ''map document'' e)
         | Inr None \<Rightarrow> md_loop mapper err ds routes
         | Inr (Some route) \<Rightarrow> md_loop mapper err ds (routes @ [route])))"

text \<open>\<open>findAll\<close> is \<open>collection.Find\<close> with the documents the cursor then yields and its error.\<close>

definition md_List ::
  "('w, (gerror + bson_M) list \<times> gerror option) svc \<Rightarrow> DocumentMapper \<Rightarrow> ('w, RouteRequest list) act" where
  "md_List findAll mapper =
     wrapr ''find documents'' (ext findAll) (\<lambda>(docs, err).
       case md_loop mapper err docs [] of Inl e \<Rightarrow> fail e | Inr routes \<Rightarrow> ret routes)"

definition mongo_desired ::
  "('w, (gerror + bson_M) list \<times> gerror option) svc \<Rightarrow> DocumentMapper \<Rightarrow> 'w DesiredStateProvider" where
  "mongo_desired findAll mapper = \<lparr>des_List = md_List findAll mapper, des_Name = ''mongo-desired-state''\<rparr>"

section \<open>Facts on the loops\<close>

text \<open>The routes of documents that all map, the skipped ones left out.\<close>

fun mapped_routes :: "(gerror + 'b option) list \<Rightarrow> 'b list option" where
  "mapped_routes [] = Some []"
| "mapped_routes (Inl e # xs) = None"
| "mapped_routes (Inr None # xs) = mapped_routes xs"
| "mapped_routes (Inr (Some r) # xs) = map_option (Cons r) (mapped_routes xs)"

lemma md_loop_ok:
  "md_loop mapper None (map Inr docs) acc = Inr rs \<longleftrightarrow>
     (\<exists>xs. mapped_routes (map (dm_MapDocument mapper) docs) = Some xs \<and> rs = acc @ xs)"
  by (induction docs arbitrary: acc) (auto split: sum.split option.split)

lemma md_loop_fails:
  assumes "mapped_routes (map (dm_MapDocument mapper) docs) = Some xs" "dm_MapDocument mapper d = Inl e"
  shows "md_loop mapper err (map Inr docs @ Inr d # ds) acc = Inl (ErrWrap ''map document'' e)"
  using assms by (induction docs arbitrary: acc xs) (auto split: sum.split option.split sum.splits option.splits)

text \<open>With embedded documents as \<open>bson.D\<close> both type assertions of \<open>MapEvent\<close> fail.\<close>

lemma MapEvent_skips: "mm_MapEvent ue m now (decode_M False ce) = Inr None"
  by (simp add: mm_MapEvent_def mm_MapDelete_def Let_def bdoc_decode_M split: option.split raw_bson.split)

lemma mt_loop_silent:
  "mt_loop (mongo_mapper ue m) err (map (\<lambda>(ce, now, taken). decoded_turn False (Inr ce, now, taken)) changes) sent =
     ((case err of None \<Rightarrow> Inr () | Some e \<Rightarrow> Inl (ErrWrap ''change stream error'' e)), sent)"
  by (induction changes) (auto simp: decoded_turn_def mongo_mapper_def MapEvent_skips)

section \<open>Properties\<close>

text \<open>
  C28: the event of an insertion, update or replacement, against the route that the listing makes of
  the full document. If the client of the driver decodes embedded documents to \<open>bson.M\<close>, the event
  carries that route, up to the time of creation, and it is skipped, or fails, exactly when the
  listing skips the document or fails on it. If it does not, as with the options of \<open>main\<close>, every
  such event is skipped.
\<close>

theorem mongo_event_document_agree:
  assumes "map_of ce ''operationType'' = Some (RStr op)" and "op \<in> {''insert'', ''update'', ''replace''}"
    and "map_of ce ''fullDocument'' = Some (RDoc doc)"
  shows "mm_MapEvent ue m now (decode_M dm ce) =
    (if dm then
      (case mm_MapDocument ue m (decode_M dm doc) of
         Inl e \<Rightarrow> Inl e
       | Inr None \<Rightarrow> Inr None
       | Inr (Some r) \<Rightarrow> Inr (Some \<lparr>ev_Type = (if op = ''insert'' then EventRouteCreated else EventRouteUpdated),
           ev_Route = r\<lparr>rr_CreatedAt := now\<rparr>, ev_RawData = ''''\<rparr>))
     else Inr None)"
proof (cases dm)
  case True
  have "bstr (bget (decode_M dm ce) ''operationType'') = Some op"
    "bdoc (bget (decode_M dm ce) ''fullDocument'') = Some (decode_M dm doc)"
    using assms(1,3) True by (simp_all add: bstr_decode_M bdoc_decode_M)
  with assms(2) True show ?thesis
    by (auto simp: mm_MapEvent_def mm_MapDocument_def Let_def split: option.split sum.split)
qed (simp add: MapEvent_skips)

text \<open>
  C38: with the client as \<open>main\<close> connects it the MongoDB trigger is silent: whatever changes the
  stream delivers, it sends no event, and it ends as if there had been none. Only a reconciliation
  makes or removes routes.
\<close>

theorem mongo_trigger_silent:
  assumes "watch cfg mm_Pipeline = Inr (map (\<lambda>(ce, now, taken). (Inr ce, now, taken)) changes, err)"
  shows "mt_Start (decoded_stream main_DefaultDocumentM watch) (mongo_mapper ue m) cfg =
    ((case err of None \<Rightarrow> Inr () | Some e \<Rightarrow> Inl (ErrWrap ''change stream error'' e)), [])"
proof -
  have "map (decoded_turn False) (map (\<lambda>(ce, now, taken). (Inr ce, now, taken)) changes) =
      map (\<lambda>(ce, now, taken). decoded_turn False (Inr ce, now, taken)) changes"
    by auto
  moreover have "dm_Pipeline (mongo_mapper ue m) = mm_Pipeline" by (simp add: mongo_mapper_def)
  ultimately show ?thesis
    using assms by (simp add: mt_Start_def decoded_stream_def main_DefaultDocumentM_def mt_loop_silent del: map_map)
qed

text \<open>
  One document whose URL does not parse is enough to fail the whole listing, whatever the other
  documents are.
\<close>

lemma one_bad_document_fails_listing:
  assumes "mapped_routes (map (mm_MapDocument ue m) docs) = Some xs"
    and "mm_MapDocument ue m doc = Inl e"
    and "findAll w = (Inr (map Inr docs @ Inr doc # rest, err), w')"
  shows "des_List (mongo_desired findAll (mongo_mapper ue m)) w = (Fail (ErrWrap ''map document'' e), w')"
proof -
  have d: "dm_MapDocument (mongo_mapper ue m) = mm_MapDocument ue m" by (simp add: mongo_mapper_def)
  have "md_loop (mongo_mapper ue m) err (map Inr docs @ Inr doc # rest) [] = Inl (ErrWrap ''map document'' e)"
    using assms(1,2) by (intro md_loop_fails [of _ _ xs]) (simp_all only: d)
  then show ?thesis using assms(3) by (simp add: mongo_desired_def md_List_def)
qed

section \<open>Instances\<close>

text \<open>A URL is its host, and an empty host stands for one that does not parse.\<close>

definition example_url :: url_env where
  "example_url = \<lparr>ue_Hostname = \<lambda>s. if s = ''%zz'' then Inl (ErrExt ''invalid URL escape'') else Inr s,
     ue_fmt_v = \<lambda>v. case v of Some (BsStr s) \<Rightarrow> s | _ \<Rightarrow> ''<nil>''\<rparr>"

definition example_mongo :: MongoMapper where
  "example_mongo = \<lparr>mm_URLField = ''url'', mm_Path = ''/'', mm_TLS = True, mm_Backends = []\<rparr>"

definition example_doc :: "string \<Rightarrow> string \<Rightarrow> bson_M" where
  "example_doc i url = [(''_id'', BsStr i), (''url'', BsStr url)]"

definition example_raw :: "string \<Rightarrow> string \<Rightarrow> (string \<times> raw_bson) list" where
  "example_raw i url = [(''_id'', RStr i), (''url'', RStr url)]"

definition example_change :: "string \<Rightarrow> (string \<times> raw_bson) list \<Rightarrow> (string \<times> raw_bson) list" where
  "example_change op doc = [(''operationType'', RStr op), (''fullDocument'', RDoc doc)]"

theorem mongo_event_document_agree_witness:
  "mm_MapEvent example_url example_mongo 7 (decode_M True (example_change ''update'' (example_raw ''1'' ''a.io''))) =
   Inr (Some \<lparr>ev_Type = EventRouteUpdated, ev_Route = zero_RouteRequest\<lparr>rr_ID := ''1'', rr_Host := ''a.io'', rr_Path := ''/'',
     rr_TLS := True, rr_Metadata := [''source_url'' \<mapsto> ''a.io''], rr_CreatedAt := 7\<rparr>, ev_RawData = ''''\<rparr>) \<and>
   mm_MapEvent example_url example_mongo 7 (decode_M False (example_change ''update'' (example_raw ''1'' ''a.io''))) = Inr None"
proof -
  let ?ce = "example_change ''update'' (example_raw ''1'' ''a.io'')"
  have "map_of ?ce ''operationType'' = Some (RStr ''update'')" "map_of ?ce ''fullDocument'' = Some (RDoc (example_raw ''1'' ''a.io''))"
    by (simp_all add: example_change_def)
  note agree = mongo_event_document_agree [OF this(1) _ this(2), of example_url example_mongo 7]
  from agree [of True] agree [of False] show ?thesis
    by (simp add: mm_MapDocument_def mm_route_def example_raw_def example_url_def example_mongo_def bget_def bstr_def
        zero_RouteRequest_def)
qed

theorem mongo_trigger_silent_witness:
  "mt_Start (decoded_stream main_DefaultDocumentM (\<lambda>cfg p. Inr
       ([(Inr (example_change ''insert'' (example_raw ''1'' ''a.io'')), 7, True)], None)))
     (mongo_mapper example_url example_mongo) mt_defaultConfig = (Inr (), [])"
  by (subst mongo_trigger_silent [where changes = "[(example_change ''insert'' (example_raw ''1'' ''a.io''), 7, True)]" and err = None])
    simp_all

lemma one_bad_document_instance:
  "des_List (mongo_desired (\<lambda>w. (Inr ([Inr (example_doc ''1'' ''a.io''), Inr (example_doc ''2'' ''%zz''), Inr (example_doc ''3'' ''b.io'')], None), w))
     (mongo_mapper example_url example_mongo)) () = (Fail (ErrWrap ''map document'' (ErrWrap ''parse url %zz'' (ErrExt ''invalid URL escape''))), ())"
  by (rule one_bad_document_fails_listing [where docs = "[example_doc ''1'' ''a.io'']"])
    (simp_all add: mm_MapDocument_def example_doc_def example_url_def example_mongo_def bget_def bstr_def)

end
