(* ===== verification/Composites.thy ===== *)
theory Composites
  imports Core
begin

text \<open>
  Small components around the core: \<open>core/desired/composite.go\<close> and \<open>core/trigger/composite.go\<close>,
  which make one source of several, \<open>impl/lease-kube\<close>, which adapts client-go's leader election,
  and \<open>cmd/routes-provisioner/internal/config/loghandler.go\<close>, the text log handler.
\<close>

section \<open>Several desired states\<close>

definition composite_Name :: "string list \<Rightarrow> string" where
  "composite_Name names = ''composite('' @ strings_Join names '', '' @ '')''"

fun composite_List :: "'w DesiredStateProvider list \<Rightarrow> RouteRequest list \<Rightarrow> ('w, RouteRequest list) act" where
  "composite_List [] all = ret all"
| "composite_List (p # ps) all = bindr (des_List p) (\<lambda>routes. composite_List ps (all @ routes))"

definition desired_NewComposite :: "'w DesiredStateProvider list \<Rightarrow> 'w DesiredStateProvider" where
  "desired_NewComposite providers = \<lparr>des_List = composite_List providers [],
     des_Name = composite_Name (map des_Name providers)\<rparr>"

text \<open>When every provider only reads, the result is the concatenation.\<close>

lemma composite_List_concat:
  assumes "list_all2 (\<lambda>p rs. des_List p w = (Ret rs, w)) ps rss"
  shows "composite_List ps all w = (Ret (all @ concat rss), w)"
  using assms by (induction ps rss arbitrary: all rule: list_all2_induct) auto

lemma composite_List_fails:
  assumes "list_all2 (\<lambda>p rs. des_List p w = (Ret rs, w)) ps rss" "des_List p w = (Fail e, w')"
  shows "composite_List (ps @ p # qs) all w = (Fail e, w')"
  using assms by (induction ps rss arbitrary: all rule: list_all2_induct) auto

section \<open>Several triggers\<close>

text \<open>
  The children of \<open>Start\<close> in the order in which they return: each with its error, if any, and
  whether the context of the caller is cancelled by then. The first error that finds the context
  alive is kept and cancels the other children; \<open>wg.Wait\<close> waits for all.
\<close>

fun trigger_wait :: "gerror option \<Rightarrow> bool \<Rightarrow> (gerror option \<times> bool) list \<Rightarrow> gerror option" where
  "trigger_wait firstErr cancelled [] = firstErr"
| "trigger_wait firstErr cancelled ((err, outer) # rest) =
     (let done = cancelled \<or> outer in
      case err of
        None \<Rightarrow> trigger_wait firstErr done rest
      | Some e \<Rightarrow>
          if done then trigger_wait firstErr done rest
          else trigger_wait (case firstErr of None \<Rightarrow> Some e | Some f \<Rightarrow> Some f) True rest)"

definition trigger_Start :: "(gerror option \<times> bool) list \<Rightarrow> gerror option" where
  "trigger_Start returns = trigger_wait None False returns"

lemma trigger_wait_cancelled: "trigger_wait f True rest = f"
  by (induction rest) (auto simp: Let_def split: option.split)

text \<open>The result is the error of the first child that fails before any cancellation.\<close>

lemma trigger_Start_first:
  assumes "\<forall>(err, outer) \<in> set pre. err = None \<and> \<not> outer"
  shows "trigger_Start (pre @ (Some e, False) # rest) = Some e"
    and "trigger_Start (pre @ (err, True) # rest) = None"
proof -
  have "trigger_wait None False (pre @ xs) = trigger_wait None False xs" for xs
    using assms by (induction pre) (auto simp: Let_def)
  then show "trigger_Start (pre @ (Some e, False) # rest) = Some e" "trigger_Start (pre @ (err, True) # rest) = None"
    by (auto simp: trigger_Start_def trigger_wait_cancelled Let_def split: option.split)
qed

section \<open>The Kubernetes elector\<close>

record lk_config =
  lk_namespace :: string
  lk_leaseName :: string
  lk_identity :: string
  lk_leaseDuration :: int
  lk_renewDeadline :: int
  lk_retryPeriod :: int

definition lk_defaultConfig :: lk_config where
  "lk_defaultConfig = \<lparr>lk_namespace = ''default'', lk_leaseName = ''leader'', lk_identity = '''',
     lk_leaseDuration = 15 * second, lk_renewDeadline = 10 * second, lk_retryPeriod = 2 * second\<rparr>"

definition lk_WithNamespace :: "string \<Rightarrow> lk_config \<Rightarrow> lk_config" where
  "lk_WithNamespace ns c = c\<lparr>lk_namespace := ns\<rparr>"

definition lk_WithLeaseName :: "string \<Rightarrow> lk_config \<Rightarrow> lk_config" where
  "lk_WithLeaseName name c = c\<lparr>lk_leaseName := name\<rparr>"

definition lk_WithIdentity :: "string \<Rightarrow> lk_config \<Rightarrow> lk_config" where
  "lk_WithIdentity i c = c\<lparr>lk_identity := i\<rparr>"

definition lk_WithLeaseDuration :: "int \<Rightarrow> lk_config \<Rightarrow> lk_config" where
  "lk_WithLeaseDuration d c = c\<lparr>lk_leaseDuration := d\<rparr>"

definition lk_WithRenewDeadline :: "int \<Rightarrow> lk_config \<Rightarrow> lk_config" where
  "lk_WithRenewDeadline d c = c\<lparr>lk_renewDeadline := d\<rparr>"

definition lk_WithRetryPeriod :: "int \<Rightarrow> lk_config \<Rightarrow> lk_config" where
  "lk_WithRetryPeriod d c = c\<lparr>lk_retryPeriod := d\<rparr>"

definition lk_New :: "(lk_config \<Rightarrow> lk_config) list \<Rightarrow> lk_config" where
  "lk_New opts = foldl (\<lambda>c opt. opt c) lk_defaultConfig opts"

text \<open>
  \<open>Run\<close>: \<open>leaderelection.RunOrDie\<close>, a parameter, calls the two callbacks and returns when the
  lease is lost or the context is cancelled; the flag and the calls passed on, then nil.
\<close>

datatype lease_callback = StartedLeading | StoppedLeading

fun lk_callbacks :: "bool \<Rightarrow> lease_callback list \<Rightarrow> bool \<times> lease_callback list \<Rightarrow> bool \<times> lease_callback list" where
  "lk_callbacks onStopped [] s = s"
| "lk_callbacks onStopped (StartedLeading # cs) (leading, calls) =
     lk_callbacks onStopped cs (True, calls @ [StartedLeading])"
| "lk_callbacks onStopped (StoppedLeading # cs) (leading, calls) =
     lk_callbacks onStopped cs (False, if onStopped then calls @ [StoppedLeading] else calls)"

definition lk_Run ::
  "(lk_config \<Rightarrow> lease_callback list) \<Rightarrow> lk_config \<Rightarrow> bool \<Rightarrow> (gerror + unit) \<times> bool \<times> lease_callback list" where
  "lk_Run RunOrDie cfg onStopped = (Inr (), lk_callbacks onStopped (RunOrDie cfg) (False, []))"

section \<open>The text log handler\<close>

type_synonym attr = "string \<times> string"

record TextHandler =
  th_level :: int
  th_attrs :: "attr list"
  th_group :: string

definition NewTextHandler :: "int \<Rightarrow> TextHandler" where
  "NewTextHandler level = \<lparr>th_level = level, th_attrs = [], th_group = ''''\<rparr>"

definition th_Enabled :: "TextHandler \<Rightarrow> int \<Rightarrow> bool" where
  "th_Enabled h level \<longleftrightarrow> level \<ge> th_level h"

text \<open>The two loops: the attribute \<open>component\<close> apart, the last one wins.\<close>

fun split_attrs :: "attr list \<Rightarrow> string \<times> attr list \<Rightarrow> string \<times> attr list" where
  "split_attrs [] s = s"
| "split_attrs ((k, v) # as) (component, extras) =
     (if k = ''component'' then split_attrs as (v, extras) else split_attrs as (component, extras @ [(k, v)]))"

text \<open>\<open>%-5s\<close> pads on the right.\<close>

definition pad5 :: "string \<Rightarrow> string" where
  "pad5 s = s @ replicate (5 - length s) CHR '' ''"

fun extra_text :: "attr list \<Rightarrow> string" where
  "extra_text [] = ''''"
| "extra_text ((k, v) # as) = '' '' @ k @ ''='' @ v @ extra_text as"

definition th_line :: "TextHandler \<Rightarrow> string \<Rightarrow> string \<Rightarrow> attr list \<Rightarrow> string" where
  "th_line h level msg attrs =
     (case split_attrs attrs (split_attrs (th_attrs h) ('''', [])) of (component, extras) \<Rightarrow>
        pad5 level @ '' '' @ (if component \<noteq> '''' then ''['' @ component @ ''] '' else '''') @ msg @
        extra_text extras @ ''\<newline>'')"

definition th_WithAttrs :: "TextHandler \<Rightarrow> attr list \<Rightarrow> TextHandler" where
  "th_WithAttrs h as = h\<lparr>th_attrs := th_attrs h @ as\<rparr>"

definition th_WithGroup :: "TextHandler \<Rightarrow> string \<Rightarrow> TextHandler" where
  "th_WithGroup h name = h\<lparr>th_group := name\<rparr>"

lemma split_attrs_append: "split_attrs (as @ bs) s = split_attrs bs (split_attrs as s)"
  by (induction as s rule: split_attrs.induct) auto

text \<open>Attributes given to the handler come before those of the record; the group is not printed.\<close>

lemma th_line_WithAttrs: "th_line (th_WithAttrs h as) level msg attrs = th_line h level msg (as @ attrs)"
  by (simp add: th_line_def th_WithAttrs_def split_attrs_append)

lemma th_line_WithGroup: "th_line (th_WithGroup h name) level msg attrs = th_line h level msg attrs"
  by (simp add: th_line_def th_WithGroup_def)

end
