(* ===== verification/Config.thy ===== *)
theory Config
  imports Prelude
begin

text \<open>
  \<open>cmd/routes-provisioner/internal/config/config.go\<close>: the configuration, its default settings,
  the list of collections and \<open>validate\<close>. Viper (the file, the environment variables and the
  unmarshalling) is a parameter of \<open>Load\<close>.
\<close>

section \<open>The configuration\<close>

record LogConfig =
  log_Format :: string

record LeaderElectionConfig =
  le_Enabled :: bool
  le_Provider :: string
  le_LeaseName :: string
  le_Namespace :: string
  le_LeaseDuration :: string
  le_RenewDeadline :: string
  le_RetryInterval :: string
  le_Identity :: string

record CertificateStoreConfig =
  st_Enabled :: bool
  st_Provider :: string
  st_Namespace :: string
  st_SecretPrefix :: string
  st_RenewBefore :: string
  st_Dir :: string
  st_VaultAddress :: string
  st_VaultToken :: string
  st_VaultMount :: string
  st_VaultPrefix :: string

record ReconcileConfig =
  rec_Interval :: string

record BackendConfig =
  bc_ServiceName :: string
  bc_Port :: int
  bc_Weight :: int

record MapperConfig =
  mc_URLField :: string
  mc_Path :: string
  mc_TLS :: bool
  mc_Backends :: "BackendConfig list"

record CollectionConfig =
  cc_Collection :: string
  cc_Mapper :: MapperConfig

record DatasourceConfig =
  ds_Provider :: string
  ds_URI :: string
  ds_Database :: string
  ds_Collection :: string
  ds_Collections :: "CollectionConfig list"
  ds_ListenAddr :: string
  ds_Mapper :: MapperConfig

record CertificateConfig =
  ct_Provider :: string
  ct_Email :: string
  ct_DirectoryURL :: string
  ct_ChallengePort :: int
  ct_Validity :: string
  ct_Organization :: string
  ct_VaultAddress :: string
  ct_VaultToken :: string
  ct_VaultMount :: string
  ct_VaultRole :: string
  ct_VaultTTL :: string

record ProvisionerConfig =
  pv_Provider :: string
  pv_Endpoint :: string
  pv_Username :: string
  pv_Password :: string
  pv_InsecureSkipVerify :: bool
  pv_Namespace :: string
  pv_MaxRoutesPerIngress :: int
  pv_IngressClass :: string
  pv_Annotations :: "string \<rightharpoonup> string"

record Config =
  cf_Log :: LogConfig
  cf_Datasource :: DatasourceConfig
  cf_Certificate :: CertificateConfig
  cf_CertificateStore :: CertificateStoreConfig
  cf_Provisioner :: ProvisionerConfig
  cf_Reconcile :: ReconcileConfig
  cf_LeaderElection :: LeaderElectionConfig

section \<open>Collections and validation\<close>

definition MongoCollections :: "DatasourceConfig \<Rightarrow> CollectionConfig list" where
  "MongoCollections d =
     (if length (ds_Collections d) > 0 then ds_Collections d
      else [\<lparr>cc_Collection = ds_Collection d, cc_Mapper = ds_Mapper d\<rparr>])"

fun check_collections :: "nat \<Rightarrow> CollectionConfig list \<Rightarrow> gerror + unit" where
  "check_collections i [] = Inr ()"
| "check_collections i (col # cols) =
     (if cc_Collection col = ''''
      then Inl (ErrMsg (''datasource.collections['' @ itoa i @ ''].collection is required''))
      else check_collections (Suc i) cols)"

definition validate_datasource :: "DatasourceConfig \<Rightarrow> gerror + unit" where
  "validate_datasource d =
     (if ds_Provider d = ''mongodb'' then
        (if ds_URI d = '''' then Inl (ErrMsg ''datasource.uri is required (or set ROUTES_DATASOURCE_URI)'')
         else if ds_Database d = ''''
         then Inl (ErrMsg ''datasource.database is required (or set ROUTES_DATASOURCE_DATABASE)'')
         else check_collections 0 (MongoCollections d))
      else if ds_Provider d = ''http'' then Inr ()
      else Inl (ErrMsg ''datasource.provider must be mongodb or http (or set ROUTES_DATASOURCE_PROVIDER)''))"

definition validate_provisioner :: "ProvisionerConfig \<Rightarrow> gerror + unit" where
  "validate_provisioner p =
     (if pv_Provider p = ''netscaler'' then
        (if pv_Endpoint p = ''''
         then Inl (ErrMsg ''provisioner.endpoint is required (or set ROUTES_PROVISIONER_ENDPOINT)'') else Inr ())
      else if pv_Provider p = ''ingress'' then Inr ()
      else if pv_Provider p = ''log'' then Inr ()
      else Inl (ErrMsg ''provisioner.provider must be netscaler, ingress, or log (or set ROUTES_PROVISIONER_PROVIDER)''))"

definition validate_certificate :: "CertificateConfig \<Rightarrow> gerror + unit" where
  "validate_certificate c =
     (if ct_Provider c \<in> {''none'', ''acme-http'', ''acme-dns'', ''selfsigned'', ''vault''} then Inr ()
      else Inl (ErrMsg ''certificate.provider must be none, acme-http, acme-dns, selfsigned, or vault (or set ROUTES_CERTIFICATE_PROVIDER)''))"

definition validate_store :: "CertificateStoreConfig \<Rightarrow> gerror + unit" where
  "validate_store s =
     (if st_Enabled s \<and> st_Provider s \<notin> {''kube'', ''vault'', ''file''}
      then Inl (ErrMsg ''certificate_store.provider must be kube, vault, or file (or set ROUTES_CERTIFICATE_STORE_PROVIDER)'')
      else Inr ())"

definition validate_election :: "LeaderElectionConfig \<Rightarrow> gerror + unit" where
  "validate_election l =
     (if le_Enabled l \<and> le_Provider l \<notin> {''kube'', ''mongo''}
      then Inl (ErrMsg ''leader_election.provider must be kube or mongo (or set ROUTES_LEADER_ELECTION_PROVIDER)'')
      else Inr ())"

text \<open>The checks in order: the first error is returned. The quotes in the messages are left out.\<close>

definition and_then :: "gerror + unit \<Rightarrow> gerror + unit \<Rightarrow> gerror + unit" where
  "and_then a b = (case a of Inl e \<Rightarrow> Inl e | Inr _ \<Rightarrow> b)"

definition validate :: "Config \<Rightarrow> gerror + unit" where
  "validate c =
     and_then (validate_datasource (cf_Datasource c))
    (and_then (validate_provisioner (cf_Provisioner c))
    (and_then (validate_certificate (cf_Certificate c))
    (and_then (validate_store (cf_CertificateStore c)) (validate_election (cf_LeaderElection c)))))"

section \<open>Loading\<close>

datatype setting = SStr string | SBool bool | SInt int

definition default_settings :: "(string \<times> setting) list" where
  "default_settings =
     [(''log::format'', SStr ''json''), (''datasource::provider'', SStr ''mongodb''),
      (''datasource::collection'', SStr ''routes''), (''datasource::listen_addr'', SStr '':8081''),
      (''datasource::mapper::url_field'', SStr ''url''), (''datasource::mapper::path'', SStr ''/''),
      (''datasource::mapper::tls'', SBool True), (''certificate::provider'', SStr ''acme-http''),
      (''certificate::directory_url'', SStr ''https://acme-v02.api.letsencrypt.org/directory''),
      (''certificate::challenge_port'', SInt 80), (''certificate::validity'', SStr ''8760h''),
      (''certificate::organization'', SStr ''Self-Signed''), (''certificate::vault_mount'', SStr ''pki''),
      (''certificate::vault_ttl'', SStr ''720h''), (''certificate_store::enabled'', SBool False),
      (''certificate_store::provider'', SStr ''kube''), (''certificate_store::namespace'', SStr ''default''),
      (''certificate_store::secret_prefix'', SStr ''route-tls''), (''certificate_store::renew_before'', SStr ''720h''),
      (''certificate_store::dir'', SStr ''.certs''), (''certificate_store::vault_mount'', SStr ''secret''),
      (''certificate_store::vault_prefix'', SStr ''route-tls''), (''provisioner::provider'', SStr ''netscaler''),
      (''provisioner::namespace'', SStr ''default''), (''provisioner::max_routes_per_ingress'', SInt 50),
      (''reconcile::interval'', SStr ''5m''), (''leader_election::enabled'', SBool False),
      (''leader_election::provider'', SStr ''kube''),
      (''leader_election::lease_name'', SStr ''routes-provisioner-leader''),
      (''leader_election::namespace'', SStr ''default''), (''leader_election::lease_duration'', SStr ''15s''),
      (''leader_election::renew_deadline'', SStr ''10s''), (''leader_election::retry_interval'', SStr ''2s'')]"

text \<open>
  Viper: \<open>vp_ReadInConfig\<close> reads the file at a path over the defaults, \<open>vp_Unmarshal\<close> applies the
  environment variables with the prefix \<open>ROUTES\<close> and fills the structure.
\<close>

record 'v viper =
  vp_ReadInConfig :: "(string \<times> setting) list \<Rightarrow> string \<Rightarrow> gerror + 'v"
  vp_Unmarshal :: "string \<Rightarrow> 'v \<Rightarrow> gerror + Config"

definition Load :: "'v viper \<Rightarrow> string \<Rightarrow> gerror + Config" where
  "Load vp path =
     (case vp_ReadInConfig vp default_settings path of
        Inl e \<Rightarrow> Inl (ErrWrap ''read config file'' e)
      | Inr v \<Rightarrow>
        (case vp_Unmarshal vp ''ROUTES'' v of
           Inl e \<Rightarrow> Inl (ErrWrap ''unmarshal config'' e)
         | Inr cfg \<Rightarrow> (case validate cfg of Inl e \<Rightarrow> Inl e | Inr _ \<Rightarrow> Inr cfg)))"

definition ConfigPath :: "(string \<Rightarrow> string) \<Rightarrow> string \<Rightarrow> string" where
  "ConfigPath Getenv defaultPath =
     (if Getenv ''ROUTES_CONFIG_PATH'' \<noteq> '''' then Getenv ''ROUTES_CONFIG_PATH'' else defaultPath)"

section \<open>What a valid configuration is\<close>

lemma and_then_ok [simp]: "and_then a b = Inr () \<longleftrightarrow> a = Inr () \<and> b = Inr ()"
  by (cases a) (simp_all add: and_then_def)

lemma Load_valid: "Load vp path = Inr cfg \<Longrightarrow> validate cfg = Inr ()"
  by (auto simp: Load_def split: sum.splits)

lemma check_collections_ok: "check_collections i cols = Inr () \<longleftrightarrow> (\<forall>c \<in> set cols. cc_Collection c \<noteq> '''')"
  by (induction cols arbitrary: i) auto

lemma MongoCollections_nonempty [simp]: "MongoCollections d \<noteq> []"
  by (simp add: MongoCollections_def)

lemma validate_ok:
  assumes "validate c = Inr ()"
  shows "ds_Provider (cf_Datasource c) \<in> {''mongodb'', ''http''}"
    and "pv_Provider (cf_Provisioner c) \<in> {''netscaler'', ''ingress'', ''log''}"
    and "ct_Provider (cf_Certificate c) \<in> {''none'', ''acme-http'', ''acme-dns'', ''selfsigned'', ''vault''}"
    and "st_Enabled (cf_CertificateStore c) \<Longrightarrow> st_Provider (cf_CertificateStore c) \<in> {''kube'', ''vault'', ''file''}"
    and "le_Enabled (cf_LeaderElection c) \<Longrightarrow> le_Provider (cf_LeaderElection c) \<in> {''kube'', ''mongo''}"
  using assms
  by (simp_all add: validate_def validate_datasource_def validate_provisioner_def validate_certificate_def
      validate_store_def validate_election_def split: if_splits)

end
