(* ===== verification/Wiring.thy ===== *)
theory Wiring
  imports Convergence NetscalerMapping LeaseMongo CertCaching CertVault ChallengeServer
    SourceMongo SourceHttp Composites Config
begin

text \<open>
  \<open>cmd/routes-provisioner/main.go\<close>: how a configuration becomes the orchestrator that is run.
  An act that ends in \<open>Fail\<close> is the process that logs an error and exits with status 1, one that
  ends in \<open>Panic\<close> the process that crashes. The world is made of the three components that keep
  state in memory, the challenge server, the HTTP source and the log provisioner, and of the
  rest. Connections, clients and the standard library are parameters, the fields of \<open>main_env\<close>.
\<close>

section \<open>The world\<close>

record 'e main_world =
  mw_challenge :: ChallengeServer
  mw_source :: HTTPSource
  mw_log :: LogProvisioner
  mw_ext :: 'e

abbreviation get_challenge :: "'e main_world \<Rightarrow> 'e cs_world" where
  "get_challenge w \<equiv> (mw_challenge w, mw_ext w)"

abbreviation put_challenge :: "'e cs_world \<Rightarrow> 'e main_world \<Rightarrow> 'e main_world" where
  "put_challenge s w \<equiv> w\<lparr>mw_challenge := fst s, mw_ext := snd s\<rparr>"

abbreviation put_source :: "HTTPSource \<Rightarrow> 'e main_world \<Rightarrow> 'e main_world" where
  "put_source s w \<equiv> w\<lparr>mw_source := s\<rparr>"

abbreviation put_log :: "LogProvisioner \<Rightarrow> 'e main_world \<Rightarrow> 'e main_world" where
  "put_log s w \<equiv> w\<lparr>mw_log := s\<rparr>"

text \<open>A component is made.\<close>

definition make_component :: "('w \<Rightarrow> 'w) \<Rightarrow> ('w, unit) act" where
  "make_component f w = (Ret (), f w)"

lemma make_component_simp [simp]: "make_component f w = (Ret (), f w)"
  by (simp add: make_component_def)

text \<open>
  What \<open>main\<close> connects: triggers and electors are described by what they are built from. A
  collection is named by its database and its name.
\<close>

datatype Trigger =
    MongoTrigger string string DocumentMapper mt_config
  | HttpTrigger
  | CompositeTrigger "Trigger list"

fun trigger_Name :: "Trigger \<Rightarrow> string" where
  "trigger_Name (MongoTrigger db col mapper cfg) = ''mongo-changestream''"
| "trigger_Name HttpTrigger = hs_Name"
| "trigger_Name (CompositeTrigger ts) = composite_Name (map trigger_Name ts)"

datatype Elector = KubeElector lk_config | MongoElector lease_collection lm_config

record 'w Clientset =
  kc_secrets :: "'w secrets_api"
  kc_ingresses :: "'w kube_api"

text \<open>
  \<open>me_LeaseCollection\<close> is \<open>mongoClient.Database(db).Collection(name)\<close>, on a client that can be
  nil. \<open>me_Hostname\<close> is \<open>os.Hostname\<close>, whose error is ignored.
\<close>

record ('e, 'c, 'h) main_env =
  me_ParseDuration :: "string \<Rightarrow> gerror + int"
  me_Hostname :: string
  me_url :: url_env
  me_Connect :: "string \<Rightarrow> gerror + 'c"
  me_Find :: "'c \<Rightarrow> string \<Rightarrow> string \<Rightarrow> ('e main_world, (gerror + bson_M) list \<times> gerror option) svc"
  me_LeaseCollection :: "'c option \<Rightarrow> string \<Rightarrow> string \<Rightarrow> ('e main_world, lease_collection) act"
  me_crypto :: "'e main_world crypto_env"
  me_acme_http :: "'e cs_world acme_api"
  me_acme_dns :: "'e main_world acme_api"
  me_Listen :: "string \<Rightarrow> ('e, unit) svc"
  me_pki :: "string option \<Rightarrow> string option \<Rightarrow> gerror + 'e main_world pki_env"
  me_kv :: "string option \<Rightarrow> string option \<Rightarrow> gerror + 'e main_world vault_api"
  me_InClusterConfig :: "gerror + unit"
  me_NewForConfig :: "gerror + 'e main_world Clientset"
  me_time :: "'e main_world time_env"
  me_files :: "'e main_world file_env"
  me_nitro :: "'h \<Rightarrow> string \<Rightarrow> string \<Rightarrow> string \<Rightarrow> 'e main_world NitroClient"
  me_DefaultClient :: 'h
  me_InsecureClient :: 'h

text \<open>The value of an interface variable that no branch of a switch has set: its calls panic.\<close>

definition nil_Issuer :: "'w Issuer" where
  "nil_Issuer = \<lparr>iss_Issue = \<lambda>r. panic ''nil pointer dereference'', iss_Revoke = \<lambda>c. panic ''nil pointer dereference'',
     iss_Name = ''''\<rparr>"

definition nil_Provisioner :: "'w RouteProvisioner" where
  "nil_Provisioner = \<lparr>prov_Provision = \<lambda>r c. panic ''nil pointer dereference'',
     prov_Deprovision = \<lambda>i. panic ''nil pointer dereference'', prov_List = panic ''nil pointer dereference'',
     prov_BatchProvision = \<lambda>rs cs. panic ''nil pointer dereference'',
     prov_BatchDeprovision = \<lambda>ids. panic ''nil pointer dereference'', prov_Name = ''''\<rparr>"

definition nil_Desired :: "'w DesiredStateProvider" where
  "nil_Desired = \<lparr>des_List = panic ''nil pointer dereference'', des_Name = ''''\<rparr>"

section \<open>The datasource\<close>

definition wire_mapper :: "url_env \<Rightarrow> MapperConfig \<Rightarrow> DocumentMapper" where
  "wire_mapper ue mc = mongo_mapper ue
     \<lparr>mm_URLField = mc_URLField mc, mm_Path = mc_Path mc, mm_TLS = mc_TLS mc,
      mm_Backends = map (\<lambda>b. \<lparr>be_ServiceName = bc_ServiceName b, be_Port = bc_Port b, be_Weight = bc_Weight b\<rparr>)
        (mc_Backends mc)\<rparr>"

definition wire_collections ::
  "('e, 'c, 'h) main_env \<Rightarrow> 'c \<Rightarrow> DatasourceConfig \<Rightarrow> Trigger \<times> 'e main_world DesiredStateProvider" where
  "wire_collections env client ds =
     (let cols = MongoCollections ds;
          triggers = map (\<lambda>col. MongoTrigger (ds_Database ds) (cc_Collection col)
            (wire_mapper (me_url env) (cc_Mapper col)) (mt_New [])) cols;
          desiredProviders = map (\<lambda>col. mongo_desired (me_Find env client (ds_Database ds) (cc_Collection col))
            (wire_mapper (me_url env) (cc_Mapper col))) cols
      in if length triggers = 1 then (triggers ! 0, desiredProviders ! 0)
         else (CompositeTrigger triggers, desired_NewComposite desiredProviders))"

definition wire_source ::
  "('e, 'c, 'h) main_env \<Rightarrow> DatasourceConfig \<Rightarrow>
   ('e main_world, 'c option \<times> Trigger option \<times> 'e main_world DesiredStateProvider) act" where
  "wire_source env ds =
     (if ds_Provider ds = ''mongodb'' then
        wrapr ''failed to connect to mongodb'' (pure (me_Connect env (ds_URI ds))) (\<lambda>client.
          case wire_collections env client ds of (trig, desired) \<Rightarrow> ret (Some client, Some trig, desired))
      else if ds_Provider ds = ''http'' then
        bindr (make_component (put_source hs_New)) (\<lambda>_.
          ret (None, Some HttpTrigger, lift_Desired mw_source put_source http_desired))
      else ret (None, None, nil_Desired))"

section \<open>The issuer and the store\<close>

definition when_set :: "string \<Rightarrow> 'a list \<Rightarrow> 'a list" where
  "when_set s opts = (if s \<noteq> '''' then opts else [])"

definition wire_acme_opts :: "CertificateConfig \<Rightarrow> (acme_config \<Rightarrow> acme_config) list" where
  "wire_acme_opts c = acme_WithEmail (ct_Email c) # when_set (ct_DirectoryURL c) [acme_WithDirectoryURL (ct_DirectoryURL c)]"

definition wire_dns_opts :: "CertificateConfig \<Rightarrow> (acme_config \<Rightarrow> acme_config) list" where
  "wire_dns_opts c = ad_WithEmail (ct_Email c) # when_set (ct_DirectoryURL c) [ad_WithDirectoryURL (ct_DirectoryURL c)]"

definition wire_selfsigned ::
  "('e, 'c, 'h) main_env \<Rightarrow> CertificateConfig \<Rightarrow> ('e main_world, 'e main_world Issuer) act" where
  "wire_selfsigned env c =
     (let finish = (\<lambda>ssOpts. ret (ss_issuer (me_crypto env)
        (ss_New (ssOpts @ when_set (ct_Organization c) [ss_WithOrganization (ct_Organization c)])))) in
      if ct_Validity c \<noteq> '''' then
        wrapr ''invalid certificate.validity'' (pure (me_ParseDuration env (ct_Validity c)))
          (\<lambda>validity. finish [ss_WithValidity validity])
      else finish [])"

definition wire_issuer ::
  "('e, 'c, 'h) main_env \<Rightarrow> CertificateConfig \<Rightarrow> ('e main_world, 'e main_world Issuer) act" where
  "wire_issuer env c =
     (if ct_Provider c = ''none'' then ret none_issuer
      else if ct_Provider c = ''acme-http'' then
        bindr (make_component (\<lambda>w. w\<lparr>mw_challenge := NewChallengeServer (ct_ChallengePort c)\<rparr>)) (\<lambda>_.
        wrapr ''failed to create acme issuer''
          (on_part get_challenge put_challenge
             (ah_New (me_acme_http env) (server_solver (me_Listen env)) (wire_acme_opts c)))
          (\<lambda>i. ret (lift_Issuer get_challenge put_challenge i)))
      else if ct_Provider c = ''acme-dns'' then
        wrapr ''failed to create acme-dns issuer'' (ad_New (me_acme_dns env) None (wire_dns_opts c)) ret
      else if ct_Provider c = ''selfsigned'' then wire_selfsigned env c
      else if ct_Provider c = ''vault'' then
        wrapr ''failed to create vault issuer''
          (pure (vi_New (me_pki env)
             (vi_WithRole (ct_VaultRole c) # when_set (ct_VaultAddress c) [vi_WithAddress (ct_VaultAddress c)] @
              when_set (ct_VaultToken c) [vi_WithToken (ct_VaultToken c)] @
              when_set (ct_VaultMount c) [vi_WithMount (ct_VaultMount c)] @
              when_set (ct_VaultTTL c) [vi_WithTTL (ct_VaultTTL c)])))
          (\<lambda>v. ret (vault_issuer v))
      else ret nil_Issuer)"

definition needsKube :: "Config \<Rightarrow> bool" where
  "needsKube cfg \<longleftrightarrow>
     (st_Enabled (cf_CertificateStore cfg) \<and> st_Provider (cf_CertificateStore cfg) = ''kube'') \<or>
     (le_Enabled (cf_LeaderElection cfg) \<and> le_Provider (cf_LeaderElection cfg) = ''kube'') \<or>
     pv_Provider (cf_Provisioner cfg) = ''ingress''"

definition wire_kube ::
  "('e, 'c, 'h) main_env \<Rightarrow> Config \<Rightarrow> ('e main_world, 'e main_world Clientset option) act" where
  "wire_kube env cfg =
     (if needsKube cfg then
        wrapr ''failed to get in-cluster config'' (pure (me_InClusterConfig env)) (\<lambda>_.
        wrapr ''failed to create kubernetes client'' (pure (me_NewForConfig env)) (\<lambda>cs. ret (Some cs)))
      else ret None)"

text \<open>
  The store returns the issuer to use and, for Kubernetes, the function that names the Secrets.
  \<open>needsKube\<close> makes sure that there is a clientset when the store needs it.
\<close>

definition wire_kube_store ::
  "('e, 'c, 'h) main_env \<Rightarrow> 'e main_world Issuer \<Rightarrow> 'e main_world Clientset option \<Rightarrow> CertificateStoreConfig \<Rightarrow> int
   \<Rightarrow> ('e main_world, 'e main_world Issuer \<times> (string \<Rightarrow> string) option) act" where
  "wire_kube_store env issuer clientset st renewBefore =
     (let cfg = ck_New [ck_WithNamespace (st_Namespace st), ck_WithSecretPrefix (st_SecretPrefix st),
        ck_WithRenewBefore renewBefore] in
      case clientset of
        None \<Rightarrow> panic ''nil pointer dereference''
      | Some cs \<Rightarrow> ret (ck_issuer (me_time env) (kc_secrets cs) cfg issuer, Some (ck_SecretNameFunc cfg)))"

definition wire_vault_store ::
  "('e, 'c, 'h) main_env \<Rightarrow> 'e main_world Issuer \<Rightarrow> CertificateStoreConfig \<Rightarrow> int
   \<Rightarrow> ('e main_world, 'e main_world Issuer \<times> (string \<Rightarrow> string) option) act" where
  "wire_vault_store env issuer st renewBefore =
     wrapr ''failed to create vault certificate store''
       (pure (cv_New (me_kv env)
          (cv_WithRenewBefore renewBefore # when_set (st_VaultAddress st) [cv_WithAddress (st_VaultAddress st)] @
           when_set (st_VaultToken st) [cv_WithToken (st_VaultToken st)] @
           when_set (st_VaultMount st) [cv_WithMount (st_VaultMount st)] @
           when_set (st_VaultPrefix st) [cv_WithPrefix (st_VaultPrefix st)])))
       (\<lambda>(api, cfg). ret (cv_issuer (me_time env) api cfg issuer, None))"

definition wire_store ::
  "('e, 'c, 'h) main_env \<Rightarrow> 'e main_world Issuer \<Rightarrow> 'e main_world Clientset option \<Rightarrow> CertificateStoreConfig
   \<Rightarrow> ('e main_world, 'e main_world Issuer \<times> (string \<Rightarrow> string) option) act" where
  "wire_store env issuer clientset st =
     (if st_Enabled st then
        wrapr ''invalid certificate_store.renew_before'' (pure (me_ParseDuration env (st_RenewBefore st))) (\<lambda>renewBefore.
          if st_Provider st = ''kube'' then wire_kube_store env issuer clientset st renewBefore
          else if st_Provider st = ''vault'' then wire_vault_store env issuer st renewBefore
          else if st_Provider st = ''file''
          then ret (cf_issuer (me_files env) (st_Dir st) (cf_New [cf_WithRenewBefore renewBefore]) issuer, None)
          else ret (issuer, None))
      else ret (issuer, None))"


section \<open>The provisioner\<close>

definition wire_netscaler :: "('e, 'c, 'h) main_env \<Rightarrow> ProvisionerConfig \<Rightarrow> 'e main_world RouteProvisioner" where
  "wire_netscaler env pc = netscaler_provisioner
     (ns_New (me_nitro env) (me_DefaultClient env) netscaler_mapper
        ([ns_WithEndpoint (pv_Endpoint pc), ns_WithCredentials (pv_Username pc) (pv_Password pc)] @
         (if pv_InsecureSkipVerify pc then [ns_WithInsecureSkipVerify (me_InsecureClient env)] else [])))"

definition wire_ingress_mapper :: "ProvisionerConfig \<Rightarrow> (string \<Rightarrow> string) option \<Rightarrow> AppIngressMapper" where
  "wire_ingress_mapper pc kubeSecretNameFunc =
     \<lparr>am_SecretNameFunc = (case kubeSecretNameFunc of None \<Rightarrow> DefaultSecretName | Some f \<Rightarrow> f),
      am_IngressClassName = pv_IngressClass pc, am_ExtraAnnotations = pv_Annotations pc\<rparr>"

definition wire_provisioner ::
  "('e, 'c, 'h) main_env \<Rightarrow> ProvisionerConfig \<Rightarrow> 'e main_world Clientset option \<Rightarrow> (string \<Rightarrow> string) option
   \<Rightarrow> ('e main_world, 'e main_world RouteProvisioner) act" where
  "wire_provisioner env pc clientset kubeSecretNameFunc =
     (if pv_Provider pc = ''netscaler'' then ret (wire_netscaler env pc)
      else if pv_Provider pc = ''ingress'' then
        wrapr ''failed to create ingress provisioner''
          (pure (ing_New (app_mapper (wire_ingress_mapper pc kubeSecretNameFunc))
             [ing_WithNamespace (pv_Namespace pc), ing_WithMaxRoutesPerIngress (pv_MaxRoutesPerIngress pc),
              ing_WithKubeClient (map_option kc_ingresses clientset)]))
          (\<lambda>p. ret (ingress_provisioner p))
      else if pv_Provider pc = ''log'' then
        bindr (make_component (put_log log_New)) (\<lambda>_. ret (lift_Provisioner mw_log put_log log_provisioner))
      else ret nil_Provisioner)"

section \<open>The elector\<close>

text \<open>
  Durations are parsed to nanoseconds; the clock of the Mongo elector counts milliseconds, to
  which BSON datetimes are cut.
\<close>

definition wire_kube_elector ::
  "('e, 'c, 'h) main_env \<Rightarrow> LeaderElectionConfig \<Rightarrow> string \<Rightarrow> int \<Rightarrow> int \<Rightarrow> ('e main_world, Elector option) act" where
  "wire_kube_elector env le identity leaseDuration retryPeriod =
     wrapr ''invalid leader_election.renew_deadline'' (pure (me_ParseDuration env (le_RenewDeadline le))) (\<lambda>renewDeadline.
       ret (Some (KubeElector (lk_New [lk_WithNamespace (le_Namespace le), lk_WithLeaseName (le_LeaseName le),
         lk_WithIdentity identity, lk_WithLeaseDuration leaseDuration, lk_WithRenewDeadline renewDeadline,
         lk_WithRetryPeriod retryPeriod]))))"

definition wire_mongo_elector ::
  "('e, 'c, 'h) main_env \<Rightarrow> LeaderElectionConfig \<Rightarrow> string \<Rightarrow> 'c option \<Rightarrow> string \<Rightarrow> int \<Rightarrow> int
   \<Rightarrow> ('e main_world, Elector option) act" where
  "wire_mongo_elector env le database mongoClient identity leaseDuration retryPeriod =
     bindr (me_LeaseCollection env mongoClient database ''leases'') (\<lambda>leaseCol.
       ret (Some (MongoElector leaseCol (lm_New [lm_WithLeaseName (le_LeaseName le), lm_WithIdentity identity,
         lm_WithLeaseDuration (leaseDuration div 1000000), lm_WithRetryInterval (retryPeriod div 1000000)]))))"

definition wire_election ::
  "('e, 'c, 'h) main_env \<Rightarrow> Config \<Rightarrow> 'c option \<Rightarrow> ('e main_world, Elector option) act" where
  "wire_election env cfg mongoClient =
     (let le = cf_LeaderElection cfg in
      if le_Enabled le then
        (let identity = (if le_Identity le = '''' then me_Hostname env else le_Identity le) in
         wrapr ''invalid leader_election.lease_duration'' (pure (me_ParseDuration env (le_LeaseDuration le))) (\<lambda>leaseDuration.
         wrapr ''invalid leader_election.retry_interval'' (pure (me_ParseDuration env (le_RetryInterval le))) (\<lambda>retryPeriod.
           if le_Provider le = ''kube'' then wire_kube_elector env le identity leaseDuration retryPeriod
           else if le_Provider le = ''mongo''
           then wire_mongo_elector env le (ds_Database (cf_Datasource cfg)) mongoClient identity leaseDuration retryPeriod
           else ret None)))
      else ret None)"

section \<open>The process\<close>

definition wire_orchestrator ::
  "'w DesiredStateProvider \<Rightarrow> 'w Issuer \<Rightarrow> 'w RouteProvisioner \<Rightarrow> int \<Rightarrow> Trigger option \<Rightarrow> Elector option
   \<Rightarrow> ('w, Trigger, Elector) Orchestrator" where
  "wire_orchestrator desiredState issuer prov reconcileInterval trig elector =
     orch_New issuer prov
       ([WithReconciler (rec_New desiredState issuer prov) reconcileInterval] @
        (if trig \<noteq> None then [WithTrigger trig] else []) @
        (if elector \<noteq> None then [WithLeaderElection elector] else []))"

definition wire ::
  "('e, 'c, 'h) main_env \<Rightarrow> Config \<Rightarrow> ('e main_world, ('e main_world, Trigger, Elector) Orchestrator) act" where
  "wire env cfg =
     bindr (wire_source env (cf_Datasource cfg)) (\<lambda>(mongoClient, trig, desiredState).
     bindr (wire_issuer env (cf_Certificate cfg)) (\<lambda>issuer.
     bindr (wire_kube env cfg) (\<lambda>clientset.
     bindr (wire_store env issuer clientset (cf_CertificateStore cfg)) (\<lambda>(issuer, kubeSecretNameFunc).
     bindr (wire_provisioner env (cf_Provisioner cfg) clientset kubeSecretNameFunc) (\<lambda>prov.
     wrapr ''invalid reconcile interval'' (pure (me_ParseDuration env (rec_Interval (cf_Reconcile cfg)))) (\<lambda>reconcileInterval.
     bindr (wire_election env cfg mongoClient) (\<lambda>elector.
       ret (wire_orchestrator desiredState issuer prov reconcileInterval trig elector))))))))"

text \<open>The handler of the logger; \<open>slog.LevelInfo\<close> is 0.\<close>

datatype log_handler = TextLog TextHandler | JSONLog int

definition wire_logger :: "Config \<Rightarrow> log_handler" where
  "wire_logger cfg = (if log_Format (cf_Log cfg) = ''text'' then TextLog (NewTextHandler 0) else JSONLog 0)"

text \<open>\<open>main\<close> up to the call of \<open>Run\<close>; the logger that the format selects has no part in it.\<close>

definition boot ::
  "'v viper \<Rightarrow> (string \<Rightarrow> string) \<Rightarrow> ('e, 'c, 'h) main_env \<Rightarrow> string
   \<Rightarrow> ('e main_world, ('e main_world, Trigger, Elector) Orchestrator) act" where
  "boot vp Getenv env configFlag =
     wrapr ''failed to load config'' (pure (Load vp (ConfigPath Getenv configFlag))) (\<lambda>cfg. wire env cfg)"


section \<open>Every service answers\<close>

definition durations_of :: "Config \<Rightarrow> string set" where
  "durations_of cfg =
     {ct_Validity (cf_Certificate cfg), st_RenewBefore (cf_CertificateStore cfg), rec_Interval (cf_Reconcile cfg),
      le_LeaseDuration (cf_LeaderElection cfg), le_RetryInterval (cf_LeaderElection cfg),
      le_RenewDeadline (cf_LeaderElection cfg)}"

definition services_up :: "('e, 'c, 'h) main_env \<Rightarrow> Config \<Rightarrow> bool" where
  "services_up env cfg \<longleftrightarrow>
     (\<forall>s \<in> durations_of cfg. \<exists>d. me_ParseDuration env s = Inr d) \<and>
     (\<forall>uri. \<exists>c. me_Connect env uri = Inr c) \<and>
     (\<forall>a t. \<exists>v. me_pki env a t = Inr v) \<and> (\<forall>a t. \<exists>v. me_kv env a t = Inr v) \<and>
     me_InClusterConfig env = Inr () \<and> (\<exists>cs. me_NewForConfig env = Inr cs) \<and>
     (\<forall>v. \<exists>k v'. aa_GenerateKey (me_acme_http env) v = (Inr k, v')) \<and>
     (\<forall>v. \<exists>k v'. aa_GenerateKey (me_acme_dns env) v = (Inr k, v')) \<and>
     (\<forall>c db n v. \<exists>q v'. me_LeaseCollection env (Some c) db n v = (Ret q, v'))"

definition configured_issuer :: "string \<Rightarrow> string" where
  "configured_issuer p =
     (if p = ''acme-http'' then ''acme-http-01'' else if p = ''acme-dns'' then ''acme-dns-01''
      else if p = ''selfsigned'' then ''self-signed'' else if p = ''vault'' then ''vault-pki'' else p)"

definition configured_gateway :: "string \<Rightarrow> string" where
  "configured_gateway p =
     (if p = ''netscaler'' then ns_Name else if p = ''ingress'' then ing_Name else log_Name)"

lemma wire_source_up:
  assumes "services_up env cfg" and "ds_Provider ds \<in> {''mongodb'', ''http''}"
  obtains mc t d w' where "wire_source env ds w = (Ret (mc, Some t, d), w')"
    "mc = None \<longleftrightarrow> ds_Provider ds = ''http''"
proof -
  obtain c where c: "me_Connect env (ds_URI ds) = Inr c" using assms(1) unfolding services_up_def by blast
  obtain t d where "wire_collections env c ds = (t, d)" by fastforce
  then show ?thesis using that assms(2) c by (fastforce simp: wire_source_def)
qed

lemma acme_New_up:
  assumes "\<And>v. \<exists>k v'. aa_GenerateKey api v = (Inr k, v')"
  shows "\<exists>x w'. acme_New api d opts w = (Ret x, w')"
proof -
  obtain k v where "aa_GenerateKey api w = (Inr k, v)" using assms by blast
  then show ?thesis by (auto simp: acme_New_def Let_def split: option.split)
qed

lemma ah_New_up:
  assumes "\<And>v. \<exists>k v'. aa_GenerateKey api v = (Inr k, v')"
  shows "\<exists>i w'. ah_New api solver opts w = (Ret i, w') \<and> iss_Name i = ''acme-http-01''"
  using acme_New_up [OF assms, where d = acme_defaultConfig and opts = opts and w = w]
  by (auto simp: ah_New_def ah_issuer_def split: prod.splits)

lemma ad_New_up:
  assumes "\<And>v. \<exists>k v'. aa_GenerateKey api v = (Inr k, v')"
  shows "\<exists>i w'. ad_New api provider opts w = (Ret i, w') \<and> iss_Name i = ''acme-dns-01''"
  using acme_New_up [OF assms, where d = ad_defaultConfig and opts = opts and w = w]
  by (auto simp: ad_New_def ad_issuer_def split: prod.splits)

lemma wire_selfsigned_up:
  assumes "services_up env cfg"
  shows "\<exists>i. wire_selfsigned env (cf_Certificate cfg) w = (Ret i, w) \<and> iss_Name i = ''self-signed''"
proof -
  obtain d where "me_ParseDuration env (ct_Validity (cf_Certificate cfg)) = Inr d"
    using assms by (auto simp: services_up_def durations_of_def)
  then show ?thesis by (simp add: wire_selfsigned_def Let_def ss_issuer_def)
qed

lemma vi_New_up:
  assumes "services_up env cfg"
  shows "\<exists>v. vi_New (me_pki env) opts = Inr v"
proof -
  obtain c where "me_pki env a t = Inr (c a t)" for a t using assms unfolding services_up_def by metis
  then show ?thesis by (simp add: vi_New_def Let_def)
qed

lemma cv_New_up:
  assumes "services_up env cfg"
  shows "\<exists>v. cv_New (me_kv env) opts = Inr v"
proof -
  obtain c where "me_kv env a t = Inr (c a t)" for a t using assms unfolding services_up_def by metis
  then show ?thesis by (simp add: cv_New_def Let_def)
qed


lemma wire_issuer_up:
  assumes "services_up env cfg" and "validate_certificate (cf_Certificate cfg) = Inr ()"
  obtains i w' where "wire_issuer env (cf_Certificate cfg) w = (Ret i, w')"
    "iss_Name i = configured_issuer (ct_Provider (cf_Certificate cfg))"
proof -
  let ?c = "cf_Certificate cfg" and ?cs = "server_solver (me_Listen env)"
  consider "ct_Provider ?c = ''none''" | "ct_Provider ?c = ''acme-http''" | "ct_Provider ?c = ''acme-dns''"
    | "ct_Provider ?c = ''selfsigned''" | "ct_Provider ?c = ''vault''"
    using assms(2) by (auto simp: validate_certificate_def split: if_splits)
  then show ?thesis
  proof cases
    case 1
    then show ?thesis using that by (simp add: wire_issuer_def none_issuer_def configured_issuer_def)
  next
    case 2
    let ?w = "w\<lparr>mw_challenge := NewChallengeServer (ct_ChallengePort ?c)\<rparr>"
    have "\<exists>k v'. aa_GenerateKey (me_acme_http env) v = (Inr k, v')" for v
      using assms(1) unfolding services_up_def by blast
    from ah_New_up [OF this, of ?cs "wire_acme_opts ?c" "get_challenge ?w"]
    obtain i v where "ah_New (me_acme_http env) ?cs (wire_acme_opts ?c) (get_challenge ?w) = (Ret i, v)"
      "iss_Name i = ''acme-http-01''" by blast
    then show ?thesis using that 2 by (simp add: wire_issuer_def configured_issuer_def lift_Issuer_def on_part_def)
  next
    case 3
    have "\<exists>k v'. aa_GenerateKey (me_acme_dns env) v = (Inr k, v')" for v
      using assms(1) by (simp add: services_up_def)
    from ad_New_up [OF this, of None "wire_dns_opts ?c" w]
    show ?thesis using that 3 by (auto simp: wire_issuer_def configured_issuer_def)
  next
    case 4
    then show ?thesis using that wire_selfsigned_up [OF assms(1), of w]
      by (auto simp: wire_issuer_def configured_issuer_def)
  next
    case 5
    obtain v where "vi_New (me_pki env)
        (vi_WithRole (ct_VaultRole ?c) # when_set (ct_VaultAddress ?c) [vi_WithAddress (ct_VaultAddress ?c)] @
              when_set (ct_VaultToken ?c) [vi_WithToken (ct_VaultToken ?c)] @
              when_set (ct_VaultMount ?c) [vi_WithMount (ct_VaultMount ?c)] @
              when_set (ct_VaultTTL ?c) [vi_WithTTL (ct_VaultTTL ?c)]) = Inr v"
      using vi_New_up [OF assms(1)] by blast
    then show ?thesis using that 5 by (simp add: wire_issuer_def configured_issuer_def vault_issuer_def)
  qed
qed

lemma wire_kube_up:
  assumes "services_up env cfg"
  obtains cs where "wire_kube env cfg w = (Ret cs, w)" "needsKube cfg \<Longrightarrow> cs \<noteq> None"
proof -
  obtain k where "me_NewForConfig env = Inr k" "me_InClusterConfig env = Inr ()"
    using assms unfolding services_up_def by blast
  then show ?thesis using that by (cases "needsKube cfg") (simp_all add: wire_kube_def)
qed

lemma wire_store_up:
  assumes "services_up env cfg" and "validate_store (cf_CertificateStore cfg) = Inr ()"
    and "needsKube cfg \<Longrightarrow> cs \<noteq> None"
  obtains i f where "wire_store env issuer cs (cf_CertificateStore cfg) w = (Ret (i, f), w)" "iss_Name i = iss_Name issuer"
proof -
  let ?st = "cf_CertificateStore cfg"
  obtain d where d: "me_ParseDuration env (st_RenewBefore ?st) = Inr d"
    using assms(1) by (auto simp: services_up_def durations_of_def)
  consider "\<not> st_Enabled ?st" | "st_Enabled ?st" "st_Provider ?st = ''kube''" | "st_Enabled ?st" "st_Provider ?st = ''vault''"
    | "st_Enabled ?st" "st_Provider ?st = ''file''"
    using assms(2) by (auto simp: validate_store_def split: if_splits)
  then show ?thesis
  proof cases
    case 1
    then show ?thesis using that by (simp add: wire_store_def)
  next
    case 2
    then obtain k where "cs = Some k" using assms(3) by (auto simp: needsKube_def)
    then show ?thesis using that 2 d by (simp add: wire_store_def wire_kube_store_def Let_def ck_issuer_def)
  next
    case 3
    obtain a c where "cv_New (me_kv env)
        (cv_WithRenewBefore d # when_set (st_VaultAddress ?st) [cv_WithAddress (st_VaultAddress ?st)] @
           when_set (st_VaultToken ?st) [cv_WithToken (st_VaultToken ?st)] @
           when_set (st_VaultMount ?st) [cv_WithMount (st_VaultMount ?st)] @
           when_set (st_VaultPrefix ?st) [cv_WithPrefix (st_VaultPrefix ?st)]) = Inr (a, c)"
      using cv_New_up [OF assms(1)] by fastforce
    then show ?thesis using that 3 d by (simp add: wire_store_def wire_vault_store_def cv_issuer_def)
  next
    case 4
    then show ?thesis using that d by (simp add: wire_store_def cf_issuer_def)
  qed
qed

lemma wire_provisioner_up:
  assumes "validate_provisioner (cf_Provisioner cfg) = Inr ()" and "needsKube cfg \<Longrightarrow> cs \<noteq> None"
  obtains p w' where "wire_provisioner env (cf_Provisioner cfg) cs f w = (Ret p, w')"
    "prov_Name p = configured_gateway (pv_Provider (cf_Provisioner cfg))"
proof -
  let ?pc = "cf_Provisioner cfg"
  consider "pv_Provider ?pc = ''netscaler''" | "pv_Provider ?pc = ''ingress''" | "pv_Provider ?pc = ''log''"
    using assms(1) by (auto simp: validate_provisioner_def split: if_splits)
  then show ?thesis
  proof cases
    case 1
    then show ?thesis using that
      by (simp add: wire_provisioner_def wire_netscaler_def netscaler_provisioner_def configured_gateway_def)
  next
    case 2
    then obtain k where "cs = Some k" using assms(2) by (auto simp: needsKube_def)
    then show ?thesis using that 2
      by (simp add: wire_provisioner_def ing_New_def ing_WithNamespace_def ing_WithMaxRoutesPerIngress_def
          ing_WithKubeClient_def ingress_provisioner_def configured_gateway_def)
  next
    case 3
    then show ?thesis using that
      by (simp add: wire_provisioner_def lift_Provisioner_def log_provisioner_def configured_gateway_def)
  qed
qed


definition election_without_client :: "Config \<Rightarrow> bool" where
  "election_without_client cfg \<longleftrightarrow>
     le_Enabled (cf_LeaderElection cfg) \<and> le_Provider (cf_LeaderElection cfg) = ''mongo'' \<and>
     ds_Provider (cf_Datasource cfg) = ''http''"

lemma wire_election_up:
  assumes "services_up env cfg" and "validate_election (cf_LeaderElection cfg) = Inr ()"
    and "mc = None \<longleftrightarrow> ds_Provider (cf_Datasource cfg) = ''http''" and "\<not> election_without_client cfg"
  obtains e w' where "wire_election env cfg mc w = (Ret e, w')" "e \<noteq> None \<longleftrightarrow> le_Enabled (cf_LeaderElection cfg)"
proof -
  let ?le = "cf_LeaderElection cfg"
  obtain d r k where d: "me_ParseDuration env (le_LeaseDuration ?le) = Inr d"
    "me_ParseDuration env (le_RetryInterval ?le) = Inr r" "me_ParseDuration env (le_RenewDeadline ?le) = Inr k"
    using assms(1) by (auto simp: services_up_def durations_of_def)
  consider "\<not> le_Enabled ?le" | "le_Enabled ?le" "le_Provider ?le = ''kube''" | "le_Enabled ?le" "le_Provider ?le = ''mongo''"
    using assms(2) by (auto simp: validate_election_def split: if_splits)
  then show ?thesis
  proof cases
    case 1
    then show ?thesis using that by (simp add: wire_election_def)
  next
    case 2
    then show ?thesis using that d by (simp add: wire_election_def wire_kube_elector_def Let_def)
  next
    case 3
    then obtain c where "mc = Some c" using assms(3,4) by (auto simp: election_without_client_def)
    moreover obtain q v where "me_LeaseCollection env (Some c) (ds_Database (cf_Datasource cfg)) ''leases'' w = (Ret q, v)"
      using assms(1) unfolding services_up_def by blast
    ultimately show ?thesis using that 3 d
      by (auto simp: wire_election_def wire_mongo_elector_def Let_def)
  qed
qed

lemma wire_election_nil:
  assumes "services_up env cfg" and "election_without_client cfg"
    and "me_LeaseCollection env None (ds_Database (cf_Datasource cfg)) ''leases'' w = (Panic s, w')"
  shows "wire_election env cfg None w = (Panic s, w')"
proof -
  obtain d r where "me_ParseDuration env (le_LeaseDuration (cf_LeaderElection cfg)) = Inr d"
    "me_ParseDuration env (le_RetryInterval (cf_LeaderElection cfg)) = Inr r"
    using assms(1) by (auto simp: services_up_def durations_of_def)
  then show ?thesis using assms(2,3)
    by (simp add: wire_election_def wire_mongo_elector_def election_without_client_def Let_def)
qed

text \<open>Up to the election nothing stops a valid configuration.\<close>

lemma wire_before_election:
  assumes "validate cfg = Inr ()" and "services_up env cfg"
  obtains mc t d i p k v where
    "wire env cfg w = bindr (wire_election env cfg mc) (\<lambda>elector. ret (wire_orchestrator d i p k (Some t) elector)) v"
    "mc = None \<longleftrightarrow> ds_Provider (cf_Datasource cfg) = ''http''"
    "iss_Name i = configured_issuer (ct_Provider (cf_Certificate cfg))"
    "prov_Name p = configured_gateway (pv_Provider (cf_Provisioner cfg))"
    "me_ParseDuration env (rec_Interval (cf_Reconcile cfg)) = Inr k"
proof -
  have ok: "validate_certificate (cf_Certificate cfg) = Inr ()" "validate_store (cf_CertificateStore cfg) = Inr ()"
    "validate_provisioner (cf_Provisioner cfg) = Inr ()"
    using assms(1) by (simp_all add: validate_def)
  obtain mc t d w1 where s: "wire_source env (cf_Datasource cfg) w = (Ret (mc, Some t, d), w1)"
    "mc = None \<longleftrightarrow> ds_Provider (cf_Datasource cfg) = ''http''"
    by (rule wire_source_up [OF assms(2) validate_ok(1) [OF assms(1)]])
  obtain i w2 where i: "wire_issuer env (cf_Certificate cfg) w1 = (Ret i, w2)"
    "iss_Name i = configured_issuer (ct_Provider (cf_Certificate cfg))"
    by (rule wire_issuer_up [OF assms(2) ok(1)])
  obtain cs where cs: "wire_kube env cfg w2 = (Ret cs, w2)" "needsKube cfg \<Longrightarrow> cs \<noteq> None"
    using wire_kube_up [OF assms(2)] by blast
  obtain j f where j: "wire_store env i cs (cf_CertificateStore cfg) w2 = (Ret (j, f), w2)" "iss_Name j = iss_Name i"
    by (rule wire_store_up [OF assms(2) ok(2) cs(2)])
  obtain p w3 where p: "wire_provisioner env (cf_Provisioner cfg) cs f w2 = (Ret p, w3)"
    "prov_Name p = configured_gateway (pv_Provider (cf_Provisioner cfg))"
    by (rule wire_provisioner_up [OF ok(3) cs(2)])
  obtain k where k: "me_ParseDuration env (rec_Interval (cf_Reconcile cfg)) = Inr k"
    using assms(2) by (auto simp: services_up_def durations_of_def)
  have "wire env cfg w = bindr (wire_election env cfg mc) (\<lambda>elector. ret (wire_orchestrator d j p k (Some t) elector)) w3"
    using s(1) i(1) cs(1) j(1) p(1) k by (simp add: wire_def)
  then show ?thesis using that s(2) i(2) j(2) p(2) k by simp
qed

lemma wire_orchestrator_fields [simp]:
  "og_issuer (wire_orchestrator d i p k t e) = i"
  "og_provisioner (wire_orchestrator d i p k t e) = p"
  "og_trigger (wire_orchestrator d i p k t e) = t"
  "og_reconciler (wire_orchestrator d i p k t e) = Some \<lparr>rc_desired = d, rc_issuer = i, rc_provisioner = p\<rparr>"
  "og_reconcileInterval (wire_orchestrator d i p k t e) = k"
  "og_leaderElector (wire_orchestrator d i p k t e) = e"
  by (auto simp: wire_orchestrator_def orch_New_def WithReconciler_def WithTrigger_def WithLeaderElection_def)

lemma wire_runs:
  assumes "validate cfg = Inr ()" and "services_up env cfg" and "\<not> election_without_client cfg"
  obtains d i p k t e w' where "wire env cfg w = (Ret (wire_orchestrator d i p k (Some t) e), w')"
    "iss_Name i = configured_issuer (ct_Provider (cf_Certificate cfg))"
    "prov_Name p = configured_gateway (pv_Provider (cf_Provisioner cfg))"
    "me_ParseDuration env (rec_Interval (cf_Reconcile cfg)) = Inr k" "e \<noteq> None \<longleftrightarrow> le_Enabled (cf_LeaderElection cfg)"
proof -
  obtain mc t d i p k v where b:
    "wire env cfg w = bindr (wire_election env cfg mc) (\<lambda>elector. ret (wire_orchestrator d i p k (Some t) elector)) v"
    "mc = None \<longleftrightarrow> ds_Provider (cf_Datasource cfg) = ''http''"
    "iss_Name i = configured_issuer (ct_Provider (cf_Certificate cfg))"
    "prov_Name p = configured_gateway (pv_Provider (cf_Provisioner cfg))"
    "me_ParseDuration env (rec_Interval (cf_Reconcile cfg)) = Inr k"
    by (rule wire_before_election [OF assms(1,2)])
  have "validate_election (cf_LeaderElection cfg) = Inr ()" using assms(1) by (simp add: validate_def)
  from wire_election_up [OF assms(2) this b(2) assms(3)]
  obtain e w' where "wire_election env cfg mc v = (Ret e, w')" "e \<noteq> None \<longleftrightarrow> le_Enabled (cf_LeaderElection cfg)"
    by blast
  then show ?thesis using that b by simp
qed

lemma boot_wire: "Load vp (ConfigPath Getenv flag) = Inr cfg \<Longrightarrow> boot vp Getenv env flag w = wire env cfg w"
  by (simp add: boot_def)

section \<open>Properties\<close>

text \<open>
  C39: a leader election through MongoDB is accepted by the validation with the HTTP datasource
  too, which has no MongoDB client: the process then crashes on the nil client before it runs.
\<close>

theorem mongo_election_crashes_without_client:
  assumes load: "Load vp (ConfigPath Getenv flag) = Inr cfg" and "services_up env cfg" and "election_without_client cfg"
    and "\<And>db n v. \<exists>s v'. me_LeaseCollection env None db n v = (Panic s, v')"
  shows "\<exists>s w'. boot vp Getenv env flag w = (Panic s, w')"
proof -
  obtain mc t d i p k v where b:
    "wire env cfg w = bindr (wire_election env cfg mc) (\<lambda>elector. ret (wire_orchestrator d i p k (Some t) elector)) v"
    "mc = None \<longleftrightarrow> ds_Provider (cf_Datasource cfg) = ''http''"
    by (rule wire_before_election [OF Load_valid [OF load] assms(2)])
  then have "mc = None" using assms(3) by (simp add: election_without_client_def)
  moreover obtain s v' where "me_LeaseCollection env None (ds_Database (cf_Datasource cfg)) ''leases'' v = (Panic s, v')"
    using assms(4) by blast
  ultimately show ?thesis using b(1) wire_election_nil [OF assms(2,3)] by (simp add: boot_wire [OF load])
qed


text \<open>
  C31: with the Kubernetes store and the Ingress gateway, the TLS entry of an Ingress names the
  very Secret under which the store keeps the certificate of the host. The Ingress is in the
  namespace of the provisioner and the Secret in that of the store: it is found there only when
  the two settings are equal, which nothing checks.
\<close>

theorem ingress_names_stored_secret:
  assumes "wire env cfg w = (Ret og, w')" and "pv_Provider (cf_Provisioner cfg) = ''ingress''"
    and "st_Enabled (cf_CertificateStore cfg)" and "st_Provider (cf_CertificateStore cfg) = ''kube''"
  shows "\<exists>p ck api inner. og_provisioner og = ingress_provisioner p \<and> og_issuer og = ck_issuer (me_time env) api ck inner \<and>
    (\<forall>r c. im_MapTLS (ing_mapper p) r = Inr (Some \<lparr>it_Hosts = [rr_Host r],
       it_SecretName = sec_Name (ck_secret (me_time env) ck (secretName ck (rr_Host r)) c)\<rparr>)) \<and>
    ic_namespace (ing_cfg p) = pv_Namespace (cf_Provisioner cfg) \<and>
    (\<forall>n c. sec_Namespace (ck_secret (me_time env) ck n c) = st_Namespace (cf_CertificateStore cfg))"
proof -
  obtain mc t d i v1 v2 cs j f v3 p v4 k v5 e where
    store: "wire_store env i cs (cf_CertificateStore cfg) v2 = (Ret (j, f), v3)"
    and prov: "wire_provisioner env (cf_Provisioner cfg) cs f v3 = (Ret p, v4)"
    and og: "og = wire_orchestrator d j p k t e"
    using assms(1) unfolding wire_def by (elim bindr_RetD wrapr_RetD) (auto split: prod.splits elim!: bindr_RetD wrapr_RetD)
  from store obtain ck api where j: "j = ck_issuer (me_time env) api ck i" "f = Some (secretName ck)"
    "ck_namespace ck = st_Namespace (cf_CertificateStore cfg)"
    using assms(3,4) unfolding wire_store_def wire_kube_store_def
    by (auto simp: Let_def ck_New_def ck_WithNamespace_def ck_WithSecretPrefix_def ck_WithRenewBefore_def panic_def
        elim!: wrapr_RetD split: option.splits)
  from prov obtain q where q: "p = ingress_provisioner q" "ing_mapper q = app_mapper (wire_ingress_mapper (cf_Provisioner cfg) f)"
    "ic_namespace (ing_cfg q) = pv_Namespace (cf_Provisioner cfg)"
    using assms(2) unfolding wire_provisioner_def
    by (cases cs) (auto simp: ing_New_def ing_WithNamespace_def ing_WithMaxRoutesPerIngress_def ing_WithKubeClient_def
        elim!: wrapr_RetD)
  show ?thesis
    using og j q by (intro exI [of _ q] exI [of _ ck] exI [of _ api] exI [of _ i])
      (simp add: app_mapper_def app_MapTLS_def wire_ingress_mapper_def ck_secret_def)
qed


section \<open>An instance\<close>

text \<open>Services that answer everything, over a rest of the world without state.\<close>

definition demo_collection :: "unit option \<Rightarrow> string \<Rightarrow> string \<Rightarrow> (unit main_world, lease_collection) act" where
  "demo_collection client db name = (case client of
     None \<Rightarrow> panic ''nil pointer dereference'' | Some c \<Rightarrow> ret documented_collection)"

definition demo_acme :: "'w acme_env" where
  "demo_acme = \<lparr>ae_Register = \<lambda>c w. (Inr (), w), ae_AuthorizeOrder = \<lambda>i w. (Inl ErrNotFound, w),
     ae_GetAuthorization = \<lambda>u w. (Inl ErrNotFound, w), ae_HTTP01ChallengeResponse = \<lambda>t. Inr t,
     ae_DNS01ChallengeRecord = \<lambda>t. Inr t, ae_Accept = \<lambda>c w. (Inr (), w), ae_WaitAuthorization = \<lambda>u w. (Inr (), w),
     ae_WaitOrder = \<lambda>u w. (Inl ErrNotFound, w), ae_GenerateKey = \<lambda>w. (Inr ''key'', w),
     ae_CreateCertificateRequest = \<lambda>d n k w. (Inr d, w), ae_CreateOrderCert = \<lambda>u c w. (Inl ErrNotFound, w),
     ae_MarshalECPrivateKey = \<lambda>k. Inr k, ae_ParseCertificate = \<lambda>d. Inr (0, 1), ae_PemEncode = \<lambda>t d. d,
     ae_PemDecode = \<lambda>s. Some s, ae_RevokeCert = \<lambda>d w. (Inr (), w)\<rparr>"

definition demo_acme_api :: "'w acme_api" where
  "demo_acme_api = \<lparr>aa_GenerateKey = \<lambda>w. (Inr ''key'', w), aa_Client = \<lambda>k u. demo_acme\<rparr>"

definition demo_clientset :: "'w Clientset" where
  "demo_clientset = \<lparr>kc_secrets = \<lparr>sa_Get = \<lambda>ns n w. (Inl ErrNotFound, w), sa_Create = \<lambda>ns s w. (Inr (), w),
       sa_Update = \<lambda>ns s w. (Inr (), w), sa_Delete = \<lambda>ns n w. (Inr (), w)\<rparr>,
     kc_ingresses = \<lparr>ka_List = \<lambda>ns s w. (Inr [], w), ka_Create = \<lambda>ns i w. (Inr i, w), ka_Delete = \<lambda>ns n w. (Inr (), w),
       ka_Patch = \<lambda>ns n p w. (Inr (), w)\<rparr>\<rparr>"

definition demo_main :: "(unit, unit, unit) main_env" where
  "demo_main = \<lparr>me_ParseDuration = \<lambda>s. Inr (5 * second), me_Hostname = ''pod'',
     me_url = \<lparr>ue_Hostname = Inr, ue_fmt_v = \<lambda>v. ''''\<rparr>, me_Connect = \<lambda>uri. Inr (),
     me_Find = \<lambda>c db n w. (Inr ([], None), w), me_LeaseCollection = demo_collection,
     me_crypto = \<lparr>cr_GenerateKey = \<lambda>w. (Inr ''key'', w), cr_RandInt = \<lambda>n w. (Inr 1, w), cr_Now = \<lambda>w. 0,
       cr_CreateCertificate = \<lambda>t k w. (Inr '''', w), cr_MarshalECPrivateKey = \<lambda>k w. (Inr k, w), cr_PemEncode = \<lambda>t d. d\<rparr>,
     me_acme_http = demo_acme_api, me_acme_dns = demo_acme_api, me_Listen = \<lambda>a e. (Inr (), e),
     me_pki = \<lambda>a t. Inr \<lparr>pk_Write = \<lambda>p d w. (Inr None, w), pk_PemDecode = Some, pk_ParseCertificate = \<lambda>b. Inl ErrNotFound\<rparr>,
     me_kv = \<lambda>a t. Inr \<lparr>va_Read = \<lambda>p w. (Inr None, w), va_Write = \<lambda>p d w. (Inr (), w), va_Delete = \<lambda>p w. (Inr (), w)\<rparr>,
     me_InClusterConfig = Inr (), me_NewForConfig = Inr demo_clientset,
     me_time = example_time,
     me_files = \<lparr>fe_Now = \<lambda>w. 0, fe_Join = (@), fe_MkdirAll = \<lambda>d w. (Inr (), w), fe_WriteFile = \<lambda>p s w. (Inr (), w),
       fe_ReadFile = \<lambda>p w. (Inl ErrNotFound, w), fe_RemoveAll = \<lambda>p w. (Inr (), w), fe_Marshal = \<lambda>x. Inr ''{}'',
       fe_Unmarshal = \<lambda>s. Inl ErrNotFound\<rparr>,
     me_nitro = \<lambda>h e u p. \<lparr>nc_endpoint = e, nc_username = u, nc_password = p, nc_NewRequest = (\<lambda>_. None),
       nc_Do = (\<lambda>rq w. (Inr \<lparr>rp_StatusCode = 200, rp_Body = ''''\<rparr>, w)), nc_Parse = (\<lambda>s. Inr JNull)\<rparr>,
     me_DefaultClient = (), me_InsecureClient = ()\<rparr>"

lemma demo_main_up: "services_up demo_main cfg"
  by (simp add: services_up_def demo_main_def demo_acme_api_def demo_collection_def)

text \<open>The defaults with a datasource, the Ingress gateway, the Kubernetes store and an election.\<close>

definition demo_config :: "string \<Rightarrow> string \<Rightarrow> Config" where
  "demo_config source election =
     (let m = \<lparr>mc_URLField = ''url'', mc_Path = ''/'', mc_TLS = True, mc_Backends = []\<rparr> in
      \<lparr>cf_Log = \<lparr>log_Format = ''json''\<rparr>,
       cf_Datasource = \<lparr>ds_Provider = source, ds_URI = ''mongodb://db'', ds_Database = ''d'', ds_Collection = ''routes'',
         ds_Collections = [], ds_ListenAddr = '':8081'', ds_Mapper = m\<rparr>,
       cf_Certificate = \<lparr>ct_Provider = ''acme-http'', ct_Email = ''a@b'', ct_DirectoryURL = ''https://acme'', ct_ChallengePort = 80,
         ct_Validity = ''8760h'', ct_Organization = ''Self-Signed'', ct_VaultAddress = '''', ct_VaultToken = '''',
         ct_VaultMount = ''pki'', ct_VaultRole = '''', ct_VaultTTL = ''720h''\<rparr>,
       cf_CertificateStore = \<lparr>st_Enabled = True, st_Provider = ''kube'', st_Namespace = ''certs'', st_SecretPrefix = ''route-tls'',
         st_RenewBefore = ''720h'', st_Dir = ''.certs'', st_VaultAddress = '''', st_VaultToken = '''', st_VaultMount = ''secret'',
         st_VaultPrefix = ''route-tls''\<rparr>,
       cf_Provisioner = \<lparr>pv_Provider = ''ingress'', pv_Endpoint = '''', pv_Username = '''', pv_Password = '''',
         pv_InsecureSkipVerify = False, pv_Namespace = ''default'', pv_MaxRoutesPerIngress = 50, pv_IngressClass = ''nginx'',
         pv_Annotations = Map.empty\<rparr>,
       cf_Reconcile = \<lparr>rec_Interval = ''5m''\<rparr>,
       cf_LeaderElection = \<lparr>le_Enabled = True, le_Provider = election, le_LeaseName = ''l'', le_Namespace = ''default'',
         le_LeaseDuration = ''15s'', le_RenewDeadline = ''10s'', le_RetryInterval = ''2s'', le_Identity = ''''\<rparr>\<rparr>)"

lemma demo_config_valid:
  "validate (demo_config ''mongodb'' ''kube'') = Inr ()" "validate (demo_config ''http'' ''mongo'') = Inr ()"
  by (simp_all add: validate_def validate_datasource_def validate_provisioner_def validate_certificate_def
      validate_store_def validate_election_def MongoCollections_def demo_config_def Let_def)

lemma demo_config_election:
  "\<not> election_without_client (demo_config ''mongodb'' ''kube'')" "election_without_client (demo_config ''http'' ''mongo'')"
  by (simp_all add: election_without_client_def demo_config_def Let_def)

lemma demo_config_fields [simp]:
  "ct_Provider (cf_Certificate (demo_config s e)) = ''acme-http''"
  "pv_Provider (cf_Provisioner (demo_config s e)) = ''ingress''"
  "pv_Namespace (cf_Provisioner (demo_config s e)) = ''default''"
  "st_Enabled (cf_CertificateStore (demo_config s e))"
  "st_Provider (cf_CertificateStore (demo_config s e)) = ''kube''"
  "st_Namespace (cf_CertificateStore (demo_config s e)) = ''certs''"
  "rec_Interval (cf_Reconcile (demo_config s e)) = ''5m''"
  "le_Enabled (cf_LeaderElection (demo_config s e))"
  by (simp_all add: demo_config_def Let_def)

definition demo_start :: "unit main_world" where
  "demo_start = \<lparr>mw_challenge = NewChallengeServer 80, mw_source = hs_New, mw_log = log_New, mw_ext = ()\<rparr>"

text \<open>A file with the configuration, without environment variables.\<close>

definition demo_viper :: "Config \<Rightarrow> Config viper" where
  "demo_viper cfg = \<lparr>vp_ReadInConfig = \<lambda>defaults path. if path = ''config.yaml'' then Inr cfg else Inl ErrNotFound,
     vp_Unmarshal = \<lambda>prefix v. Inr v\<rparr>"

lemma demo_load:
  "validate cfg = Inr () \<Longrightarrow> Load (demo_viper cfg) (ConfigPath (\<lambda>v. '''') ''config.yaml'') = Inr cfg"
  by (simp add: Load_def ConfigPath_def demo_viper_def)

theorem mongo_election_crashes_without_client_witness:
  "\<exists>s w'. boot (demo_viper (demo_config ''http'' ''mongo'')) (\<lambda>v. '''') demo_main ''config.yaml'' demo_start = (Panic s, w')"
  by (rule mongo_election_crashes_without_client [OF demo_load [OF demo_config_valid(2)] demo_main_up demo_config_election(2)])
    (simp add: demo_main_def demo_collection_def panic_def)

theorem ingress_names_stored_secret_witness:
  "\<exists>p ck (te :: unit main_world time_env).
    (\<forall>r c. im_MapTLS (ing_mapper p) r = Inr (Some \<lparr>it_Hosts = [rr_Host r],
       it_SecretName = sec_Name (ck_secret te ck (secretName ck (rr_Host r)) c)\<rparr>)) \<and>
    ic_namespace (ing_cfg (p :: unit main_world IngressProvisioner)) = ''default'' \<and>
    (\<forall>n c. sec_Namespace (ck_secret te ck n c) = ''certs'')"
  by (rule wire_runs [OF demo_config_valid(1) demo_main_up demo_config_election(1), of demo_start],
      drule ingress_names_stored_secret) auto

end
