(* ===== verification/ProcessRun.thy ===== *)
theory ProcessRun
  imports HttpFlow IngressInvariants Wiring
begin

text \<open>
  A whole run of the orchestrator as a sequence of what its \<open>select\<close> statements choose, with the
  effects on the world, and what holds after every such run: the contract of the services that
  keeps the process up, and its instance for the Ingress provisioner, whose buckets stay well
  formed for the life of the process.
\<close>

section \<open>Runs\<close>

text \<open>
  The choices of the main loop and of \<open>reconcileLoop\<close>. Their critical sections exclude each other
  (\<open>critical_sections_exclusive\<close>), so that a run is a sequence of them; \<open>RunElse f\<close> is a step of any
  other goroutine, such as a handler of the HTTP source.
\<close>

datatype 'w run_step =
    RunEvent RouteEvent
  | RunTick
  | RunTriggerErr gerror
  | RunCtxDone
  | RunElse "'w \<Rightarrow> 'w"

text \<open>
  \<open>absorb m k\<close>: the errors of \<open>m\<close> are logged; a panic ends the process. The first component of a
  result is \<open>None\<close> while the loop runs.
\<close>

definition absorb :: "('w, unit) act \<Rightarrow> ('w \<Rightarrow> unit res option \<times> 'w) \<Rightarrow> 'w \<Rightarrow> unit res option \<times> 'w" where
  "absorb m k w = (case m w of (Panic s, w') \<Rightarrow> (Some (Panic s), w') | (_, w') \<Rightarrow> k w')"

text \<open>
  \<open>tick\<close> is the cycle of the periodic loop, if that loop was started; after the trigger has
  failed both of its channels are nil.
\<close>

fun run_loop ::
  "'w Issuer \<Rightarrow> 'w RouteProvisioner \<Rightarrow> ('w, unit) act option \<Rightarrow> bool \<Rightarrow> 'w run_step list \<Rightarrow> 'w
   \<Rightarrow> unit res option \<times> 'w" where
  "run_loop iss prov tick events [] w = (None, w)"
| "run_loop iss prov tick events (RunCtxDone # steps) w = (Some (Fail ErrCtx), w)"
| "run_loop iss prov tick events (RunTriggerErr e # steps) w = run_loop iss prov tick False steps w"
| "run_loop iss prov tick events (RunEvent ev # steps) w =
     (if events then absorb (handleEvent iss prov ev) (run_loop iss prov tick events steps) w
      else run_loop iss prov tick events steps w)"
| "run_loop iss prov tick events (RunTick # steps) w =
     (case tick of
        None \<Rightarrow> run_loop iss prov tick events steps w
      | Some cycle \<Rightarrow> absorb cycle (run_loop iss prov tick events steps) w)"
| "run_loop iss prov tick events (RunElse f # steps) w = run_loop iss prov tick events steps (f w)"

definition cycle_of :: "'w Reconciler \<Rightarrow> ('w, unit) act" where
  "cycle_of r = Reconcile (rc_desired r) (rc_issuer r) (rc_provisioner r)"

text \<open>\<open>run\<close>: the initial reconciliation, then the loops.\<close>

definition orch_run :: "('w, 't, 'l) Orchestrator \<Rightarrow> 'w run_step list \<Rightarrow> 'w \<Rightarrow> unit res option \<times> 'w" where
  "orch_run o1 steps =
     absorb (case og_reconciler o1 of None \<Rightarrow> ret () | Some r \<Rightarrow> cycle_of r)
       (run_loop (og_issuer o1) (og_provisioner o1)
          (case og_reconciler o1 of
             None \<Rightarrow> None
           | Some r \<Rightarrow> if 0 < og_reconcileInterval o1 then Some (cycle_of r) else None)
          (og_trigger o1 \<noteq> None) steps)"

text \<open>
  The end of \<open>main\<close>: status 1 when \<open>Run\<close> returns an error, 0 otherwise, and 2 for a panic. With
  the HTTP source a second goroutine serves the API, and ends the process with status 1 when
  \<open>ListenAndServe\<close> returns an error.
\<close>

fun exit_status :: "unit res \<Rightarrow> nat" where
  "exit_status (Ret u) = 0"
| "exit_status (Fail e) = 1"
| "exit_status (Panic s) = 2"

fun serve_api :: "gerror option \<Rightarrow> nat option" where
  "serve_api None = None"
| "serve_api (Some err) = Some 1"

text \<open>\<open>api\<close>: after how many steps of the orchestrator, and with what, the API goroutine returns, if ever.\<close>

definition main_run ::
  "('w, 't, 'l) Orchestrator \<Rightarrow> 'w run_step list \<Rightarrow> (nat \<times> gerror option) option \<Rightarrow> 'w \<Rightarrow> nat option \<times> 'w" where
  "main_run o1 steps api w =
     (let run = (\<lambda>steps. case orch_run o1 steps w of (r, w') \<Rightarrow> (map_option exit_status r, w')) in
      case api of
        None \<Rightarrow> run steps
      | Some (n, err) \<Rightarrow>
          (case serve_api err of
             None \<Rightarrow> run steps
           | Some status \<Rightarrow>
               (case run (take n steps) of
                  (None, w') \<Rightarrow> (Some status, w')
                | ended \<Rightarrow> ended)))"

text \<open>How a run can end: not at all, or by its context.\<close>

definition up :: "unit res option \<Rightarrow> bool" where
  "up r \<longleftrightarrow> r = None \<or> r = Some (Fail ErrCtx)"

text \<open>The other goroutines keep \<open>J\<close>.\<close>

definition undisturbed :: "('w \<Rightarrow> bool) \<Rightarrow> 'w run_step list \<Rightarrow> bool" where
  "undisturbed J steps \<longleftrightarrow> (\<forall>f v. RunElse f \<in> set steps \<longrightarrow> J v \<longrightarrow> J (f v))"

section \<open>Services that keep the process up\<close>

locale safe_services =
  fixes J :: "'w \<Rightarrow> bool" and prov :: "'w RouteProvisioner" and iss :: "'w Issuer" and des :: "'w DesiredStateProvider"
  assumes safe_Provision: "safe J (\<lambda>q. q \<noteq> None) (prov_Provision prov r c)"
    and safe_Deprovision: "safe J (\<lambda>_. True) (prov_Deprovision prov i)"
    and safe_List: "safe J (\<lambda>_. True) (prov_List prov)"
    and safe_BatchProvision: "safe J (\<lambda>_. True) (prov_BatchProvision prov rs cs)"
    and safe_BatchDeprovision: "safe J (\<lambda>_. True) (prov_BatchDeprovision prov is)"
    and safe_Issue: "safe J (\<lambda>c. c \<noteq> None) (iss_Issue iss r)"
    and safe_desired: "safe J (\<lambda>_. True) (des_List des)"
begin

lemma safe_provision_with: "safe J (\<lambda>_. True) (provision_with prov route cert)"
  unfolding provision_with_def
  by (intro safe_attempt [OF safe_Provision] safe_intros) (auto intro: safe_intros)

lemma safe_handleEvent: "safe J (\<lambda>_. True) (handleEvent iss prov ev)"
proof -
  have "safe J (\<lambda>_. True) (provisionRoute iss prov route)" for route
    unfolding provisionRoute_def
    by (auto intro!: safe_attempt [OF safe_Issue] safe_intros safe_provision_with)
  moreover have "safe J (\<lambda>_. True) (deprovisionRoute prov route)" for route
    unfolding deprovisionRoute_def by (auto intro!: safe_attempt [OF safe_Deprovision] safe_intros)
  ultimately show ?thesis by (simp add: handleEvent_def safe_ret)
qed

lemma safe_issue_certs: "safe J (\<lambda>_. True) (issue_certs iss rs certs)"
proof (induction rs arbitrary: certs)
  case (Cons r rs)
  then show ?case by (auto intro!: safe_attempt [OF safe_Issue])
qed (simp add: safe_ret)

lemma safe_Reconcile: "safe J (\<lambda>_. True) (Reconcile des iss prov)"
proof -
  have stale: "safe J (\<lambda>_. True) (remove_stale prov ids)" for ids
    unfolding remove_stale_def by (auto intro!: safe_attempt [OF safe_BatchDeprovision] safe_intros)
  show ?thesis
    unfolding Reconcile_def
    by (auto intro!: safe_bindr [OF safe_desired] safe_bindr [OF safe_List] safe_bindr [OF stale]
        safe_bindr [OF safe_issue_certs] safe_bindr [OF safe_BatchProvision] safe_ret split: prod.split)
qed

lemma absorb_safe:
  assumes "safe J (\<lambda>_. True) m" "J w" "\<And>v. J v \<Longrightarrow> J (snd (k v)) \<and> R (fst (k v))"
  shows "J (snd (absorb m k w)) \<and> R (fst (absorb m k w))"
proof (cases "m w")
  case (Pair x v)
  note m = safeD [OF assms(1,2) Pair]
  have "absorb m k w = k v"
  proof (cases x)
    case (Panic s)
    then show ?thesis using m(2) [of s] by simp
  qed (simp_all add: absorb_def Pair)
  with m(1) assms(3) show ?thesis by simp
qed

lemma run_loop_safe:
  assumes "undisturbed J steps" "J w"
    and tick: "\<And>cycle. tick = Some cycle \<Longrightarrow> safe J (\<lambda>_. True) cycle"
  shows "J (snd (run_loop iss prov tick events steps w)) \<and> up (fst (run_loop iss prov tick events steps w)) \<and>
    (RunCtxDone \<in> set steps \<longrightarrow> fst (run_loop iss prov tick events steps w) = Some (Fail ErrCtx))"
  using assms(1,2)
proof (induction steps arbitrary: events w)
  case Nil
  then show ?case by (simp add: up_def)
next
  case (Cons st steps)
  have env: "undisturbed J steps" using Cons.prems(1) by (simp add: undisturbed_def)
  note ih = Cons.IH [OF env]
  show ?case
  proof (cases st)
    case (RunEvent ev)
    have "J (snd (absorb (handleEvent iss prov ev) (run_loop iss prov tick True steps) w)) \<and>
        (up (fst (absorb (handleEvent iss prov ev) (run_loop iss prov tick True steps) w)) \<and>
         (RunCtxDone \<in> set steps \<longrightarrow> fst (absorb (handleEvent iss prov ev) (run_loop iss prov tick True steps) w) = Some (Fail ErrCtx)))"
      by (rule absorb_safe [OF safe_handleEvent Cons.prems(2)]) (rule ih)
    with ih [OF Cons.prems(2), of events] RunEvent show ?thesis by (cases events) simp_all
  next
    case RunTick
    show ?thesis
    proof (cases tick)
      case None
      with ih [OF Cons.prems(2)] RunTick show ?thesis by simp
    next
      case (Some cycle)
      have "J (snd (absorb cycle (run_loop iss prov tick events steps) w)) \<and>
          (up (fst (absorb cycle (run_loop iss prov tick events steps) w)) \<and>
           (RunCtxDone \<in> set steps \<longrightarrow> fst (absorb cycle (run_loop iss prov tick events steps) w) = Some (Fail ErrCtx)))"
        by (rule absorb_safe [OF tick [OF Some] Cons.prems(2)]) (rule ih)
      with RunTick Some show ?thesis by simp
    qed
  next
    case (RunTriggerErr e)
    with ih [OF Cons.prems(2)] show ?thesis by simp
  next
    case RunCtxDone
    with Cons.prems(2) show ?thesis by (simp add: up_def)
  next
    case (RunElse f)
    then have "J (f w)" using Cons.prems by (simp add: undisturbed_def)
    from ih [OF this] RunElse show ?thesis by simp
  qed
qed

text \<open>The orchestrator that \<open>main\<close> builds of these services.\<close>

lemma orch_run_safe:
  assumes "undisturbed J steps" "J w"
    and o1: "og_issuer o1 = iss" "og_provisioner o1 = prov"
      "og_reconciler o1 = Some \<lparr>rc_desired = des, rc_issuer = iss, rc_provisioner = prov\<rparr>"
    and run: "orch_run o1 steps w = (r, w')"
  shows "J w' \<and> up r \<and> (RunCtxDone \<in> set steps \<longrightarrow> r = Some (Fail ErrCtx))"
proof -
  let ?cycle = "Reconcile des iss prov"
  let ?tick = "if 0 < og_reconcileInterval o1 then Some ?cycle else None"
  let ?loop = "run_loop iss prov ?tick (og_trigger o1 \<noteq> None) steps"
  have c: "cycle_of \<lparr>rc_desired = des, rc_issuer = iss, rc_provisioner = prov\<rparr> = ?cycle"
    by (simp add: cycle_of_def)
  have a: "absorb ?cycle ?loop w = (r, w')"
    using run unfolding orch_run_def o1 option.case c .
  have "J (snd (absorb ?cycle ?loop w)) \<and> (up (fst (absorb ?cycle ?loop w)) \<and>
      (RunCtxDone \<in> set steps \<longrightarrow> fst (absorb ?cycle ?loop w) = Some (Fail ErrCtx)))"
    using safe_Reconcile
    by (intro absorb_safe [OF safe_Reconcile assms(2)] run_loop_safe [OF assms(1)]) (simp_all split: if_splits)
  then show ?thesis unfolding a fst_conv snd_conv by simp
qed

end

section \<open>The Ingress provisioner as such a service\<close>

text \<open>No operation panics, and a route that is provisioned is returned.\<close>

lemma updateRule_result: "no_panic (updateRule p ing j rule tls req)" "fst (updateRule p ing j rule tls req w) \<noteq> Ret None"
  unfolding updateRule_def applyJSONPatch_def
  by (intro no_panic_intros, simp_all) (auto simp: act_defs split: prod.splits sum.splits)

lemma createIngress_no_panic: "no_panic (createIngressWithRules p k rules ts)"
  unfolding createIngressWithRules_def by (intro no_panic_intros) simp_all

lemma deleteIngress_no_panic: "no_panic (deleteIngress p n)"
  unfolding deleteIngress_def by (intro no_panic_intros) simp_all

lemma listManaged_no_panic: "no_panic (listManagedIngresses p)"
  unfolding listManagedIngresses_def by (intro no_panic_intros) simp_all

lemma ing_place_no_panic: "no_panic (ing_place p req cert rule tls ings)"
proof -
  have "no_panic (wrapr s (patchAddRule p n r t) (\<lambda>_. ret x))" for s n r t and x :: "ProvisionedRoute option"
    unfolding patchAddRule_def applyJSONPatch_def by (intro no_panic_intros) simp_all
  moreover have "no_panic (bindr (createIngressWithRules p k rs ts) (\<lambda>c. ret (f c)))" for k rs ts and f :: "Ingress \<Rightarrow> ProvisionedRoute option"
    by (intro no_panic_intros createIngress_no_panic) simp
  ultimately show ?thesis
    by (auto simp: ing_place_def Let_def updateRule_result split: option.split)
qed

lemma ing_place_some:
  fixes w :: 'a
  shows "fst (ing_place p req cert rule tls ings w) \<noteq> Ret None"
proof -
  have "fst (wrapr s m (\<lambda>_. ret (Some x)) v) \<noteq> Ret None" for s v and x :: ProvisionedRoute and m :: "('a, unit) act"
    by (auto simp: act_defs split: prod.splits res.splits)
  moreover have "fst (bindr m (\<lambda>c. ret (Some (f c))) v) \<noteq> Ret None" for v and f :: "Ingress \<Rightarrow> ProvisionedRoute" and m :: "('a, Ingress) act"
    by (auto simp: act_defs split: prod.splits res.splits)
  ultimately show ?thesis
    by (simp add: ing_place_def Let_def updateRule_result(2) split: option.split)
qed

lemma ing_Provision_result: "no_panic (ing_Provision p req cert)" "fst (ing_Provision p req cert w) \<noteq> Ret None"
proof -
  show "no_panic (ing_Provision p req cert)"
    unfolding ing_Provision_def
    by (auto split: sum.split intro!: no_panic_bindr listManaged_no_panic ing_place_no_panic)
  show "fst (ing_Provision p req cert w) \<noteq> Ret None"
  proof
    assume "fst (ing_Provision p req cert w) = Ret None"
    then obtain w' where "ing_Provision p req cert w = (Ret None, w')" by (metis prod.collapse)
    then obtain rule tls ings v where "ing_place p req cert rule tls ings v = (Ret None, w')"
      by (auto simp: ing_Provision_def split: sum.splits elim!: bindr_RetD)
    with ing_place_some show False by (metis fst_conv)
  qed
qed

lemma ing_Deprovision_no_panic: "no_panic (ing_Deprovision p i)"
proof -
  have "no_panic (wrapr s (patchRemoveRule p ing j) ret)" for s ing j
    unfolding patchRemoveRule_def applyJSONPatch_def Let_def by (intro no_panic_intros) simp_all
  then show ?thesis
    unfolding ing_Deprovision_def
    by (intro no_panic_bindr listManaged_no_panic) (auto split: option.split simp: deleteIngress_no_panic)
qed

lemma ing_List_no_panic: "no_panic (ing_List p)"
  unfolding ing_List_def by (intro no_panic_intros listManaged_no_panic) simp

lemma no_panic_Pair [simp]: "no_panic (Pair (Ret x))"
  by (simp add: no_panic_def)

lemma ing_BatchDeprovision_no_panic: "no_panic (ing_BatchDeprovision p ids)"
proof -
  have "no_panic (wrapr s (applyJSONPatch p n ps) ret)" for s n ps
    unfolding applyJSONPatch_def by (intro no_panic_intros) simp_all
  then have one: "no_panic (prune p ids ing)" for ids ing
    by (simp add: prune_cases deleteIngress_no_panic)
  have "no_panic (prune_all p ids ings)" for ids ings
    by (induction ings) (auto intro: no_panic_bindr one)
  then show ?thesis unfolding ing_BatchDeprovision_def by (intro no_panic_bindr listManaged_no_panic)
qed

lemma create_overflow_no_panic:
  assumes "0 < ic_maxRoutesPerIngress (ing_cfg p)"
  shows "create_overflow p mapped cursor k bs w \<noteq> Some (Panic s, w')"
proof (induction "length mapped - cursor" arbitrary: cursor k bs w rule: less_induct)
  case less
  show ?case
  proof (cases "cursor < length mapped")
    case False
    then show ?thesis by (subst create_overflow.simps) simp
  next
    case True
    let ?stop = "min (int cursor + ic_maxRoutesPerIngress (ing_cfg p)) (int (length mapped))"
    have adv: "length mapped - nat ?stop < length mapped - cursor" "\<not> ?stop < int cursor"
      using True assms by auto
    let ?rs = "go_slice mapped cursor (nat ?stop)"
    obtain x v where run: "createIngressWithRules p k (map mr_rule ?rs) (tls_entries ?rs) w = (x, v)"
      by (cases "createIngressWithRules p k (map mr_rule ?rs) (tls_entries ?rs) w")
    have "x \<noteq> Panic z" for z using no_panicD [OF createIngress_no_panic] run by metis
    then show ?thesis
      using True adv(2) run less [OF adv(1)]
      by (subst create_overflow.simps) (cases x; simp add: Let_def)
  qed
qed

lemma ing_BatchProvision_no_panic:
  assumes max: "0 < ic_maxRoutesPerIngress (ing_cfg p)"
  shows "no_panic (ing_BatchProvision p reqs certs)"
proof -
  have appl: "no_panic (apply_batches p certs bs rs)" for bs rs
  proof (induction bs arbitrary: rs)
    case (Cons b bs)
    have "no_panic (patchAddRules p n r t)" for n r t by (simp add: patchAddRules_def applyJSONPatch_def)
    with Cons show ?case by (auto intro: no_panic_wrapr)
  qed simp
  have "fst (ing_BatchProvision p reqs certs w) \<noteq> Panic s" for w s
  proof (cases "map_routes (ing_mapper p) reqs []")
    case (Inl e)
    then show ?thesis by (simp add: ing_BatchProvision_def ing_BatchProvision_run_def)
  next
    case (Inr mapped)
    obtain x w1 where l: "listManagedIngresses p w = (x, w1)" by (cases "listManagedIngresses p w")
    then have "x \<noteq> Panic z" for z using no_panicD [OF listManaged_no_panic] by metis
    then consider e where "x = Fail e" | listed where "x = Ret listed" by (cases x) auto
    then show ?thesis
    proof cases
      case 1
      with Inr l show ?thesis by (simp add: ing_BatchProvision_def ing_BatchProvision_run_def)
    next
      case (2 listed)
      obtain c bs where fill: "fill_existing (ic_maxRoutesPerIngress (ing_cfg p)) mapped
          (sort_key (\<lambda>i. length (ig_Rules i)) listed) 0 [] = (c, bs)" by (metis surj_pair)
      obtain y w2 where over: "create_overflow p mapped c (length listed) bs w1 = Some (y, w2)"
        using create_overflow_returns [OF max] by (metis surj_pair)
      have "y \<noteq> Panic z" for z using create_overflow_no_panic [OF max] over by metis
      with Inr l 2 fill over appl show ?thesis
        by (cases y) (auto simp: ing_BatchProvision_def ing_BatchProvision_run_def no_panic_def)
    qed
  qed
  then show ?thesis by (simp add: no_panic_def)
qed

text \<open>The invariant of the gateway's part, and the calls that keep it.\<close>

definition ing_run_inv ::
  "'w IngressProvisioner \<Rightarrow> AppIngressMapper \<Rightarrow> ('w \<Rightarrow> Ingress list) \<Rightarrow> 'w \<Rightarrow> bool" where
  "ing_run_inv p m objs w \<longleftrightarrow> buckets_inv p (bucket_ok p app_rule_ok (app_tls_ok m)) objs w \<and>
     0 < ic_maxRoutesPerIngress (ing_cfg p) \<and> ing_mapper p = app_mapper m"

lemma ing_run_inv_exec:
  assumes "ing_run_inv p m objs w"
  shows "ing_run_inv p m objs (prov_exec (ingress_provisioner p) c w)"
proof -
  have "keeps p (bucket_ok p app_rule_ok (app_tls_ok m)) UNIV objs w (prov_exec (ingress_provisioner p) c w)"
    using assms by (intro app_law.prov_exec_keeps) (simp_all add: ing_run_inv_def)
  with assms show ?thesis by (simp add: keeps_def ing_run_inv_def)
qed

lemma ing_call_safe:
  assumes "\<And>w. prov_exec (ingress_provisioner p) c w = snd (call w)" "\<And>w s. ing_run_inv p m objs w \<Longrightarrow> fst (call w) \<noteq> Panic s"
    and "\<And>w v. fst (call w) = Ret v \<Longrightarrow> Q v"
  shows "safe (ing_run_inv p m objs) Q call"
proof (rule safeI)
  fix w x w' assume i: "ing_run_inv p m objs w" and run: "call w = (x, w')"
  have "w' = prov_exec (ingress_provisioner p) c w" using assms(1) run by simp
  then have "ing_run_inv p m objs w'" using ing_run_inv_exec [OF i] by simp
  then show "ing_run_inv p m objs w' \<and> (\<forall>s. x \<noteq> Panic s) \<and> (\<forall>v. x = Ret v \<longrightarrow> Q v)"
    using assms(2) [OF i] assms(3) [of w] run by simp
qed

lemma ing_safe:
  fixes p :: "'w IngressProvisioner"
  shows "safe (ing_run_inv p m objs) (\<lambda>q. q \<noteq> None) (prov_Provision (ingress_provisioner p) req cert)"
    and "safe (ing_run_inv p m objs) (\<lambda>_. True) (prov_Deprovision (ingress_provisioner p) i)"
    and "safe (ing_run_inv p m objs) (\<lambda>_. True) (prov_List (ingress_provisioner p))"
    and "safe (ing_run_inv p m objs) (\<lambda>_. True) (prov_BatchProvision (ingress_provisioner p) reqs certs)"
    and "safe (ing_run_inv p m objs) (\<lambda>_. True) (prov_BatchDeprovision (ingress_provisioner p) ids)"
proof -
  let ?P = "ingress_provisioner p"
  have none: "fst (ing_Provision p req cert w) = Ret v \<Longrightarrow> v \<noteq> None" for w v
    using ing_Provision_result(2) [of p req cert w] by auto
  show "safe (ing_run_inv p m objs) (\<lambda>q. q \<noteq> None) (prov_Provision ?P req cert)"
    by (rule ing_call_safe [of p "CallProvision req cert"])
      (use none ing_Provision_result(1) [of p req cert] in \<open>auto simp: ingress_provisioner_def no_panic_def\<close>)
  show "safe (ing_run_inv p m objs) (\<lambda>_. True) (prov_Deprovision ?P i)"
    by (rule ing_call_safe [of p "CallDeprovision i"])
      (use ing_Deprovision_no_panic [of p i] in \<open>auto simp: ingress_provisioner_def no_panic_def\<close>)
  show "safe (ing_run_inv p m objs) (\<lambda>_. True) (prov_List ?P)"
    by (rule ing_call_safe [of p CallList])
      (use ing_List_no_panic [of p] in \<open>auto simp: ingress_provisioner_def no_panic_def\<close>)
  show "safe (ing_run_inv p m objs) (\<lambda>_. True) (prov_BatchProvision ?P reqs certs)"
    by (rule ing_call_safe [of p "CallBatchProvision reqs certs"])
      (use ing_BatchProvision_no_panic [of p reqs certs] in
        \<open>auto simp: ingress_provisioner_def no_panic_def ing_run_inv_def\<close>)
  show "safe (ing_run_inv p m objs) (\<lambda>_. True) (prov_BatchDeprovision ?P ids)"
    by (rule ing_call_safe [of p "CallBatchDeprovision ids"])
      (use ing_BatchDeprovision_no_panic [of p ids] in \<open>auto simp: ingress_provisioner_def no_panic_def\<close>)
qed

text \<open>The product of the gateway with the rest of the world.\<close>

lemma safe_at_fst: "safe J Q n \<Longrightarrow> safe (\<lambda>w. J (fst w)) Q (on_part fst put_fst n)"
  by (fastforce simp: safe_def dest!: on_fst_RetD)

lemma safe_beside: "safe (\<lambda>_. True) Q n \<Longrightarrow> safe (\<lambda>w. J (fst w)) Q (on_part snd put_snd n)"
  by (fastforce simp: safe_def dest!: on_snd_RetD)

lemma ingress_services_safe:
  fixes p :: "'g IngressProvisioner" and iss :: "'s Issuer"
  assumes "nonnil_issuer iss" "no_panic (des_List des)"
  shows "safe_services (\<lambda>w. ing_run_inv p m objs (fst w)) (at_gateway (ingress_provisioner p))
    (issuer_beside iss) (source_beside des)"
proof
  have "safe (\<lambda>_. True) (\<lambda>c. c \<noteq> None) (iss_Issue iss r)" for r
    by (rule safeI) (use nonnil_issuer.issue_nonnil [OF assms(1), of r] in fastforce)
  then show "safe (\<lambda>w. ing_run_inv p m objs (fst w)) (\<lambda>c. c \<noteq> None) (iss_Issue (issuer_beside iss) r)" for r
    by (simp add: lift_Issuer_def safe_beside)
  have "safe (\<lambda>_. True) (\<lambda>_. True) (des_List des)"
    by (rule safeI) (use no_panicD [OF assms(2)] in auto)
  then show "safe (\<lambda>w. ing_run_inv p m objs (fst w)) (\<lambda>_. True) (des_List (source_beside des))"
    by (simp add: lift_Desired_def safe_beside)
qed (simp_all add: lift_Provisioner_def safe_at_fst ing_safe del: not_None_eq)

lemma http_desired_no_panic: "no_panic (des_List (lift_Desired fst put_fst http_desired))"
  by (simp add: lift_Desired_def http_desired_def hs_List_def no_panic_def)

interpretation http_run: safe_services "\<lambda>w. ing_run_inv p m objs (fst w)" "at_gateway (ingress_provisioner p)"
  "issuer_beside (ss_issuer env cfg)" "source_beside (lift_Desired fst put_fst http_desired)"
  for p m objs env cfg
  by (rule ingress_services_safe [OF ss.nonnil_issuer_axioms http_desired_no_panic])

section \<open>Properties\<close>

lemma main_run_cases:
  assumes "main_run o1 steps api w = (status, w')"
  obtains n r where "orch_run o1 (take n steps) w = (r, w')"
    "status = map_option exit_status r \<or> status = Some 1"
    "status = map_option exit_status r \<longrightarrow> r = None \<longrightarrow> take n steps = steps \<and> (\<forall>k e. api \<noteq> Some (k, Some e))"
proof (cases "\<exists>k e. api = Some (k, Some e)")
  case True
  then obtain k e where api: "api = Some (k, Some e)" by blast
  obtain r v where run: "orch_run o1 (take k steps) w = (r, v)" by fastforce
  with assms api have "w' = v" "status = (case r of None \<Rightarrow> Some 1 | Some x \<Rightarrow> Some (exit_status x))"
    by (simp_all add: main_run_def split: option.splits)
  with that [of k r] run show thesis by (cases r) auto
next
  case False
  obtain r v where run: "orch_run o1 steps w = (r, v)" by fastforce
  have "main_run o1 steps api w = (map_option exit_status r, v)"
  proof (cases api)
    case (Some a)
    with False obtain k where "a = (k, None)" by (metis not_None_eq surj_pair)
    with Some run show ?thesis by (simp add: main_run_def)
  qed (simp add: main_run_def run)
  with that [of "length steps" r] assms run False show thesis by simp
qed

lemma undisturbed_take: "undisturbed J steps \<Longrightarrow> undisturbed J (take n steps)"
  by (auto simp: undisturbed_def dest: in_set_takeD)


lemma absorb_Ret: "m w = (Ret u, w') \<Longrightarrow> absorb m k w = k w'"
  by (simp add: absorb_def)

lemma orch_run_wired:
  "orch_run (wire_orchestrator des iss prov interval trig elector) steps =
     absorb (Reconcile des iss prov)
       (run_loop iss prov (if 0 < interval then Some (Reconcile des iss prov) else None) (trig \<noteq> None) steps)"
  by (simp add: orch_run_def wire_orchestrator_def orch_New_def WithReconciler_def WithTrigger_def
      WithLeaderElection_def cycle_of_def cong: if_cong)

lemma main_run_no_api: "orch_run o1 steps w = (r, w') \<Longrightarrow> main_run o1 steps None w = (map_option exit_status r, w')"
  by (simp add: main_run_def)


end
