(* ===== verification/IngressInterference.thy ===== *)
theory IngressInterference
  imports IngressInvariants
begin

text \<open>
  The Ingress provisioner while others write to the same cluster: another leader, or a cycle of the
  previous term that \<open>run\<close> has not waited for. Between two requests of one operation the requests
  of the others are served, and a request or its answer can get lost. What the operations
  still keep is proved once, for any API server whose calls keep an invariant, and holds of the
  server shared with such others.
\<close>

section \<open>Requests that carry good rules\<close>

text \<open>
  \<open>rules_ok R T\<close>: an Ingress with rules, all of them in \<open>R\<close>, and TLS entries in \<open>T\<close>. It is
  \<open>bucket_ok\<close> without the capacity, which is out of reach here: two writers that both saw the
  last free place both fill it.
\<close>

definition contents_ok :: "(IngressRule \<Rightarrow> bool) \<Rightarrow> (IngressTLS \<Rightarrow> bool) \<Rightarrow> IngressRule list \<Rightarrow> IngressTLS list \<Rightarrow> bool" where
  "contents_ok R T rs ts \<longleftrightarrow> list_all R rs \<and> list_all T ts"

definition rules_ok :: "(IngressRule \<Rightarrow> bool) \<Rightarrow> (IngressTLS \<Rightarrow> bool) \<Rightarrow> Ingress \<Rightarrow> bool" where
  "rules_ok R T ing \<longleftrightarrow> ig_Rules ing \<noteq> [] \<and> contents_ok R T (ig_Rules ing) (ig_TLS ing)"

datatype request =
    ReqCreate Ingress
  | ReqDelete string
  | ReqPatch string "jsonPatch list"

fun good_value :: "(IngressRule \<Rightarrow> bool) \<Rightarrow> (IngressTLS \<Rightarrow> bool) \<Rightarrow> patch_value \<Rightarrow> bool" where
  "good_value R T PNone = True"
| "good_value R T (PRule r) = R r"
| "good_value R T (PTLS t) = T t"
| "good_value R T (PRules rs) = list_all R rs"
| "good_value R T (PTLSs ts) = list_all T ts"

definition good_ops :: "(IngressRule \<Rightarrow> bool) \<Rightarrow> (IngressTLS \<Rightarrow> bool) \<Rightarrow> jsonPatch list \<Rightarrow> bool" where
  "good_ops R T ps \<longleftrightarrow> list_all (\<lambda>op. good_value R T (jp_Value op)) ps"

text \<open>A good request: whatever it adds to an Ingress of the selector is in \<open>R\<close> and \<open>T\<close>.\<close>

fun good_request :: "(IngressRule \<Rightarrow> bool) \<Rightarrow> (IngressTLS \<Rightarrow> bool) \<Rightarrow> string \<Rightarrow> request \<Rightarrow> bool" where
  "good_request R T sel (ReqCreate ing) = (selects sel ing \<longrightarrow> contents_ok R T (ig_Rules ing) (ig_TLS ing))"
| "good_request R T sel (ReqDelete n) = True"
| "good_request R T sel (ReqPatch n ps) = good_ops R T ps"

fun doc_ok :: "(IngressRule \<Rightarrow> bool) \<Rightarrow> (IngressTLS \<Rightarrow> bool) \<Rightarrow> spec_doc \<Rightarrow> bool" where
  "doc_ok R T (rs, ts) = contents_ok R T (list_of_member rs) (list_of_member ts)"

lemma list_all_parts [simp]:
  "list_all P xs \<Longrightarrow> list_all P (take i xs)" "list_all P xs \<Longrightarrow> list_all P (drop i xs)"
  "list_all P xs \<Longrightarrow> P x \<Longrightarrow> list_all P (xs[i := x])"
  using set_take_subset [of i xs] set_drop_subset [of i xs] set_update_subset_insert [of xs i x]
  by (auto simp: list_all_iff)

lemma member_op_all:
  "member_add q x m = Some m' \<Longrightarrow> list_all P (list_of_member m) \<Longrightarrow> P x \<Longrightarrow> list_all P (list_of_member m')"
  "member_remove q m = Some m' \<Longrightarrow> list_all P (list_of_member m) \<Longrightarrow> list_all P (list_of_member m')"
  "member_replace q x m = Some m' \<Longrightarrow> list_all P (list_of_member m) \<Longrightarrow> P x \<Longrightarrow> list_all P (list_of_member m')"
  "member_replace_all ys m = Some m' \<Longrightarrow> list_all P ys \<Longrightarrow> list_all P (list_of_member m')"
proof -
  show "member_add q x m = Some m' \<Longrightarrow> list_all P (list_of_member m) \<Longrightarrow> P x \<Longrightarrow> list_all P (list_of_member m')"
    by (cases "(q, x, m)" rule: member_add.cases)
      (auto split: if_splits)
  show "member_remove q m = Some m' \<Longrightarrow> list_all P (list_of_member m) \<Longrightarrow> list_all P (list_of_member m')"
    by (cases "(q, m)" rule: member_remove.cases)
      (auto split: if_splits)
  show "member_replace q x m = Some m' \<Longrightarrow> list_all P (list_of_member m) \<Longrightarrow> P x \<Longrightarrow> list_all P (list_of_member m')"
    by (cases "(q, x, m)" rule: member_replace.cases)
      (auto split: if_splits)
  show "member_replace_all ys m = Some m' \<Longrightarrow> list_all P ys \<Longrightarrow> list_all P (list_of_member m')"
    by (cases m) (auto split: if_splits)
qed

lemma patch_op_ok:
  assumes "apply_patch_op op d = Some d'" "doc_ok R T d" "good_value R T (jp_Value op)"
  shows "doc_ok R T d'"
  using assms
  by (cases d) (auto simp: apply_patch_op_def Let_def contents_ok_def
      split: if_splits option.splits patch_value.splits ptr.splits dest: member_op_all)

lemma patch_ops_ok:
  "apply_patch_ops ps d = Some d' \<Longrightarrow> doc_ok R T d \<Longrightarrow> good_ops R T ps \<Longrightarrow> doc_ok R T d'"
  by (induction ps arbitrary: d) (auto simp: good_ops_def bind_eq_Some_conv dest: patch_op_ok)

lemma patched_ok:
  assumes "patched ps ing = Some ing'" "rules_ok R T ing" "good_ops R T ps"
  shows "rules_ok R T ing'"
proof -
  from assms(1) obtain rs ts where d: "apply_patch_ops ps (member_of_list (ig_Rules ing), member_of_list (ig_TLS ing)) = Some (rs, ts)"
    "ing' = ing\<lparr>ig_Rules := list_of_member rs, ig_TLS := list_of_member ts\<rparr>" "ig_Rules ing' \<noteq> []"
    by (auto simp: patched_def apply_patch_def split: option.splits if_splits)
  have "doc_ok R T (member_of_list (ig_Rules ing), member_of_list (ig_TLS ing))"
    using assms(2) by (simp add: rules_ok_def member_of_list_def contents_ok_def)
  from patch_ops_ok [OF d(1) this assms(3)] d(2,3) show ?thesis by (simp add: rules_ok_def)
qed

section \<open>The operations\<close>

text \<open>
  Any API server whose calls keep \<open>J\<close>, whatever they answer, as long as they carry rules in \<open>R\<close> and
  TLS entries in \<open>T\<close>, and which lists only such.
\<close>

locale shared_ingresses = bucket_law m R T for m R T +
  fixes p :: "'w IngressProvisioner" and J :: "'w \<Rightarrow> bool"
  assumes mapper: "J w \<Longrightarrow> ing_mapper p = m"
    and room: "J w \<Longrightarrow> 0 < ic_maxRoutesPerIngress (ing_cfg p)"
    and listed: "safe J (\<lambda>ings. \<forall>ing \<in> set ings. rules_ok R T ing)
      (ext (ka_List (ing_api p) (ic_namespace (ing_cfg p)) (labelSelector p)))"
    and created: "contents_ok R T rules ts \<Longrightarrow>
      safe J (\<lambda>_. True) (ext (ka_Create (ing_api p) (ic_namespace (ing_cfg p)) (new_ingress p k rules ts)))"
    and deleted: "safe J (\<lambda>_. True) (ext (ka_Delete (ing_api p) (ic_namespace (ing_cfg p)) n))"
    and sent_patch: "good_ops R T ps \<Longrightarrow> safe J (\<lambda>_. True) (ext (ka_Patch (ing_api p) (ic_namespace (ing_cfg p)) n ps))"
begin

lemma safe_listManaged: "safe J (\<lambda>ings. \<forall>ing \<in> set ings. rules_ok R T ing) (listManagedIngresses p)"
  unfolding listManagedIngresses_def by (rule safe_wrapr [OF listed]) (rule safe_ret)

lemma safe_create: "contents_ok R T rules ts \<Longrightarrow> safe J (\<lambda>_. True) (createIngressWithRules p k rules ts)"
  unfolding createIngressWithRules_def by (rule safe_wrapr [OF created]) (auto intro: safe_ret)

lemma safe_delete: "safe J (\<lambda>_. True) (deleteIngress p n)"
  unfolding deleteIngress_def by (rule safe_attempt [OF deleted]) (auto intro: safe_intros)

lemma safe_patch: "good_ops R T ps \<Longrightarrow> safe J (\<lambda>_. True) (applyJSONPatch p n ps)"
  unfolding applyJSONPatch_def by (rule sent_patch)

lemma safe_patch_then: "good_ops R T ps \<Longrightarrow> safe J (\<lambda>_. True) (wrapr s (applyJSONPatch p n ps) (\<lambda>u. ret (f u)))"
  by (rule safe_wrapr [OF safe_patch]) (auto intro: safe_ret)

lemma safe_place:
  assumes "R rule" "\<And>t. tls = Some t \<Longrightarrow> T t"
  shows "safe J (\<lambda>_. True) (ing_place p req cert rule tls ings)"
proof -
  have upd: "good_ops R T (update_patch ing j rule tls)" for ing j
    using assms by (auto simp: good_ops_def update_patch_def add_tls_def split: option.split)
  have add: "good_ops R T (add_rule rule # (case tls of None \<Rightarrow> [] | Some t \<Rightarrow> [add_tls t]))"
    using assms by (auto simp: good_ops_def add_rule_def add_tls_def split: option.split)
  have new: "contents_ok R T [rule] (case tls of None \<Rightarrow> [] | Some t \<Rightarrow> [t])"
    using assms by (auto simp: contents_ok_def split: option.split)
  have create: "safe J (\<lambda>_. True) (bindr (createIngressWithRules p k [rule] (case tls of None \<Rightarrow> [] | Some t \<Rightarrow> [t])) (\<lambda>c. ret (f c)))"
    for k and f :: "Ingress \<Rightarrow> ProvisionedRoute option"
    by (rule safe_bindr [OF safe_create [OF new]]) (simp add: safe_ret)
  show ?thesis
  proof (cases "find_route (im_ExtractRouteID (ing_mapper p)) (im_RouteID (ing_mapper p) req) ings")
    case (Some found)
    then show ?thesis
      using safe_patch_then [OF upd] by (cases found) (simp add: ing_place_def updateRule_def)
  next
    case None
    then show ?thesis
      using safe_patch_then [OF add] create
      by (cases "findWithCapacity p ings") (simp_all add: ing_place_def Let_def patchAddRule_def)
  qed
qed

lemma safe_when: "(\<And>w. J w \<Longrightarrow> A) \<Longrightarrow> (A \<Longrightarrow> safe J Q f) \<Longrightarrow> safe J Q f"
  unfolding safe_def by blast

lemma shared_Provision: "safe J (\<lambda>_. True) (ing_Provision p req cert)"
proof (rule safe_when [OF mapper])
  assume m: "ing_mapper p = m"
  show "safe J (\<lambda>_. True) (ing_Provision p req cert)"
    unfolding ing_Provision_def m
    by (auto split: sum.split intro!: safe_fail safe_bindr [OF safe_listManaged] safe_place intro: mapped_rule map_tls_law)
qed

lemma shared_Deprovision: "safe J (\<lambda>_. True) (ing_Deprovision p i)"
proof -
  have "good_ops R T (remove_patch ing j)" for ing j
    by (simp add: good_ops_def remove_patch_def split: option.split)
  then have "safe J (\<lambda>_. True) (wrapr s (patchRemoveRule p ing j) ret)" for s ing j
    unfolding patchRemoveRule_patch by (rule safe_patch_then)
  then show ?thesis
    unfolding ing_Deprovision_def
    by (auto split: option.split intro!: safe_bindr [OF safe_listManaged] safe_ret safe_delete)
qed

lemma shared_List: "safe J (\<lambda>_. True) (ing_List p)"
  unfolding ing_List_def by (rule safe_bindr [OF safe_listManaged]) (auto intro: safe_ret)

lemma safe_prune:
  assumes "rules_ok R T ing"
  shows "safe J (\<lambda>_. True) (prune p ids ing)"
proof -
  have "list_all T (keep_tls hs (ig_TLS ing))" for hs
    using assms fewer_hosts by (auto simp: keep_tls_def rules_ok_def contents_ok_def list_all_iff)
  then have "good_ops R T (replace_patch (filter f (ig_Rules ing)) (keep_tls hs (ig_TLS ing)))" for f hs
    using assms by (auto simp: good_ops_def replace_patch_def rules_ok_def contents_ok_def list_all_iff)
  then show ?thesis
    by (auto simp: prune_def Let_def patchReplaceSpec_patch intro!: safe_ret safe_delete safe_patch_then)
qed

lemma shared_BatchDeprovision: "safe J (\<lambda>_. True) (ing_BatchDeprovision p ids)"
proof -
  have "\<forall>ing \<in> set ings. rules_ok R T ing \<Longrightarrow> safe J (\<lambda>_. True) (prune_all p js ings)" for js ings
    by (induction ings) (auto intro!: safe_ret safe_bindr [OF safe_prune])
  then show ?thesis unfolding ing_BatchDeprovision_def by (rule safe_bindr [OF safe_listManaged])
qed

text \<open>The routes of a batch, and the two loops of \<open>BatchProvision\<close> over them.\<close>

definition mapped_good :: "mappedRoute \<Rightarrow> bool" where
  "mapped_good mr \<longleftrightarrow> R (mr_rule mr) \<and> (\<forall>t. mr_tls mr = Some t \<longrightarrow> T t)"

lemma mapped_good_contents:
  "list_all mapped_good rs \<Longrightarrow> contents_ok R T (map mr_rule rs) (tls_entries rs)"
  by (induction rs) (auto simp: contents_ok_def tls_entries_def map_filter_simps mapped_good_def split: option.split)

lemma map_routes_good:
  "map_routes m reqs mapped = Inr mapped' \<Longrightarrow> list_all mapped_good mapped \<Longrightarrow> list_all mapped_good mapped'"
proof (induction reqs arbitrary: mapped)
  case (Cons req reqs)
  then obtain rule tls where "im_MapRule m req = Inr rule" "map_tls_of m req = Inr tls"
    "map_routes m reqs (mapped @ [\<lparr>mr_req = req, mr_rule = rule, mr_tls = tls\<rparr>]) = Inr mapped'"
    by (auto split: sum.splits)
  note step = this
  have "mapped_good \<lparr>mr_req = req, mr_rule = rule, mr_tls = tls\<rparr>"
    using mapped_rule [OF step(1)] map_tls_law [OF step(2)] by (simp add: mapped_good_def)
  with Cons.IH [OF step(3)] Cons.prems(2) show ?case by simp
qed simp

definition batches_good :: "batch list \<Rightarrow> bool" where
  "batches_good bs \<longleftrightarrow> list_all (\<lambda>b. list_all mapped_good (b_routes b)) bs"

lemma go_slice_good: "list_all mapped_good rs \<Longrightarrow> list_all mapped_good (go_slice rs i j)"
  by (simp add: go_slice_def)

lemma fill_existing_good:
  "fill_existing k mapped ings cursor bs = (c, bs') \<Longrightarrow> list_all mapped_good mapped \<Longrightarrow> batches_good bs \<Longrightarrow> batches_good bs'"
  by (induction k mapped ings cursor bs rule: fill_existing.induct)
    (auto simp: Let_def batches_good_def go_slice_good split: if_splits)

lemma create_overflow_good:
  assumes "J w" "list_all mapped_good mapped" "batches_good bs"
  shows "\<exists>x w'. create_overflow p mapped cursor k bs w = Some (x, w') \<and> J w' \<and> (\<forall>s. x \<noteq> Panic s) \<and>
    (\<forall>bs'. x = Ret bs' \<longrightarrow> batches_good bs')"
  using assms
proof (induction "length mapped - cursor" arbitrary: cursor k bs w rule: less_induct)
  case less
  show ?case
  proof (cases "cursor < length mapped")
    case False
    with less.prems show ?thesis by (subst create_overflow.simps) simp
  next
    case True
    let ?stop = "min (int cursor + ic_maxRoutesPerIngress (ing_cfg p)) (int (length mapped))"
    have adv: "length mapped - nat ?stop < length mapped - cursor" "\<not> ?stop < int cursor"
      using True room [OF less.prems(1)] by auto
    let ?rs = "go_slice mapped cursor (nat ?stop)"
    have rs: "list_all mapped_good ?rs" by (rule go_slice_good [OF less.prems(2)])
    obtain x v where run: "createIngressWithRules p k (map mr_rule ?rs) (tls_entries ?rs) w = (x, v)" by fastforce
    note s = safeD [OF safe_create [OF mapped_good_contents [OF rs]] less.prems(1) run]
    show ?thesis
    proof (cases x)
      case (Ret ing)
      have "batches_good (bs @ [\<lparr>b_ingressName = ig_Name ing, b_routes = ?rs, b_needsPatch = False\<rparr>])"
        using less.prems(3) rs by (simp add: batches_good_def)
      from less.hyps [OF adv(1) s(1) less.prems(2) this] show ?thesis
        using True adv(2) run Ret by (subst create_overflow.simps) (simp add: Let_def)
    next
      case (Fail e)
      with True adv(2) run s(1) show ?thesis by (subst create_overflow.simps) (simp add: Let_def)
    next
      case (Panic z)
      with s(2) show ?thesis by blast
    qed
  qed
qed

lemma safe_apply_batches: "batches_good bs \<Longrightarrow> safe J (\<lambda>_. True) (apply_batches p certs bs results)"
proof (induction bs arbitrary: results)
  case (Cons b bs)
  have "contents_ok R T (map mr_rule (b_routes b)) (tls_entries (b_routes b))"
    using Cons.prems by (intro mapped_good_contents) (simp add: batches_good_def)
  then have "good_ops R T (map add_rule (map mr_rule (b_routes b)) @ map add_tls (tls_entries (b_routes b)))"
    by (auto simp: good_ops_def contents_ok_def list_all_iff add_rule_def add_tls_def)
  then have "safe J (\<lambda>_. True) (patchAddRules p (b_ingressName b) (map mr_rule (b_routes b)) (tls_entries (b_routes b)))"
    unfolding patchAddRules_def by (rule safe_patch)
  with Cons show ?case by (auto simp: batches_good_def intro: safe_wrapr)
qed (simp add: safe_ret)

lemma shared_BatchProvision: "safe J (\<lambda>_. True) (ing_BatchProvision p reqs certs)"
proof (rule safeI)
  fix w x w' assume J: "J w" and run: "ing_BatchProvision p reqs certs w = (x, w')"
  show "J w' \<and> (\<forall>s. x \<noteq> Panic s) \<and> (\<forall>v. x = Ret v \<longrightarrow> True)"
  proof (cases "map_routes (ing_mapper p) reqs []")
    case (Inl e)
    with J run show ?thesis by (auto simp: ing_BatchProvision_def ing_BatchProvision_run_def)
  next
    case (Inr mapped)
    have good: "list_all mapped_good mapped"
      using map_routes_good [of reqs "[]" mapped] Inr mapper [OF J] by simp
    obtain y w1 where l: "listManagedIngresses p w = (y, w1)" by fastforce
    note s = safeD [OF safe_listManaged J l]
    show ?thesis
    proof (cases y)
      case (Ret listed)
      obtain c bs where fill: "fill_existing (ic_maxRoutesPerIngress (ing_cfg p)) mapped
          (sort_key (\<lambda>i. length (ig_Rules i)) listed) 0 [] = (c, bs)" by fastforce
      have "batches_good bs" using fill_existing_good [OF fill good] by (simp add: batches_good_def)
      from create_overflow_good [OF s(1) good this] obtain z w2 where
        over: "create_overflow p mapped c (length listed) bs w1 = Some (z, w2)" "J w2" "\<forall>s. z \<noteq> Panic s"
          "\<forall>bs'. z = Ret bs' \<longrightarrow> batches_good bs'" by blast
      show ?thesis
      proof (cases z)
        case (Ret bs')
        with Inr l \<open>y = Ret listed\<close> fill over(1) run have "apply_batches p certs bs' [] w2 = (x, w')"
          by (simp add: ing_BatchProvision_def ing_BatchProvision_run_def)
        with safeD [OF safe_apply_batches over(2) this] over(4) Ret show ?thesis by blast
      qed (use Inr l Ret fill over run in \<open>auto simp: ing_BatchProvision_def ing_BatchProvision_run_def\<close>)
    next
      case (Fail e)
      with Inr l s(1) run show ?thesis by (auto simp: ing_BatchProvision_def ing_BatchProvision_run_def)
    next
      case (Panic z)
      with s(2) show ?thesis by blast
    qed
  qed
qed

end

section \<open>A server shared with others\<close>

text \<open>
  Before each request of this process the requests \<open>reqs\<close> of others are served. Then its own is
  served and answered, gets lost on the way there, or is served and only the answer gets lost. The
  world is the cluster, the turns to come and the requests this process has sent. When the turns
  are used up, nobody else writes.
\<close>

datatype fate = Answered | Lost gerror | Unanswered gerror

type_synonym turn = "request list \<times> fate"

fun send :: "'w kube_api \<Rightarrow> string \<Rightarrow> request \<Rightarrow> 'w \<Rightarrow> 'w" where
  "send api ns (ReqCreate ing) w = snd (ka_Create api ns ing w)"
| "send api ns (ReqDelete n) w = snd (ka_Delete api ns n w)"
| "send api ns (ReqPatch n ps) w = snd (ka_Patch api ns n ps w)"

fun in_turn ::
  "'w kube_api \<Rightarrow> string \<Rightarrow> request list \<Rightarrow> ('w, 'a) svc \<Rightarrow> ('w \<times> turn list \<times> request list, 'a) svc" where
  "in_turn api ns own call (w, [], sent) = (case call w of (x, w') \<Rightarrow> (x, w', [], sent @ own))"
| "in_turn api ns own call (w, (reqs, fate) # turns, sent) =
     (case call (fold (send api ns) reqs w) of
        (x, w') \<Rightarrow> (case fate of
            Answered \<Rightarrow> (x, w', turns, sent @ own)
          | Lost e \<Rightarrow> (Inl e, fold (send api ns) reqs w, turns, sent @ own)
          | Unanswered e \<Rightarrow> (Inl e, w', turns, sent @ own)))"

definition shared_api :: "'w kube_api \<Rightarrow> ('w \<times> turn list \<times> request list) kube_api" where
  "shared_api api = \<lparr>ka_List = (\<lambda>ns sel. in_turn api ns [] (ka_List api ns sel)),
     ka_Create = (\<lambda>ns ing. in_turn api ns [ReqCreate ing] (ka_Create api ns ing)),
     ka_Delete = (\<lambda>ns n. in_turn api ns [ReqDelete n] (ka_Delete api ns n)),
     ka_Patch = (\<lambda>ns n ps. in_turn api ns [ReqPatch n ps] (ka_Patch api ns n ps))\<rparr>"

definition among_others :: "'w IngressProvisioner \<Rightarrow> ('w \<times> turn list \<times> request list) IngressProvisioner" where
  "among_others p = \<lparr>ing_api = shared_api (ing_api p), ing_mapper = ing_mapper p, ing_cfg = ing_cfg p\<rparr>"

lemma among_others_simps [simp]:
  "ing_api (among_others p) = shared_api (ing_api p)" "ing_mapper (among_others p) = ing_mapper p"
  "ing_cfg (among_others p) = ing_cfg p" "labelSelector (among_others p) = labelSelector p"
  "new_ingress (among_others p) k rules ts = new_ingress p k rules ts"
  by (simp_all add: among_others_def labelSelector_def new_ingress_def)

definition good_turns :: "(request \<Rightarrow> bool) \<Rightarrow> turn list \<Rightarrow> bool" where
  "good_turns good turns \<longleftrightarrow> list_all (\<lambda>(reqs, fate). list_all good reqs) turns"

text \<open>The managed Ingresses are \<open>rules_ok\<close> in a documented cluster.\<close>

definition contents_inv ::
  "'w IngressProvisioner \<Rightarrow> (IngressRule \<Rightarrow> bool) \<Rightarrow> (IngressTLS \<Rightarrow> bool) \<Rightarrow> ('w \<Rightarrow> Ingress list) \<Rightarrow> 'w \<Rightarrow> bool" where
  "contents_inv p R T objs w \<longleftrightarrow> cluster_ok p objs w \<and> (\<forall>ing \<in> set (managed p objs w). rules_ok R T ing)"

lemma create_keeps_contents:
  assumes "contents_inv p R T objs w" "ka_Create (ing_api p) (ic_namespace (ing_cfg p)) ing w = (x, w')"
    and "selects (labelSelector p) ing \<longrightarrow> contents_ok R T (ig_Rules ing) (ig_TLS ing)"
  shows "contents_inv p R T objs w'"
proof -
  note ok = cluster_okD [OF assms(1) [unfolded contents_inv_def, THEN conjunct1]]
  show ?thesis
  proof (cases x)
    case (Inl e)
    with kube_Create_refused [OF ok(1)] assms(1,2) show ?thesis by metis
  next
    case (Inr created)
    with assms(2) have "ka_Create (ing_api p) (ic_namespace (ing_cfg p)) ing w = (Inr created, w')" by simp
    from kube_Create_Ret [OF ok(1) this] obtain xs ys where c: "objs w = xs @ ys" "objs w' = xs @ ing # ys"
      "ig_Rules ing \<noteq> []" "ig_Name ing \<notin> kube_names objs w" by metis
    have "kube_wf objs w'" using ok(2) c by (auto simp: kube_wf_def kube_names_def)
    with assms(1,3) c show ?thesis by (auto simp: contents_inv_def cluster_ok_def managed_def rules_ok_def)
  qed
qed

lemma delete_keeps_contents:
  assumes "contents_inv p R T objs w" "ka_Delete (ing_api p) (ic_namespace (ing_cfg p)) n w = (x, w')"
  shows "contents_inv p R T objs w'"
proof -
  note ok = cluster_okD [OF assms(1) [unfolded contents_inv_def, THEN conjunct1]]
  have d: "kube_delete_ok (ing_api p) (ic_namespace (ing_cfg p)) objs" using ok(1) by (rule kube_okD)
  show ?thesis
  proof (cases "n \<in> kube_names objs w")
    case False
    with d assms show ?thesis by (simp add: kube_delete_ok_def)
  next
    case True
    from kube_Delete_Ret [OF ok(1) this] assms(2) have "objs w' = filter (\<lambda>i. ig_Name i \<noteq> n) (objs w)" by (metis prod.inject)
    with assms(1) ok(2) show ?thesis
      by (auto simp: contents_inv_def cluster_ok_def managed_def kube_wf_def distinct_map_filter)
  qed
qed

lemma patch_keeps_contents:
  assumes "contents_inv p R T objs w" "ka_Patch (ing_api p) (ic_namespace (ing_cfg p)) n ps w = (x, w')"
    and good: "good_ops R T ps"
  shows "contents_inv p R T objs w'"
proof -
  note ok = cluster_okD [OF assms(1) [unfolded contents_inv_def, THEN conjunct1]]
  have d: "kube_patch_ok (ing_api p) (ic_namespace (ing_cfg p)) objs" using ok(1) by (rule kube_okD)
  show ?thesis
  proof (cases "n \<in> kube_names objs w")
    case False
    with d assms(1,2) show ?thesis by (simp add: kube_patch_ok_def)
  next
    case True
    then obtain ing where ing: "ing \<in> set (objs w)" "n = ig_Name ing" by (auto simp: kube_names_def)
    show ?thesis
    proof (cases "patched ps ing")
      case None
      with kube_Patch_cases [OF ok(1,2) ing(1), of ps] assms(1,2) ing(2) show ?thesis by auto
    next
      case (Some ing')
      with kube_Patch_cases [OF ok(1,2) ing(1), of ps] assms(2) ing(2)
      have objs': "objs w' = map (\<lambda>i. if ig_Name i = ig_Name ing then ing' else i) (objs w)" by auto
      note same = patched_name [OF Some]
      have "map ig_Name (objs w') = map ig_Name (objs w)" using same objs' by auto
      then have "kube_wf objs w'" using ok(2) by (simp add: kube_wf_def)
      moreover have "rules_ok R T ing'" if "selects (labelSelector p) ing'"
      proof -
        have "ing \<in> set (managed p objs w)" using that same ing(1) by (simp add: managed_def selects_def)
        with assms(1) patched_ok [OF Some _ good] show ?thesis by (simp add: contents_inv_def)
      qed
      ultimately show ?thesis
        using assms(1) objs' by (auto simp: contents_inv_def cluster_ok_def managed_def)
    qed
  qed
qed

lemma send_keeps_contents:
  assumes "contents_inv p R T objs w" "good_request R T (labelSelector p) req"
  shows "contents_inv p R T objs (send (ing_api p) (ic_namespace (ing_cfg p)) req w)"
  using assms
  by (cases req) (auto intro: create_keeps_contents delete_keeps_contents patch_keeps_contents surjective_pairing)

lemma sends_keep_contents:
  "contents_inv p R T objs w \<Longrightarrow> list_all (good_request R T (labelSelector p)) reqs \<Longrightarrow>
   contents_inv p R T objs (fold (send (ing_api p) (ic_namespace (ing_cfg p))) reqs w)"
  by (induction reqs arbitrary: w) (simp_all add: send_keeps_contents)

text \<open>
  What holds among others that send good requests only: the invariant, and this process sends good
  requests only, too.
\<close>

definition shared_inv ::
  "'w IngressProvisioner \<Rightarrow> AppIngressMapper \<Rightarrow> ('w \<Rightarrow> Ingress list) \<Rightarrow> 'w \<times> turn list \<times> request list \<Rightarrow> bool" where
  "shared_inv p m objs = (\<lambda>(w, turns, sent).
     let good = good_request app_rule_ok (app_tls_ok m) (labelSelector p) in
     contents_inv p app_rule_ok (app_tls_ok m) objs w \<and> good_turns good turns \<and> list_all good sent \<and>
     0 < ic_maxRoutesPerIngress (ing_cfg p) \<and> ing_mapper p = app_mapper m)"

lemma safe_in_turn:
  assumes own: "list_all (good_request app_rule_ok (app_tls_ok m) (labelSelector p)) own"
    and call: "\<And>w x w'. contents_inv p app_rule_ok (app_tls_ok m) objs w \<Longrightarrow> call w = (x, w') \<Longrightarrow>
      contents_inv p app_rule_ok (app_tls_ok m) objs w' \<and> (\<forall>v. x = Inr v \<longrightarrow> Q v)"
  shows "safe (shared_inv p m objs) Q (ext (in_turn (ing_api p) (ic_namespace (ing_cfg p)) own call))"
proof (rule safeI)
  fix w :: "'a \<times> turn list \<times> request list" and x w'
  assume J: "shared_inv p m objs w" and run: "ext (in_turn (ing_api p) (ic_namespace (ing_cfg p)) own call) w = (x, w')"
  obtain c turns sent where w: "w = (c, turns, sent)" by (cases w)
  show "shared_inv p m objs w' \<and> (\<forall>s. x \<noteq> Panic s) \<and> (\<forall>v. x = Ret v \<longrightarrow> Q v)"
  proof (cases turns)
    case Nil
    obtain y c' where c: "call c = (y, c')" by fastforce
    with call [OF _ c] J own run w Nil show ?thesis
      by (auto simp: shared_inv_def Let_def ext_def split: sum.splits)
  next
    case (Cons turn rest)
    obtain reqs fate where turn: "turn = (reqs, fate)" by fastforce
    let ?c = "fold (send (ing_api p) (ic_namespace (ing_cfg p))) reqs c"
    have others: "contents_inv p app_rule_ok (app_tls_ok m) objs ?c"
      using J w Cons turn by (intro sends_keep_contents) (simp_all add: shared_inv_def Let_def good_turns_def)
    obtain y c' where c: "call ?c = (y, c')" by fastforce
    from call [OF others c] others J own run w Cons turn c show ?thesis
      by (cases fate) (auto simp: shared_inv_def Let_def good_turns_def ext_def split: sum.splits)
  qed
qed

interpretation shared_app: shared_ingresses "app_mapper m" app_rule_ok "app_tls_ok m" "among_others p" "shared_inv p m objs"
  for m p objs
proof
  fix w assume "shared_inv p m objs w"
  then show "ing_mapper (among_others p) = app_mapper m" "0 < ic_maxRoutesPerIngress (ing_cfg (among_others p))"
    by (auto simp: shared_inv_def Let_def split: prod.splits)
next
  show "safe (shared_inv p m objs) (\<lambda>ings. \<forall>ing \<in> set ings. rules_ok app_rule_ok (app_tls_ok m) ing)
      (ext (ka_List (ing_api (among_others p)) (ic_namespace (ing_cfg (among_others p))) (labelSelector (among_others p))))"
    by (simp add: shared_api_def, rule safe_in_turn)
      (auto simp: contents_inv_def kube_List [OF cluster_okD(1)] managed_def)
next
  fix rules ts k assume "contents_ok app_rule_ok (app_tls_ok m) rules ts"
  then show "safe (shared_inv p m objs) (\<lambda>_. True)
      (ext (ka_Create (ing_api (among_others p)) (ic_namespace (ing_cfg (among_others p))) (new_ingress (among_others p) k rules ts)))"
    by (simp add: shared_api_def, intro safe_in_turn)
      (auto simp: new_ingress_def Let_def intro: create_keeps_contents)
next
  fix n
  show "safe (shared_inv p m objs) (\<lambda>_. True) (ext (ka_Delete (ing_api (among_others p)) (ic_namespace (ing_cfg (among_others p))) n))"
    by (simp add: shared_api_def, rule safe_in_turn) (auto intro: delete_keeps_contents)
next
  fix ps n assume "good_ops app_rule_ok (app_tls_ok m) ps"
  then show "safe (shared_inv p m objs) (\<lambda>_. True) (ext (ka_Patch (ing_api (among_others p)) (ic_namespace (ing_cfg (among_others p))) n ps))"
    by (simp add: shared_api_def, intro safe_in_turn) (auto intro: patch_keeps_contents)
qed

end
