(* ===== verification/ElectedRun.thy ===== *)
theory ElectedRun
  imports ProcessRun IngressInterference
begin

text \<open>
  A run of the process with leader election: \<open>Orchestrator.Run\<close> hands \<open>run\<close> to the elector as the
  callback \<open>OnStartedLeading\<close>, so that a run of one instance is a sequence of terms of leadership.
  The other instances are not ordered with these terms: their requests to the API server, and those
  of a cycle that a previous term of this instance has left running, come between any two requests
  of this one (\<open>among_others\<close>).
\<close>

section \<open>Terms of leadership\<close>

text \<open>
  A term is given by the steps of \<open>run\<close> under its context. The error with which \<open>run\<close> returns is
  logged when that context is live, and dropped otherwise; \<open>OnStoppedLeading\<close> logs. \<open>r\<close> is what
  the elector returns after the last term, \<open>None\<close> while it waits.
\<close>

fun elected_run ::
  "('w, 't, 'l) Orchestrator \<Rightarrow> 'w run_step list list \<Rightarrow> unit res option \<Rightarrow> 'w
   \<Rightarrow> unit res option \<times> 'w" where
  "elected_run o1 [] r w = (r, w)"
| "elected_run o1 (steps # terms) r w =
     (case orch_run o1 steps w of
        (None, w') \<Rightarrow> (None, w')
      | (Some (Panic s), w') \<Rightarrow> (Some (Panic s), w')
      | (_, w') \<Rightarrow> elected_run o1 terms r w')"

text \<open>
  \<open>Run\<close>: \<open>elect le\<close> are the terms the elector \<open>le\<close> gives this instance and what its own \<open>Run\<close>
  returns; without an elector \<open>run\<close> is called directly.
\<close>

definition orch_Run ::
  "('w, 't, 'l) Orchestrator \<Rightarrow> ('l \<Rightarrow> 'w run_step list list \<times> unit res option)
   \<Rightarrow> 'w run_step list \<Rightarrow> 'w \<Rightarrow> unit res option \<times> 'w" where
  "orch_Run o1 elect steps w =
     (case og_leaderElector o1 of
        None \<Rightarrow> orch_run o1 steps w
      | Some le \<Rightarrow> (case elect le of (terms, r) \<Rightarrow> elected_run o1 terms r w))"

text \<open>
  The deferred \<open>Disconnect\<close> of the MongoDB client, if there is one (\<open>client\<close>), when \<open>Run\<close> has ended
  on the goroutine of \<open>main\<close>: it runs when \<open>main\<close> returns or panics, and not when \<open>main\<close> calls
  \<open>os.Exit\<close>; a panic of another goroutine ends the process without it.
\<close>

fun main_disconnects :: "bool \<Rightarrow> unit res \<Rightarrow> bool" where
  "main_disconnects client (Ret u) = client"
| "main_disconnects client (Fail e) = False"
| "main_disconnects client (Panic s) = client"

lemma main_disconnects_exit: "main_disconnects True r \<longleftrightarrow> exit_status r \<noteq> 1"
  by (cases r) simp_all

section \<open>What a run with leader election keeps\<close>

context safe_services
begin

lemma elected_run_safe:
  assumes o1: "og_issuer o1 = iss" "og_provisioner o1 = prov"
      "og_reconciler o1 = Some \<lparr>rc_desired = des, rc_issuer = iss, rc_provisioner = prov\<rparr>"
    and "\<forall>steps \<in> set terms. undisturbed J steps"
    and "J w" and "elected_run o1 terms r w = (r', w')"
  shows "J w' \<and> (r' = None \<or> r' = r)"
  using assms(4-6)
proof (induction terms arbitrary: w)
  case (Cons steps terms)
  obtain x v where run: "orch_run o1 steps w = (x, v)" by fastforce
  have "undisturbed J steps" using Cons.prems(1) by simp
  note one_term = orch_run_safe [OF this Cons.prems(2) o1 run]
  then consider "x = None" | "x = Some (Fail ErrCtx)" by (auto simp: up_def)
  then show ?case
  proof cases
    case 1
    with Cons.prems(3) run one_term show ?thesis by auto
  next
    case 2
    then have "elected_run o1 terms r v = (r', w')" using Cons.prems(3) run by simp
    with Cons.IH [of v] Cons.prems(1) one_term show ?thesis by auto
  qed
qed simp

end

text \<open>The Ingress provisioner among others, and the issuer and the source beside it.\<close>

lemma shared_services_safe:
  fixes p :: "'g IngressProvisioner" and iss :: "'s Issuer"
  assumes "nonnil_issuer iss" "no_panic (des_List des)"
  shows "safe_services (\<lambda>w. shared_inv p m objs (fst w)) (at_gateway (ingress_provisioner (among_others p)))
    (issuer_beside iss) (source_beside des)"
proof
  have "safe (\<lambda>_. True) (\<lambda>c. c \<noteq> None) (iss_Issue iss r)" for r
    by (rule safeI) (use nonnil_issuer.issue_nonnil [OF assms(1), of r] in fastforce)
  then show "safe (\<lambda>w. shared_inv p m objs (fst w)) (\<lambda>c. c \<noteq> None) (iss_Issue (issuer_beside iss) r)" for r
    by (simp add: lift_Issuer_def safe_beside)
  have "safe (\<lambda>_. True) (\<lambda>_. True) (des_List des)"
    by (rule safeI) (use no_panicD [OF assms(2)] in auto)
  then show "safe (\<lambda>w. shared_inv p m objs (fst w)) (\<lambda>_. True) (des_List (source_beside des))"
    by (simp add: lift_Desired_def safe_beside)
  have "safe (shared_inv p m objs) (\<lambda>q. q \<noteq> None) (ing_Provision (among_others p) req cert)" for req cert
  proof (rule safeI)
    fix w x w' assume J: "shared_inv p m objs w" and run: "ing_Provision (among_others p) req cert w = (x, w')"
    have some: "x \<noteq> Ret None" using ing_Provision_result(2) [of "among_others p" req cert w] run by simp
    show "shared_inv p m objs w' \<and> (\<forall>s. x \<noteq> Panic s) \<and> (\<forall>v. x = Ret v \<longrightarrow> v \<noteq> None)"
      using safeD(1,2) [OF shared_app.shared_Provision J run] some by auto
  qed
  then show "safe (\<lambda>w. shared_inv p m objs (fst w)) (\<lambda>q. q \<noteq> None)
      (prov_Provision (at_gateway (ingress_provisioner (among_others p))) req cert)" for req cert
    by (simp add: lift_Provisioner_def ingress_provisioner_def safe_at_fst)
qed (simp_all add: lift_Provisioner_def ingress_provisioner_def safe_at_fst shared_app.shared_Deprovision
    shared_app.shared_List shared_app.shared_BatchProvision shared_app.shared_BatchDeprovision)

interpretation http_elected: safe_services "\<lambda>w. shared_inv p m objs (fst w)"
  "at_gateway (ingress_provisioner (among_others p))" "issuer_beside (ss_issuer env cfg)"
  "source_beside (lift_Desired fst put_fst http_desired)" for p m objs env cfg
  by (rule shared_services_safe [OF ss.nonnil_issuer_axioms http_desired_no_panic])

section \<open>Properties\<close>

text \<open>
  C9: an instance runs through any number of terms of leadership while other leaders, and cycles
  that its earlier terms have left running, write to the same cluster between any two of its
  requests, and while any of its requests or their answers get lost. If what the others
  add to managed Ingresses is of the shape the application gives it, then so is all this instance
  sends, in other words it is such a neighbour itself; every managed Ingress has rules, all rules
  and TLS entries are well formed, and no term panics. The capacity is not kept
  (\<open>capacity_lost_among_others\<close>). The API server behaves as documented, the source does not panic
  and the issuer returns no nil certificate without an error.
\<close>

theorem elected_run_keeps_gateway:
  fixes p :: "'g IngressProvisioner" and iss :: "'s Issuer" and des :: "'s DesiredStateProvider"
  assumes "nonnil_issuer iss" and "no_panic (des_List des)"
    and "cluster_ok p objs w" and "0 < ic_maxRoutesPerIngress (ing_cfg p)" and "ing_mapper p = app_mapper m"
    and "\<forall>ing \<in> set (managed p objs w). rules_ok app_rule_ok (app_tls_ok m) ing"
    and "good_turns (good_request app_rule_ok (app_tls_ok m) (labelSelector p)) turns"
    and "\<forall>steps \<in> set terms. \<forall>f v. RunElse f \<in> set steps \<longrightarrow> fst (f v) = fst v"
    and "elect le = (terms, r)"
    and "orch_Run (wire_orchestrator (source_beside des) (issuer_beside iss)
      (at_gateway (ingress_provisioner (among_others p))) interval trig (Some le)) elect []
      ((w, turns, []), s) = (r', ((w', turns', sent), s'))"
  shows "list_all (good_request app_rule_ok (app_tls_ok m) (labelSelector p)) sent \<and>
    (\<forall>ing \<in> set (managed p objs w'). rules_ok app_rule_ok (app_tls_ok m) ing) \<and>
    ((\<exists>e. r' = Some (Panic e)) \<longrightarrow> r' = r)"
proof -
  let ?J = "\<lambda>v :: ('g \<times> turn list \<times> request list) \<times> 's. shared_inv p m objs (fst v)"
  let ?P = "ingress_provisioner (among_others p)"
  let ?o = "wire_orchestrator (source_beside des) (issuer_beside iss) (at_gateway ?P) interval trig (Some le)"
  have J: "?J ((w, turns, []), s)"
    using assms(3-7) by (simp add: shared_inv_def contents_inv_def Let_def)
  have env: "\<forall>steps \<in> set terms. undisturbed ?J steps" using assms(8) by (auto simp: undisturbed_def)
  have o1: "og_issuer ?o = issuer_beside iss" "og_provisioner ?o = at_gateway ?P"
    "og_reconciler ?o = Some \<lparr>rc_desired = source_beside des, rc_issuer = issuer_beside iss, rc_provisioner = at_gateway ?P\<rparr>"
    by (simp_all add: wire_orchestrator_def orch_New_def WithReconciler_def WithTrigger_def WithLeaderElection_def)
  have le: "og_leaderElector ?o = Some le"
    by (simp add: wire_orchestrator_def orch_New_def WithReconciler_def WithTrigger_def WithLeaderElection_def)
  have "elected_run ?o terms r ((w, turns, []), s) = (r', ((w', turns', sent), s'))"
    using assms(10) unfolding orch_Run_def le option.case assms(9) prod.case .
  from safe_services.elected_run_safe [OF shared_services_safe [OF assms(1,2)] o1 env J this]
  show ?thesis by (auto simp: shared_inv_def contents_inv_def Let_def)
qed

text \<open>
  A cycle has seen one free place in an Ingress of two; before its patch arrives, another leader
  has filled it.
\<close>

definition rival_turns :: "turn list" where
  "rival_turns = [([], Answered), ([], Answered), ([ReqPatch (app_IngressName 0) [add_rule (demo_rule ''c'')]], Answered)]"

lemma rival_lists:
  "listManagedIngresses (among_others demo) (os, ([], Answered) # turns, sent) =
     (Ret (filter (selects (labelSelector demo)) os), (os, turns, sent))"
  by (simp add: listManagedIngresses_def shared_api_def mem_api_def)

lemma rival_patch:
  "applyJSONPatch (among_others demo) (app_IngressName 0) [add_rule (demo_rule ''b'')]
     ([demo_ing 0 [''a''] []], [([ReqPatch (app_IngressName 0) [add_rule (demo_rule ''c'')]], Answered)], []) =
   (Ret (), ([demo_ing 0 [''a'', ''c'', ''b''] []], [], [ReqPatch (app_IngressName 0) [add_rule (demo_rule ''b'')]]))"
proof -
  have add: "mem_patch (app_IngressName 0) [add_rule (demo_rule h)] [demo_ing 0 hs []] = (Inr (), [demo_ing 0 (hs @ [h]) []])"
    if "hs \<noteq> []" for h hs
  proof -
    have "patched (map add_rule [demo_rule h] @ map add_tls []) (demo_ing 0 hs []) =
        Some (demo_ing 0 (hs @ [h]) [])"
      using that by (subst patched_add) (simp_all add: demo_ing_def new_ingress_def Let_def)
    then show ?thesis by (simp add: mem_patch_def)
  qed
  show ?thesis
    by (simp add: applyJSONPatch_def shared_api_def mem_api_def add)
qed

lemma rival_cycle:
  "Reconcile (source_beside (demo_source False)) (issuer_beside (ss_issuer demo_env ss_defaultConfig))
     (at_gateway (ingress_provisioner (among_others demo))) (([demo_ing 0 [''a''] []], rival_turns, []), ()) =
   (Ret (), (([demo_ing 0 [''a'', ''c'', ''b''] []], [], [ReqPatch (app_IngressName 0) [add_rule (demo_rule ''b'')]]), ()))"
proof -
  have "ing_List (among_others demo) ([demo_ing 0 [''a''] []], rival_turns, []) =
      (Ret (list_routes (among_others demo) [demo_ing 0 [''a''] []] []), ([demo_ing 0 [''a''] []], tl rival_turns, []))"
    by (simp add: ing_List_def rival_turns_def rival_lists)
  moreover have "\<exists>rs. ing_BatchProvision (among_others demo) [demo_route ''b'' False] Map.empty
      ([demo_ing 0 [''a''] []], tl rival_turns, []) =
      (Ret rs, ([demo_ing 0 [''a'', ''c'', ''b''] []], [], [ReqPatch (app_IngressName 0) [add_rule (demo_rule ''b'')]]))"
    by (simp add: ing_BatchProvision_def ing_BatchProvision_run_def rival_turns_def rival_lists create_overflow.simps
      go_slice_def tls_entries_def map_filter_simps patchAddRules_def rival_patch)
  ultimately show ?thesis
    by (auto simp: Reconcile_def diff_eq remove_stale_def lift_Desired_def lift_Provisioner_def
        demo_source_def ingress_provisioner_def listed_route_def Let_def)
qed

lemma capacity_lost_among_others:
  "fits demo (demo_ing 0 [''a''] [])" "\<not> fits demo (demo_ing 0 [''a'', ''c'', ''b''] [])"
  by (simp_all add: fits_def)

text \<open>The instance leads for one term with that cycle, and loses the lease.\<close>

definition demo_elect ::
  "Elector \<Rightarrow> ((Ingress list \<times> turn list \<times> request list) \<times> unit) run_step list list \<times> unit res option" where
  "demo_elect le = ([[RunCtxDone]], Some (Ret ()))"

lemma demo_elected_run:
  "orch_Run (wire_orchestrator (source_beside (demo_source False)) (issuer_beside (ss_issuer demo_env ss_defaultConfig))
     (at_gateway (ingress_provisioner (among_others demo))) 1 None (Some (KubeElector lk_defaultConfig))) demo_elect []
     (([demo_ing 0 [''a''] []], rival_turns, []), ()) =
   (Some (Ret ()), (([demo_ing 0 [''a'', ''c'', ''b''] []], [], [ReqPatch (app_IngressName 0) [add_rule (demo_rule ''b'')]]), ()))"
proof -
  let ?o = "wire_orchestrator (source_beside (demo_source False)) (issuer_beside (ss_issuer demo_env ss_defaultConfig))
     (at_gateway (ingress_provisioner (among_others demo))) 1 None (Some (KubeElector lk_defaultConfig))"
  have le: "og_leaderElector ?o = Some (KubeElector lk_defaultConfig)"
    by (simp add: wire_orchestrator_def orch_New_def WithReconciler_def WithLeaderElection_def)
  have "orch_run ?o [RunCtxDone] (([demo_ing 0 [''a''] []], rival_turns, []), ()) =
      (Some (Fail ErrCtx), (([demo_ing 0 [''a'', ''c'', ''b''] []], [], [ReqPatch (app_IngressName 0) [add_rule (demo_rule ''b'')]]), ()))"
    unfolding orch_run_wired by (subst absorb_Ret, rule rival_cycle) (simp only: run_loop.simps)
  then show ?thesis unfolding orch_Run_def le option.case demo_elect_def prod.case by simp
qed

theorem elected_run_keeps_gateway_witness:
  "orch_Run (wire_orchestrator (source_beside (demo_source False)) (issuer_beside (ss_issuer demo_env ss_defaultConfig))
     (at_gateway (ingress_provisioner (among_others demo))) 1 None (Some (KubeElector lk_defaultConfig))) demo_elect []
     (([demo_ing 0 [''a''] []], rival_turns, []), ()) =
   (Some (Ret ()), (([demo_ing 0 [''a'', ''c'', ''b''] []], [], [ReqPatch (app_IngressName 0) [add_rule (demo_rule ''b'')]]), ())) \<and>
   good_request app_rule_ok (app_tls_ok demo_app) (labelSelector demo) (ReqPatch (app_IngressName 0) [add_rule (demo_rule ''b'')]) \<and>
   rules_ok app_rule_ok (app_tls_ok demo_app) (demo_ing 0 [''a'', ''c'', ''b''] [])"
proof -
  have np: "no_panic (des_List (demo_source False))" by (simp add: demo_source_def)
  have ok: "cluster_ok demo (\<lambda>os. os) [demo_ing 0 [''a''] []]" by (simp add: demo_cluster_ok)
  have rule: "app_rule_ok (demo_rule h)" for h by (simp add: app_rule_ok_def demo_rule_def)
  have start: "\<forall>ing \<in> set (managed demo (\<lambda>os. os) [demo_ing 0 [''a''] []]). rules_ok app_rule_ok (app_tls_ok demo_app) ing"
    by (simp add: managed_def rules_ok_def contents_ok_def rule)
  have turns: "good_turns (good_request app_rule_ok (app_tls_ok demo_app) (labelSelector demo)) rival_turns"
    by (simp add: rival_turns_def good_turns_def good_ops_def add_rule_def rule)
  have cap: "0 < ic_maxRoutesPerIngress (ing_cfg demo)" by simp
  have steps: "\<forall>steps \<in> set [[RunCtxDone]]. \<forall>f v. RunElse f \<in> set steps \<longrightarrow> fst (f v) = fst v" by simp
  from elected_run_keeps_gateway [OF ss.nonnil_issuer_axioms np ok cap demo_mapper start turns steps demo_elect_def demo_elected_run]
  show ?thesis using demo_elected_run by (simp add: managed_def)
qed

end
