(* ===== verification/Boot.thy ===== *)
theory Boot
  imports Wiring
begin

text \<open>
  What a configuration asks for, part by part, against what \<open>main\<close> connects: the predicates
  below name every setting and its default, without the lists of options that the code goes
  through. A valid configuration boots, and what boots is what it asks for.
\<close>

section \<open>What the configuration asks for\<close>

text \<open>A setting, or the default when it is empty; a setting that is passed on only when it is not.\<close>

definition set_or :: "string \<Rightarrow> string \<Rightarrow> string" where
  "set_or s dflt = (if s = '''' then dflt else s)"

definition if_set :: "string \<Rightarrow> string option" where
  "if_set s = (if s = '''' then None else Some s)"

definition asked_mapper :: "('e, 'c, 'h) main_env \<Rightarrow> CollectionConfig \<Rightarrow> DocumentMapper" where
  "asked_mapper env cc = mongo_mapper (me_url env)
     \<lparr>mm_URLField = mc_URLField (cc_Mapper cc), mm_Path = mc_Path (cc_Mapper cc), mm_TLS = mc_TLS (cc_Mapper cc),
      mm_Backends = map (\<lambda>b. \<lparr>be_ServiceName = bc_ServiceName b, be_Port = bc_Port b, be_Weight = bc_Weight b\<rparr>)
        (mc_Backends (cc_Mapper cc))\<rparr>"

definition source_as_asked ::
  "('e, 'c, 'h) main_env \<Rightarrow> DatasourceConfig \<Rightarrow> Trigger \<Rightarrow> 'e main_world DesiredStateProvider \<Rightarrow> bool" where
  "source_as_asked env ds t d \<longleftrightarrow>
     (if ds_Provider ds = ''http'' then t = HttpTrigger \<and> d = lift_Desired mw_source put_source http_desired
      else \<exists>client. me_Connect env (ds_URI ds) = Inr client \<and>
        (let watched = (\<lambda>cc. MongoTrigger (ds_Database ds) (cc_Collection cc) (asked_mapper env cc) mt_defaultConfig);
             listed = (\<lambda>cc. mongo_desired (me_Find env client (ds_Database ds) (cc_Collection cc)) (asked_mapper env cc)) in
         case MongoCollections ds of
           [cc] \<Rightarrow> t = watched cc \<and> d = listed cc
         | ccs \<Rightarrow> t = CompositeTrigger (map watched ccs) \<and> d = desired_NewComposite (map listed ccs)))"

definition issuer_as_asked ::
  "('e, 'c, 'h) main_env \<Rightarrow> CertificateConfig \<Rightarrow> 'e main_world Issuer \<Rightarrow> bool" where
  "issuer_as_asked env c i \<longleftrightarrow>
     (let url = set_or (ct_DirectoryURL c) ''https://acme-v02.api.letsencrypt.org/directory'';
          account = (\<lambda>key. \<lparr>ac_directoryURL = url, ac_email = ct_Email c, ac_accountKey = Some key\<rparr>) in
      if ct_Provider c = ''none'' then i = none_issuer
      else if ct_Provider c = ''acme-http'' then
        (\<exists>key. i = lift_Issuer get_challenge put_challenge
           (ah_issuer (aa_Client (me_acme_http env) key url) (account key) (server_solver (me_Listen env))))
      else if ct_Provider c = ''acme-dns'' then
        (\<exists>key. i = ad_issuer (aa_Client (me_acme_dns env) key url) (account key) None)
      else if ct_Provider c = ''selfsigned'' then
        (\<exists>d. (if ct_Validity c = '''' then d = 365 * 24 * 3600 * second else me_ParseDuration env (ct_Validity c) = Inr d) \<and>
           i = ss_issuer (me_crypto env) \<lparr>ss_validity = d, ss_organization = set_or (ct_Organization c) ''Self-Signed''\<rparr>)
      else (\<exists>client. let address = set_or (ct_VaultAddress c) ''http://127.0.0.1:8200'' in
        me_pki env (Some address) (if_set (ct_VaultToken c)) = Inr client \<and>
        i = vault_issuer \<lparr>vi_client = client, vi_cfg = \<lparr>vi_address = address, vi_token = ct_VaultToken c,
          vi_mount = set_or (ct_VaultMount c) ''pki'', vi_role = ct_VaultRole c, vi_ttl = set_or (ct_VaultTTL c) ''720h''\<rparr>\<rparr>))"

text \<open>The configuration of the Kubernetes store, whose function also names the Secrets of the Ingresses.\<close>

definition asked_kube_store :: "CertificateStoreConfig \<Rightarrow> int \<Rightarrow> ck_config" where
  "asked_kube_store st d = \<lparr>ck_namespace = st_Namespace st, ck_secretPrefix = st_SecretPrefix st, ck_renewBefore = d,
     ck_labels = [''app.kubernetes.io/managed-by'' \<mapsto> ''route-provisioner'']\<rparr>"

definition store_as_asked ::
  "('e, 'c, 'h) main_env \<Rightarrow> CertificateStoreConfig \<Rightarrow> 'e main_world Issuer \<Rightarrow> 'e main_world Issuer \<Rightarrow> bool" where
  "store_as_asked env st inner i \<longleftrightarrow>
     (if \<not> st_Enabled st then i = inner
      else \<exists>d. me_ParseDuration env (st_RenewBefore st) = Inr d \<and>
        (if st_Provider st = ''kube'' then
           (\<exists>cs. me_NewForConfig env = Inr cs \<and> i = ck_issuer (me_time env) (kc_secrets cs) (asked_kube_store st d) inner)
         else if st_Provider st = ''file'' then i = cf_issuer (me_files env) (st_Dir st) \<lparr>cf_renewBefore = d\<rparr> inner
         else (\<exists>api. let address = set_or (st_VaultAddress st) ''http://127.0.0.1:8200'' in
           me_kv env (Some address) (if_set (st_VaultToken st)) = Inr api \<and>
           i = cv_issuer (me_time env) api \<lparr>cv_address = address, cv_token = st_VaultToken st,
             cv_mount = set_or (st_VaultMount st) ''secret'', cv_prefix = set_or (st_VaultPrefix st) ''route-tls'',
             cv_renewBefore = d\<rparr> inner)))"

definition asked_secret_name :: "('e, 'c, 'h) main_env \<Rightarrow> CertificateStoreConfig \<Rightarrow> (string \<Rightarrow> string) \<Rightarrow> bool" where
  "asked_secret_name env st f \<longleftrightarrow>
     (if st_Enabled st \<and> st_Provider st = ''kube''
      then \<exists>d. me_ParseDuration env (st_RenewBefore st) = Inr d \<and> f = secretName (asked_kube_store st d)
      else f = DefaultSecretName)"

definition gateway_as_asked :: "('e, 'c, 'h) main_env \<Rightarrow> Config \<Rightarrow> 'e main_world RouteProvisioner \<Rightarrow> bool" where
  "gateway_as_asked env cfg p \<longleftrightarrow>
     (let pc = cf_Provisioner cfg in
      if pv_Provider pc = ''netscaler'' then
        p = netscaler_provisioner
          \<lparr>ns_client = me_nitro env (if pv_InsecureSkipVerify pc then me_InsecureClient env else me_DefaultClient env)
             (pv_Endpoint pc) (pv_Username pc) (pv_Password pc), ns_mapper = netscaler_mapper\<rparr>
      else if pv_Provider pc = ''ingress'' then
        (\<exists>cs f. me_NewForConfig env = Inr cs \<and> asked_secret_name env (cf_CertificateStore cfg) f \<and>
           p = ingress_provisioner \<lparr>ing_api = kc_ingresses cs,
             ing_mapper = app_mapper \<lparr>am_SecretNameFunc = f, am_IngressClassName = pv_IngressClass pc,
               am_ExtraAnnotations = pv_Annotations pc\<rparr>,
             ing_cfg = ing_defaultConfig\<lparr>ic_namespace := pv_Namespace pc, ic_maxRoutesPerIngress := pv_MaxRoutesPerIngress pc\<rparr>\<rparr>)
      else p = lift_Provisioner mw_log put_log log_provisioner)"

definition election_as_asked :: "('e, 'c, 'h) main_env \<Rightarrow> Config \<Rightarrow> Elector option \<Rightarrow> bool" where
  "election_as_asked env cfg e \<longleftrightarrow>
     (let le = cf_LeaderElection cfg; identity = set_or (le_Identity le) (me_Hostname env) in
      if \<not> le_Enabled le then e = None
      else \<exists>d r. me_ParseDuration env (le_LeaseDuration le) = Inr d \<and> me_ParseDuration env (le_RetryInterval le) = Inr r \<and>
        (if le_Provider le = ''kube'' then
           (\<exists>k. me_ParseDuration env (le_RenewDeadline le) = Inr k \<and>
              e = Some (KubeElector \<lparr>lk_namespace = le_Namespace le, lk_leaseName = le_LeaseName le, lk_identity = identity,
                lk_leaseDuration = d, lk_renewDeadline = k, lk_retryPeriod = r\<rparr>))
         else (\<exists>client q v v'. me_LeaseCollection env client (ds_Database (cf_Datasource cfg)) ''leases'' v = (Ret q, v') \<and>
           (ds_Provider (cf_Datasource cfg) = ''mongodb'' \<longrightarrow>
              (\<exists>c. client = Some c \<and> me_Connect env (ds_URI (cf_Datasource cfg)) = Inr c)) \<and>
           e = Some (MongoElector q \<lparr>lm_leaseDuration = d div 1000000, lm_renewInterval = 5000,
             lm_retryInterval = r div 1000000, lm_identity = identity, lm_leaseName = le_LeaseName le\<rparr>))))"

section \<open>What is connected\<close>

lemma wire_source_asked:
  assumes "wire_source env ds w = (Ret (mc, Some t, d), w')"
  shows "source_as_asked env ds t d" and "ds_Provider ds = ''mongodb'' \<Longrightarrow> \<exists>c. mc = Some c \<and> me_Connect env (ds_URI ds) = Inr c"
  using assms unfolding wire_source_def source_as_asked_def
  by (auto simp: wire_collections_def Let_def asked_mapper_def wire_mapper_def mt_New_def
      split: if_splits prod.splits list.split elim!: wrapr_RetD dest!: pure_RetD)

lemma foldl_when_set: "foldl (\<lambda>c opt. opt c) c (when_set s opts) = (if s = '''' then c else foldl (\<lambda>c opt. opt c) c opts)"
  by (simp add: when_set_def)

lemma acme_New_Ret:
  "acme_New api cfg opts w = (Ret (env, c), w') \<Longrightarrow> ac_accountKey (foldl (\<lambda>c opt. opt c) cfg opts) = None \<Longrightarrow>
   \<exists>key. env = aa_Client api key (ac_directoryURL (foldl (\<lambda>c opt. opt c) cfg opts)) \<and>
     c = (foldl (\<lambda>c opt. opt c) cfg opts)\<lparr>ac_accountKey := Some key\<rparr>"
  unfolding acme_New_def Let_def by (auto elim!: wrapr_RetD)

lemma acme_http_asked:
  assumes "ah_New api solver (wire_acme_opts c) w = (Ret i, w')"
  shows "\<exists>key. i = ah_issuer (aa_Client api key (set_or (ct_DirectoryURL c) ''https://acme-v02.api.letsencrypt.org/directory''))
    \<lparr>ac_directoryURL = set_or (ct_DirectoryURL c) ''https://acme-v02.api.letsencrypt.org/directory'', ac_email = ct_Email c,
     ac_accountKey = Some key\<rparr> solver"
proof -
  let ?cfg = "foldl (\<lambda>c opt. opt c) acme_defaultConfig (wire_acme_opts c)"
  have cfg: "?cfg = \<lparr>ac_directoryURL = set_or (ct_DirectoryURL c) ''https://acme-v02.api.letsencrypt.org/directory'',
      ac_email = ct_Email c, ac_accountKey = None\<rparr>"
    by (simp add: wire_acme_opts_def foldl_when_set acme_defaultConfig_def acme_WithEmail_def acme_WithDirectoryURL_def set_or_def)
  obtain env k v where "acme_New api acme_defaultConfig (wire_acme_opts c) w = (Ret (env, k), v)" "i = ah_issuer env k solver"
    using assms unfolding ah_New_def by (auto elim!: bindr_RetD split: prod.splits)
  then show ?thesis using acme_New_Ret [of api acme_defaultConfig "wire_acme_opts c" w env k v] cfg by auto
qed

lemma acme_dns_asked:
  assumes "ad_New api solver (wire_dns_opts c) w = (Ret i, w')"
  shows "\<exists>key. i = ad_issuer (aa_Client api key (set_or (ct_DirectoryURL c) ''https://acme-v02.api.letsencrypt.org/directory''))
    \<lparr>ac_directoryURL = set_or (ct_DirectoryURL c) ''https://acme-v02.api.letsencrypt.org/directory'', ac_email = ct_Email c,
     ac_accountKey = Some key\<rparr> solver"
proof -
  let ?cfg = "foldl (\<lambda>c opt. opt c) ad_defaultConfig (wire_dns_opts c)"
  have cfg: "?cfg = \<lparr>ac_directoryURL = set_or (ct_DirectoryURL c) ''https://acme-v02.api.letsencrypt.org/directory'',
      ac_email = ct_Email c, ac_accountKey = None\<rparr>"
    by (simp add: wire_dns_opts_def foldl_when_set ad_defaultConfig_def ad_WithEmail_def ad_WithDirectoryURL_def set_or_def)
  obtain env k v where "acme_New api ad_defaultConfig (wire_dns_opts c) w = (Ret (env, k), v)" "i = ad_issuer env k solver"
    using assms unfolding ad_New_def by (auto elim!: bindr_RetD split: prod.splits)
  then show ?thesis using acme_New_Ret [of api ad_defaultConfig "wire_dns_opts c" w env k v] cfg by auto
qed

lemma selfsigned_asked:
  assumes "wire_selfsigned env c w = (Ret i, w')"
  shows "\<exists>d. (if ct_Validity c = '''' then d = 365 * 24 * 3600 * second else me_ParseDuration env (ct_Validity c) = Inr d) \<and>
    i = ss_issuer (me_crypto env) \<lparr>ss_validity = d, ss_organization = set_or (ct_Organization c) ''Self-Signed''\<rparr>"
  using assms unfolding wire_selfsigned_def Let_def
  by (auto simp: ss_New_def foldl_when_set ss_defaultConfig_def ss_WithOrganization_def ss_WithValidity_def set_or_def
      split: if_splits elim!: wrapr_RetD dest!: pure_RetD)

lemma vault_config_asked:
  "foldl (\<lambda>c opt. opt c) vi_defaultConfig
     (vi_WithRole role # when_set a [vi_WithAddress a] @ when_set k [vi_WithToken k] @ when_set m [vi_WithMount m] @
      when_set l [vi_WithTTL l]) =
   \<lparr>vi_address = set_or a ''http://127.0.0.1:8200'', vi_token = k, vi_mount = set_or m ''pki'', vi_role = role,
    vi_ttl = set_or l ''720h''\<rparr>"
  by (cases "a = ''''"; cases "k = ''''"; cases "m = ''''"; cases "l = ''''")
    (simp_all add: when_set_def vi_defaultConfig_def vi_WithRole_def vi_WithAddress_def vi_WithToken_def vi_WithMount_def
      vi_WithTTL_def set_or_def)

lemma vault_store_config_asked:
  "foldl (\<lambda>c opt. opt c) cv_defaultConfig
     (cv_WithRenewBefore d # when_set a [cv_WithAddress a] @ when_set k [cv_WithToken k] @ when_set m [cv_WithMount m] @
      when_set p [cv_WithPrefix p]) =
   \<lparr>cv_address = set_or a ''http://127.0.0.1:8200'', cv_token = k, cv_mount = set_or m ''secret'',
    cv_prefix = set_or p ''route-tls'', cv_renewBefore = d\<rparr>"
  by (cases "a = ''''"; cases "k = ''''"; cases "m = ''''"; cases "p = ''''")
    (simp_all add: when_set_def cv_defaultConfig_def cv_WithRenewBefore_def cv_WithAddress_def cv_WithToken_def cv_WithMount_def
      cv_WithPrefix_def set_or_def)

lemma set_or_nonempty [simp]: "d \<noteq> '''' \<Longrightarrow> set_or s d \<noteq> ''''"
  by (simp add: set_or_def)

lemma vi_New_asked:
  assumes "vi_New mk (vi_WithRole role # when_set a [vi_WithAddress a] @ when_set k [vi_WithToken k] @
      when_set m [vi_WithMount m] @ when_set l [vi_WithTTL l]) = Inr v"
  shows "\<exists>client. mk (Some (set_or a ''http://127.0.0.1:8200'')) (if_set k) = Inr client \<and>
    v = \<lparr>vi_client = client, vi_cfg = \<lparr>vi_address = set_or a ''http://127.0.0.1:8200'', vi_token = k,
      vi_mount = set_or m ''pki'', vi_role = role, vi_ttl = set_or l ''720h''\<rparr>\<rparr>"
  using assms unfolding vi_New_def vault_config_asked Let_def
  by (cases "k = ''''") (auto simp: if_set_def split: sum.splits)

lemma cv_New_asked:
  assumes "cv_New mk (cv_WithRenewBefore d # when_set a [cv_WithAddress a] @ when_set k [cv_WithToken k] @
      when_set m [cv_WithMount m] @ when_set p [cv_WithPrefix p]) = Inr (api, c)"
  shows "mk (Some (set_or a ''http://127.0.0.1:8200'')) (if_set k) = Inr api \<and>
    c = \<lparr>cv_address = set_or a ''http://127.0.0.1:8200'', cv_token = k, cv_mount = set_or m ''secret'',
      cv_prefix = set_or p ''route-tls'', cv_renewBefore = d\<rparr>"
  using assms unfolding cv_New_def vault_store_config_asked Let_def
  by (cases "k = ''''") (auto simp: if_set_def split: sum.splits)

lemma wire_issuer_asked:
  assumes "validate_certificate c = Inr ()" "wire_issuer env c w = (Ret i, w')"
  shows "issuer_as_asked env c i"
proof -
  consider "ct_Provider c = ''none''" | "ct_Provider c = ''acme-http''" | "ct_Provider c = ''acme-dns''"
    | "ct_Provider c = ''selfsigned''" | "ct_Provider c = ''vault''"
    using assms(1) by (auto simp: validate_certificate_def split: if_splits)
  then show ?thesis
  proof cases
    case 2
    obtain j v v' where j: "ah_New (me_acme_http env) (server_solver (me_Listen env)) (wire_acme_opts c) v = (Ret j, v')"
      "i = lift_Issuer get_challenge put_challenge j"
      using assms(2) 2 by (auto simp: wire_issuer_def on_part_def elim!: wrapr_RetD split: prod.splits)
    show ?thesis using acme_http_asked [OF j(1)] j(2) 2 by (auto simp: issuer_as_asked_def Let_def)
  next
    case 3
    obtain j v v' where j: "ad_New (me_acme_dns env) None (wire_dns_opts c) v = (Ret j, v')" "i = j"
      using assms(2) 3 by (auto simp: wire_issuer_def elim!: wrapr_RetD)
    show ?thesis using acme_dns_asked [OF j(1)] j(2) 3 by (auto simp: issuer_as_asked_def Let_def)
  next
    case 4
    then have "wire_selfsigned env c w = (Ret i, w')" using assms(2) by (simp add: wire_issuer_def)
    from selfsigned_asked [OF this] 4 show ?thesis by (simp add: issuer_as_asked_def Let_def)
  next
    case 5
    obtain v where "vi_New (me_pki env) (vi_WithRole (ct_VaultRole c) # when_set (ct_VaultAddress c) [vi_WithAddress (ct_VaultAddress c)] @
        when_set (ct_VaultToken c) [vi_WithToken (ct_VaultToken c)] @ when_set (ct_VaultMount c) [vi_WithMount (ct_VaultMount c)] @
        when_set (ct_VaultTTL c) [vi_WithTTL (ct_VaultTTL c)]) = Inr v" "i = vault_issuer v"
      using assms(2) 5 by (auto simp: wire_issuer_def elim!: wrapr_RetD dest!: pure_RetD)
    with vi_New_asked [OF this(1)] 5 show ?thesis by (auto simp: issuer_as_asked_def Let_def)
  qed (use assms(2) in \<open>simp add: wire_issuer_def issuer_as_asked_def Let_def\<close>)
qed

lemma wire_kube_asked: "wire_kube env cfg w = (Ret (Some cs), w') \<Longrightarrow> me_NewForConfig env = Inr cs"
  by (auto simp: wire_kube_def split: if_splits elim!: wrapr_RetD dest!: pure_RetD)

lemma kube_store_asked:
  "ck_New [ck_WithNamespace (st_Namespace st), ck_WithSecretPrefix (st_SecretPrefix st), ck_WithRenewBefore d] = asked_kube_store st d"
  by (simp add: ck_New_def ck_defaultConfig_def ck_WithNamespace_def ck_WithSecretPrefix_def ck_WithRenewBefore_def asked_kube_store_def)

lemma wire_store_asked:
  assumes "validate_store st = Inr ()" "wire_store env inner cs st w = (Ret (i, f), w')"
    and "\<And>k. cs = Some k \<Longrightarrow> me_NewForConfig env = Inr k"
  shows "store_as_asked env st inner i"
    and "asked_secret_name env st (case f of None \<Rightarrow> DefaultSecretName | Some g \<Rightarrow> g)"
proof -
  have "store_as_asked env st inner i \<and> asked_secret_name env st (case f of None \<Rightarrow> DefaultSecretName | Some g \<Rightarrow> g)"
  proof (cases "st_Enabled st")
    case False
    then show ?thesis using assms(2) by (simp add: wire_store_def store_as_asked_def asked_secret_name_def)
  next
    case True
    obtain d v where d: "me_ParseDuration env (st_RenewBefore st) = Inr d"
      "(if st_Provider st = ''kube'' then wire_kube_store env inner cs st d
        else if st_Provider st = ''vault'' then wire_vault_store env inner st d
        else if st_Provider st = ''file''
        then ret (cf_issuer (me_files env) (st_Dir st) (cf_New [cf_WithRenewBefore d]) inner, None)
        else ret (inner, None)) v = (Ret (i, f), w')"
      using assms(2) True by (auto simp: wire_store_def elim!: wrapr_RetD dest!: pure_RetD)
    consider "st_Provider st = ''kube''" | "st_Provider st = ''vault''" | "st_Provider st = ''file''"
      using assms(1) True by (auto simp: validate_store_def split: if_splits)
    then show ?thesis
    proof cases
      case 1
      then obtain k where "cs = Some k" "i = ck_issuer (me_time env) (kc_secrets k) (asked_kube_store st d) inner"
        "f = Some (secretName (asked_kube_store st d))"
        using d(2) by (auto simp: wire_kube_store_def Let_def kube_store_asked panic_def split: option.splits)
      with assms(3) 1 True d(1) show ?thesis by (simp add: store_as_asked_def asked_secret_name_def)
    next
      case 2
      then obtain api c where k: "cv_New (me_kv env)
          (cv_WithRenewBefore d # when_set (st_VaultAddress st) [cv_WithAddress (st_VaultAddress st)] @
           when_set (st_VaultToken st) [cv_WithToken (st_VaultToken st)] @
           when_set (st_VaultMount st) [cv_WithMount (st_VaultMount st)] @
           when_set (st_VaultPrefix st) [cv_WithPrefix (st_VaultPrefix st)]) = Inr (api, c)"
        "i = cv_issuer (me_time env) api c inner" "f = None"
        using d(2) by (auto simp: wire_vault_store_def elim!: wrapr_RetD dest!: pure_RetD split: prod.splits)
      from cv_New_asked [OF k(1)] k(2,3) 2 True d(1) show ?thesis
        by (simp add: store_as_asked_def asked_secret_name_def Let_def)
    next
      case 3
      with d True show ?thesis
        by (simp add: store_as_asked_def asked_secret_name_def cf_New_def cf_defaultConfig_def cf_WithRenewBefore_def)
    qed
  qed
  then show "store_as_asked env st inner i" "asked_secret_name env st (case f of None \<Rightarrow> DefaultSecretName | Some g \<Rightarrow> g)"
    by blast+
qed

lemma netscaler_asked:
  "wire_netscaler env pc = netscaler_provisioner
     \<lparr>ns_client = me_nitro env (if pv_InsecureSkipVerify pc then me_InsecureClient env else me_DefaultClient env)
        (pv_Endpoint pc) (pv_Username pc) (pv_Password pc), ns_mapper = netscaler_mapper\<rparr>"
  by (simp add: wire_netscaler_def ns_New_def NewNitroClient_def ns_WithEndpoint_def ns_WithCredentials_def
      ns_WithInsecureSkipVerify_def Let_def)

lemma wire_provisioner_asked:
  assumes "validate_provisioner (cf_Provisioner cfg) = Inr ()"
    and "wire_provisioner env (cf_Provisioner cfg) cs f w = (Ret p, w')"
    and "\<And>k. cs = Some k \<Longrightarrow> me_NewForConfig env = Inr k"
    and "asked_secret_name env (cf_CertificateStore cfg) (case f of None \<Rightarrow> DefaultSecretName | Some g \<Rightarrow> g)"
  shows "gateway_as_asked env cfg p"
proof -
  consider "pv_Provider (cf_Provisioner cfg) = ''netscaler''" | "pv_Provider (cf_Provisioner cfg) = ''ingress''"
    | "pv_Provider (cf_Provisioner cfg) = ''log''"
    using assms(1) by (auto simp: validate_provisioner_def split: if_splits)
  then show ?thesis
  proof cases
    case 1
    with assms(2) show ?thesis by (simp add: wire_provisioner_def gateway_as_asked_def netscaler_asked)
  next
    case 2
    with assms(2) obtain k where k: "cs = Some k"
      by (cases cs) (auto simp: wire_provisioner_def ing_New_def ing_WithNamespace_def ing_WithMaxRoutesPerIngress_def
          ing_WithKubeClient_def elim!: wrapr_RetD dest!: pure_RetD)
    with assms(2) 2 have "p = ingress_provisioner \<lparr>ing_api = kc_ingresses k,
        ing_mapper = app_mapper (wire_ingress_mapper (cf_Provisioner cfg) f),
        ing_cfg = ing_defaultConfig\<lparr>ic_namespace := pv_Namespace (cf_Provisioner cfg),
          ic_maxRoutesPerIngress := pv_MaxRoutesPerIngress (cf_Provisioner cfg)\<rparr>\<rparr>"
      by (auto simp: wire_provisioner_def ing_New_def ing_WithNamespace_def ing_WithMaxRoutesPerIngress_def
          ing_WithKubeClient_def elim!: wrapr_RetD dest!: pure_RetD)
    with assms(3,4) k 2 show ?thesis by (auto simp: gateway_as_asked_def wire_ingress_mapper_def Let_def)
  next
    case 3
    with assms(2) show ?thesis by (simp add: wire_provisioner_def gateway_as_asked_def)
  qed
qed

lemma wire_election_asked:
  assumes "validate_election (cf_LeaderElection cfg) = Inr ()" "wire_election env cfg mc w = (Ret e, w')"
    and "ds_Provider (cf_Datasource cfg) = ''mongodb'' \<Longrightarrow>
      \<exists>c. mc = Some c \<and> me_Connect env (ds_URI (cf_Datasource cfg)) = Inr c"
  shows "election_as_asked env cfg e"
proof -
  let ?le = "cf_LeaderElection cfg"
  consider "\<not> le_Enabled ?le" | "le_Enabled ?le" "le_Provider ?le = ''kube''" | "le_Enabled ?le" "le_Provider ?le = ''mongo''"
    using assms(1) by (auto simp: validate_election_def split: if_splits)
  then show ?thesis
  proof cases
    case 1
    with assms(2) show ?thesis by (simp add: wire_election_def election_as_asked_def Let_def)
  next
    case 2
    with assms(2) show ?thesis
      by (auto simp: wire_election_def wire_kube_elector_def election_as_asked_def Let_def set_or_def lk_New_def lk_defaultConfig_def
          lk_WithNamespace_def lk_WithLeaseName_def lk_WithIdentity_def lk_WithLeaseDuration_def lk_WithRenewDeadline_def
          lk_WithRetryPeriod_def elim!: wrapr_RetD dest!: pure_RetD)
  next
    case 3
    obtain q v v' d r where q: "me_LeaseCollection env mc (ds_Database (cf_Datasource cfg)) ''leases'' v = (Ret q, v')"
      "me_ParseDuration env (le_LeaseDuration ?le) = Inr d" "me_ParseDuration env (le_RetryInterval ?le) = Inr r"
      "e = Some (MongoElector q \<lparr>lm_leaseDuration = d div 1000000, lm_renewInterval = 5000, lm_retryInterval = r div 1000000,
         lm_identity = set_or (le_Identity ?le) (me_Hostname env), lm_leaseName = le_LeaseName ?le\<rparr>)"
      using assms(2) 3 unfolding wire_election_def wire_mongo_elector_def Let_def
      by (auto simp: lm_New_def lm_defaultConfig_def lm_WithLeaseName_def lm_WithIdentity_def lm_WithLeaseDuration_def
          lm_WithRetryInterval_def set_or_def elim!: wrapr_RetD bindr_RetD dest!: pure_RetD)
    with assms(3) 3 show ?thesis unfolding election_as_asked_def Let_def
      by (intro iffD2 [OF if_not_P]) (auto intro!: exI [of _ mc] exI [of _ q])
  qed
qed

lemma wire_as_asked:
  assumes "validate cfg = Inr ()" and "wire env cfg w = (Ret og, w')"
  obtains inner d k where "issuer_as_asked env (cf_Certificate cfg) inner"
    "store_as_asked env (cf_CertificateStore cfg) inner (og_issuer og)" "gateway_as_asked env cfg (og_provisioner og)"
    "\<forall>t. og_trigger og = Some t \<longrightarrow> source_as_asked env (cf_Datasource cfg) t d"
    "og_reconciler og = Some \<lparr>rc_desired = d, rc_issuer = og_issuer og, rc_provisioner = og_provisioner og\<rparr>"
    "me_ParseDuration env (rec_Interval (cf_Reconcile cfg)) = Inr k" "og_reconcileInterval og = k"
    "election_as_asked env cfg (og_leaderElector og)"
proof -
  have ok: "validate_certificate (cf_Certificate cfg) = Inr ()" "validate_store (cf_CertificateStore cfg) = Inr ()"
    "validate_provisioner (cf_Provisioner cfg) = Inr ()" "validate_election (cf_LeaderElection cfg) = Inr ()"
    using assms(1) by (simp_all add: validate_def)
  obtain mc tr d w1 where s: "wire_source env (cf_Datasource cfg) w = (Ret (mc, tr, d), w1)"
    and w1: "bindr (wire_issuer env (cf_Certificate cfg)) (\<lambda>issuer.
     bindr (wire_kube env cfg) (\<lambda>clientset.
     bindr (wire_store env issuer clientset (cf_CertificateStore cfg)) (\<lambda>(issuer, kubeSecretNameFunc).
     bindr (wire_provisioner env (cf_Provisioner cfg) clientset kubeSecretNameFunc) (\<lambda>prov.
     wrapr ''invalid reconcile interval'' (pure (me_ParseDuration env (rec_Interval (cf_Reconcile cfg)))) (\<lambda>reconcileInterval.
     bindr (wire_election env cfg mc) (\<lambda>elector.
       ret (wire_orchestrator d issuer prov reconcileInterval tr elector))))))) w1 = (Ret og, w')"
    using assms(2) unfolding wire_def by (auto elim!: bindr_RetD split: prod.splits)
  obtain inner w2 cs w3 j f w4 p w5 k w6 e where i: "wire_issuer env (cf_Certificate cfg) w1 = (Ret inner, w2)"
    and cs: "wire_kube env cfg w2 = (Ret cs, w3)"
    and j: "wire_store env inner cs (cf_CertificateStore cfg) w3 = (Ret (j, f), w4)"
    and p: "wire_provisioner env (cf_Provisioner cfg) cs f w4 = (Ret p, w5)"
    and k: "me_ParseDuration env (rec_Interval (cf_Reconcile cfg)) = Inr k"
    and e: "wire_election env cfg mc w6 = (Ret e, w')"
    and og: "og = wire_orchestrator d j p k tr e"
    using w1 by (auto elim!: bindr_RetD wrapr_RetD dest!: pure_RetD)
  have kube: "me_NewForConfig env = Inr c" if "cs = Some c" for c using wire_kube_asked cs that by blast
  have src: "\<exists>c. mc = Some c \<and> me_Connect env (ds_URI (cf_Datasource cfg)) = Inr c"
    if "ds_Provider (cf_Datasource cfg) = ''mongodb''"
    using s that by (auto simp: wire_source_def elim!: wrapr_RetD dest!: pure_RetD split: prod.splits)
  note store = wire_store_asked [OF ok(2) j kube]
  show ?thesis
  proof (rule that)
    show "issuer_as_asked env (cf_Certificate cfg) inner" by (rule wire_issuer_asked [OF ok(1) i])
    show "store_as_asked env (cf_CertificateStore cfg) inner (og_issuer og)" using store(1) og by simp
    show "gateway_as_asked env cfg (og_provisioner og)"
      using wire_provisioner_asked [OF ok(3) p kube store(2)] og by simp
    show "\<forall>t. og_trigger og = Some t \<longrightarrow> source_as_asked env (cf_Datasource cfg) t d"
      using wire_source_asked(1) [of env "cf_Datasource cfg" w mc _ d w1] s og by auto
    show "election_as_asked env cfg (og_leaderElector og)"
      using wire_election_asked [OF ok(4) e src] og by simp
  qed (use og k in simp_all)
qed

section \<open>Property\<close>

text \<open>
  C23: a configuration that is loaded boots when every service answers and every duration
  parses, unless it elects a leader through MongoDB beside the HTTP datasource. What boots is what
  the configuration asks for, setting by setting: the issuer, behind the store if one is enabled, and
  the gateway, shared with the reconciler; the trigger and the desired state of the datasource; a
  reconciliation at the interval; and the elector, exactly when an election is enabled.
\<close>

theorem valid_configuration_boots:
  assumes "Load vp (ConfigPath Getenv flag) = Inr cfg" and "services_up env cfg" and "\<not> election_without_client cfg"
  shows "\<exists>og w' inner t d interval. boot vp Getenv env flag w = (Ret og, w') \<and>
    issuer_as_asked env (cf_Certificate cfg) inner \<and>
    store_as_asked env (cf_CertificateStore cfg) inner (og_issuer og) \<and>
    gateway_as_asked env cfg (og_provisioner og) \<and>
    og_trigger og = Some t \<and> source_as_asked env (cf_Datasource cfg) t d \<and>
    og_reconciler og = Some \<lparr>rc_desired = d, rc_issuer = og_issuer og, rc_provisioner = og_provisioner og\<rparr> \<and>
    me_ParseDuration env (rec_Interval (cf_Reconcile cfg)) = Inr interval \<and> og_reconcileInterval og = interval \<and>
    election_as_asked env cfg (og_leaderElector og)"
proof -
  note valid = Load_valid [OF assms(1)]
  obtain d i p k t e w' where run: "wire env cfg w = (Ret (wire_orchestrator d i p k (Some t) e), w')"
    by (rule wire_runs [OF valid assms(2,3), of w])
  obtain inner d' k' where asked: "issuer_as_asked env (cf_Certificate cfg) inner"
    "store_as_asked env (cf_CertificateStore cfg) inner i" "gateway_as_asked env cfg p"
    "source_as_asked env (cf_Datasource cfg) t d'" "d = d'" "me_ParseDuration env (rec_Interval (cf_Reconcile cfg)) = Inr k'"
    "k = k'" "election_as_asked env cfg e"
    by (rule wire_as_asked [OF valid run]) auto
  show ?thesis
    by (rule exI [of _ "wire_orchestrator d i p k (Some t) e"]) (use run asked in \<open>auto simp: boot_wire [OF assms(1)]\<close>)
qed

text \<open>The defaults with the MongoDB datasource, the Kubernetes store, the Ingress gateway and election.\<close>

theorem valid_configuration_boots_witness:
  "\<exists>og w' key f. boot (demo_viper (demo_config ''mongodb'' ''kube'')) (\<lambda>v. '''') demo_main ''config.yaml'' demo_start = (Ret og, w') \<and>
    og_issuer og = ck_issuer example_time (kc_secrets demo_clientset)
      \<lparr>ck_namespace = ''certs'', ck_secretPrefix = ''route-tls'', ck_renewBefore = 5 * second,
       ck_labels = [''app.kubernetes.io/managed-by'' \<mapsto> ''route-provisioner'']\<rparr>
      (lift_Issuer get_challenge put_challenge (ah_issuer demo_acme
         \<lparr>ac_directoryURL = ''https://acme'', ac_email = ''a@b'', ac_accountKey = Some key\<rparr> (server_solver (\<lambda>a e. (Inr (), e))))) \<and>
    og_trigger og = Some (MongoTrigger ''d'' ''routes'' f mt_defaultConfig) \<and> og_reconcileInterval og = 5 * second \<and>
    og_leaderElector og = Some (KubeElector \<lparr>lk_namespace = ''default'', lk_leaseName = ''l'', lk_identity = ''pod'',
      lk_leaseDuration = 5 * second, lk_renewDeadline = 5 * second, lk_retryPeriod = 5 * second\<rparr>)"
proof -
  let ?c = "demo_config ''mongodb'' ''kube''"
  obtain og w' inner t d where b: "boot (demo_viper ?c) (\<lambda>v. '''') demo_main ''config.yaml'' demo_start = (Ret og, w')"
    "issuer_as_asked demo_main (cf_Certificate ?c) inner"
    "store_as_asked demo_main (cf_CertificateStore ?c) inner (og_issuer og)"
    "og_trigger og = Some t" "source_as_asked demo_main (cf_Datasource ?c) t d" "og_reconcileInterval og = 5 * second"
    "election_as_asked demo_main ?c (og_leaderElector og)"
    using valid_configuration_boots [OF demo_load [OF demo_config_valid(1)] demo_main_up demo_config_election(1), of demo_start]
    by (auto simp: demo_main_def)
  note defs = demo_config_def demo_main_def Let_def set_or_def
  have "\<exists>key. inner = lift_Issuer get_challenge put_challenge (ah_issuer demo_acme
         \<lparr>ac_directoryURL = ''https://acme'', ac_email = ''a@b'', ac_accountKey = Some key\<rparr> (server_solver (\<lambda>a e. (Inr (), e))))"
    using b(2) by (simp add: issuer_as_asked_def defs demo_acme_api_def)
  moreover have "\<exists>f. t = MongoTrigger ''d'' ''routes'' f mt_defaultConfig"
    using b(5) by (auto simp: source_as_asked_def defs MongoCollections_def)
  moreover have "og_issuer og = ck_issuer example_time (kc_secrets demo_clientset)
      \<lparr>ck_namespace = ''certs'', ck_secretPrefix = ''route-tls'', ck_renewBefore = 5 * second,
       ck_labels = [''app.kubernetes.io/managed-by'' \<mapsto> ''route-provisioner'']\<rparr> inner"
    using b(3) by (simp add: store_as_asked_def asked_kube_store_def defs)
  moreover have "og_leaderElector og = Some (KubeElector \<lparr>lk_namespace = ''default'', lk_leaseName = ''l'', lk_identity = ''pod'',
      lk_leaseDuration = 5 * second, lk_renewDeadline = 5 * second, lk_retryPeriod = 5 * second\<rparr>)"
    using b(7) by (simp add: election_as_asked_def defs)
  ultimately show ?thesis using b(1,4,6) by auto
qed

end
