(* ===== verification/Fleet.thy ===== *)
theory Fleet
  imports LeaseMongo Orchestrator
begin

text \<open>
  Several instances of the program that elect a leader through one lease document: the electors
  of \<open>LeaseMongo\<close> and the orchestrators of \<open>Orchestrator\<close> as one step relation, synchronised
  where \<open>MongoLeaderElector.Run\<close> starts \<open>OnStartedLeading\<close>, which calls \<open>Orchestrator.run\<close>, cancels
  its context and waits for it. The projections of a reachable state are reachable in the
  components, whose invariants carry over.
\<close>

section \<open>The product\<close>

text \<open>
  The goroutine of \<open>OnStartedLeading\<close>: there is none, it has not called \<open>run\<close> yet, \<open>run\<close> is
  running, or it has returned and \<open>done\<close> is closed.
\<close>

datatype callback_pc = CbNone | CbSpawned | CbRunning | CbReturned

text \<open>Between the start of that goroutine and the receive from \<open>done\<close>.\<close>

fun in_callback :: "lm_pc \<Rightarrow> bool" where
  "in_callback (LmLead _) \<longleftrightarrow> True"
| "in_callback (LmRenew _ _) \<longleftrightarrow> True"
| "in_callback LmStop \<longleftrightarrow> True"
| "in_callback _ \<longleftrightarrow> False"

record fleet =
  fl_lease :: lease_sys
  fl_orch :: "string \<Rightarrow> orch"
  fl_cb :: "string \<Rightarrow> callback_pc"

definition fleet_init :: "int \<Rightarrow> fleet" where
  "fleet_init t0 = \<lparr>fl_lease = lease_init t0, fl_orch = (\<lambda>_. orch_init), fl_cb = (\<lambda>_. CbNone)\<rparr>"

definition set_orch :: "fleet \<Rightarrow> string \<Rightarrow> orch \<Rightarrow> fleet" where
  "set_orch s n o1 = s\<lparr>fl_orch := (fl_orch s)(n := o1)\<rparr>"

definition set_cb :: "fleet \<Rightarrow> string \<Rightarrow> callback_pc \<Rightarrow> fleet" where
  "set_cb s n x = s\<lparr>fl_cb := (fl_cb s)(n := x)\<rparr>"

lemma set_simps [simp]:
  "fl_lease (set_orch s n o1) = fl_lease s" "fl_orch (set_orch s n o1) = (fl_orch s)(n := o1)" "fl_cb (set_orch s n o1) = fl_cb s"
  "fl_lease (set_cb s n x) = fl_lease s" "fl_orch (set_cb s n x) = fl_orch s" "fl_cb (set_cb s n x) = (fl_cb s)(n := x)"
  by (simp_all add: set_orch_def set_cb_def)

text \<open>
  \<open>elect\<close>: a step of the electors, or of the clock, that neither starts nor ends a callback;
  \<open>lead\<close>: the lease is acquired and the goroutine started; \<open>left\<close>: \<open>done\<close> is received; \<open>cancelled\<close>:
  the leader's context ends, by \<open>cancelLeader\<close> or with that of the process; \<open>runs\<close>, \<open>returns\<close> and
  \<open>works\<close>: the steps of an orchestrator.
\<close>

inductive fleet_step :: "lease_collection \<Rightarrow> lm_config \<Rightarrow> orch_cfg \<Rightarrow> fleet \<Rightarrow> fleet \<Rightarrow> bool"
  for q :: lease_collection and c :: lm_config and oc :: orch_cfg where
  elect: "lease_step q c (fl_lease s) L \<Longrightarrow> (\<And>n. in_callback (ls_pc L n) = in_callback (ls_pc (fl_lease s) n)) \<Longrightarrow>
    fleet_step q c oc s (s\<lparr>fl_lease := L\<rparr>)"
| lead: "lease_step q c (fl_lease s) L \<Longrightarrow> \<not> in_callback (ls_pc (fl_lease s) n) \<Longrightarrow> in_callback (ls_pc L n) \<Longrightarrow>
    fleet_step q c oc s (set_cb (s\<lparr>fl_lease := L\<rparr>) n CbSpawned)"
| left: "lease_step q c (fl_lease s) L \<Longrightarrow> in_callback (ls_pc (fl_lease s) n) \<Longrightarrow> \<not> in_callback (ls_pc L n) \<Longrightarrow>
    fl_cb s n = CbReturned \<Longrightarrow> fleet_step q c oc s (set_cb (s\<lparr>fl_lease := L\<rparr>) n CbNone)"
| cancelled: "ls_pc (fl_lease s) n = LmStop \<or> ls_ctx (fl_lease s) n \<Longrightarrow>
    t = (if fl_cb s n = CbSpawned then Suc (o_term (fl_orch s n)) else o_term (fl_orch s n)) \<Longrightarrow>
    fleet_step q c oc s (set_orch s n ((fl_orch s n)\<lparr>o_cancelled := (o_cancelled (fl_orch s n))(t := True)\<rparr>))"
| runs: "orch_step oc (fl_orch s n) o1 \<Longrightarrow> o_main (fl_orch s n) = MIdle \<Longrightarrow> o_main o1 \<noteq> MIdle \<Longrightarrow> fl_cb s n = CbSpawned \<Longrightarrow>
    fleet_step q c oc s (set_cb (set_orch s n o1) n CbRunning)"
| returns: "orch_step oc (fl_orch s n) o1 \<Longrightarrow> o_main (fl_orch s n) \<noteq> MIdle \<Longrightarrow> o_main o1 = MIdle \<Longrightarrow>
    fleet_step q c oc s (set_cb (set_orch s n o1) n CbReturned)"
| works: "orch_step oc (fl_orch s n) o1 \<Longrightarrow> (o_main o1 = MIdle \<longleftrightarrow> o_main (fl_orch s n) = MIdle) \<Longrightarrow>
    o_cancelled o1 = o_cancelled (fl_orch s n) \<Longrightarrow> fleet_step q c oc s (set_orch s n o1)"

inductive fleet_reachable :: "lease_collection \<Rightarrow> lm_config \<Rightarrow> orch_cfg \<Rightarrow> fleet \<Rightarrow> bool"
  for q :: lease_collection and c :: lm_config and oc :: orch_cfg where
  fleet_start: "fleet_reachable q c oc (fleet_init t0)"
| fleet_next: "fleet_reachable q c oc s \<Longrightarrow> fleet_step q c oc s s' \<Longrightarrow> fleet_reachable q c oc s'"

section \<open>Projections\<close>

lemma fleet_projects:
  assumes "fleet_reachable q c oc s"
  shows "lease_reachable q c (fl_lease s) \<and> (\<forall>n. orch_reachable oc (fl_orch s n))"
  using assms
proof (induction rule: fleet_reachable.induct)
  case (fleet_start t0)
  show ?case by (simp add: fleet_init_def lease_start orch_start)
next
  case (fleet_next s s')
  from fleet_next.hyps(2) fleet_next.IH show ?case
  proof (induction rule: fleet_step.induct)
    case (cancelled s n t)
    then show ?case using orch_next [OF _ orch_step.cancel] by simp
  qed (auto intro: lease_next orch_next)
qed

text \<open>A step of the electors moves one of them.\<close>

lemma lease_step_one: "lease_step q c s s' \<Longrightarrow> \<exists>n x. ls_pc s' = (ls_pc s)(n := x)"
  by (induction rule: lease_step.induct; simp add: goto_def; metis fun_upd_triv)

lemma lease_step_others:
  assumes "lease_step q c s s'" "in_callback (ls_pc s' n) \<noteq> in_callback (ls_pc s n)" "m \<noteq> n"
  shows "ls_pc s' m = ls_pc s m"
proof -
  obtain k x where "ls_pc s' = (ls_pc s)(k := x)" using lease_step_one [OF assms(1)] by blast
  with assms(2,3) show ?thesis by (cases "k = n") auto
qed

text \<open>The callback of an instance is the call of \<open>run\<close> of its orchestrator.\<close>

definition callback_ok :: "fleet \<Rightarrow> string \<Rightarrow> bool" where
  "callback_ok s n \<longleftrightarrow> (fl_cb s n = CbNone \<longleftrightarrow> \<not> in_callback (ls_pc (fl_lease s) n)) \<and>
     (fl_cb s n = CbRunning \<longleftrightarrow> o_main (fl_orch s n) \<noteq> MIdle)"

lemma callback_ok_step: "fleet_step q c oc s s' \<Longrightarrow> callback_ok s m \<Longrightarrow> callback_ok s' m"
proof (induction rule: fleet_step.induct)
  case (elect s L)
  then show ?case by (simp add: callback_ok_def)
next
  case (lead s L n)
  then have "m \<noteq> n \<Longrightarrow> ls_pc L m = ls_pc (fl_lease s) m" using lease_step_others by blast
  with lead(2-4) show ?case by (cases "m = n") (auto simp: callback_ok_def)
next
  case (left s L n)
  then have "m \<noteq> n \<Longrightarrow> ls_pc L m = ls_pc (fl_lease s) m" using lease_step_others by blast
  with left(2-5) show ?case by (cases "m = n") (auto simp: callback_ok_def)
next
  case (cancelled s n t)
  then show ?case by (cases "m = n") (simp_all add: callback_ok_def)
next
  case (runs s n o1)
  then show ?case by (cases "m = n") (auto simp: callback_ok_def)
next
  case (returns s n o1)
  then show ?case by (cases "m = n") (auto simp: callback_ok_def)
next
  case (works s n o1)
  then show ?case by (cases "m = n") (simp_all add: callback_ok_def)
qed

lemma fleet_callback_ok: "fleet_reachable q c oc s \<Longrightarrow> callback_ok s m"
proof (induction rule: fleet_reachable.induct)
  case (fleet_start t0)
  show ?case by (simp add: callback_ok_def fleet_init_def lease_init_def orch_init_def)
qed (rule callback_ok_step)

section \<open>The lease during a callback\<close>

text \<open>
  From the acquisition to the end of the callback, not only while the flag \<open>leading\<close> is set: an
  instance whose last expiry has not passed holds the lease document, possibly for longer than it
  knows, when a renewal was applied in spite of an error.
\<close>

definition callback_lease :: "lm_config \<Rightarrow> lease_sys \<Rightarrow> string \<Rightarrow> bool" where
  "callback_lease c s n \<longleftrightarrow> (in_callback (ls_pc s n) \<longrightarrow>
     ls_exp s n \<le> ls_now s + lm_leaseDuration c \<and>
     (\<forall>next t. ls_pc s n = LmRenew next t \<longrightarrow> ls_exp s n \<le> t + lm_leaseDuration c) \<and>
     (ls_now s \<le> ls_exp s n \<longrightarrow> (\<exists>e. ls_exp s n \<le> e \<and> lease_of (ls_doc s) = Some (n, e))))"

context lease_store
begin

lemma callback_lease_local:
  assumes "callback_lease c s m" and "ls_now s' = ls_now s"
    and "m \<noteq> n \<Longrightarrow> ls_pc s' m = ls_pc s m \<and> ls_exp s' m = ls_exp s m"
    and "\<And>e. m \<noteq> n \<Longrightarrow> ls_now s \<le> e \<Longrightarrow> lease_of (ls_doc s) = Some (m, e) \<Longrightarrow> lease_of (ls_doc s') = Some (m, e)"
    and "m = n \<Longrightarrow> callback_lease c s' n"
  shows "callback_lease c s' m"
proof (cases "m = n")
  case False
  from assms(3) [OF this] assms(4) [OF this] assms(1,2) show ?thesis
    unfolding callback_lease_def by (metis order_trans)
qed (use assms(5) in simp)

lemma sent_times: "lease_inv c s \<Longrightarrow> ls_pc s n = LmAcquire t \<or> ls_pc s n = LmRenew nxt t \<Longrightarrow> t \<le> ls_now s"
  unfolding lease_inv_def by (metis sent_before.simps(1,2))

lemma callback_lease_step: "lease_step q c s s' \<Longrightarrow> lease_inv c s \<Longrightarrow> callback_lease c s m \<Longrightarrow> callback_lease c s' m"
proof (induction rule: lease_step.induct)
  case (time_passes d s)
  then show ?case by (auto simp: callback_lease_def)
next
  case (acquire_ok s n t d)
  then have doc: "lease_doc (lm_leaseName c) (ls_doc s)" by (simp add: lease_inv_def)
  show ?case
    by (rule callback_lease_local [of c s m _ n])
      (use acquire_ok sent_times [OF acquire_ok(3) disjI1 [OF acquire_ok(1)]] tryAcquire_other [OF doc acquire_ok(2)]
          tryAcquire_run(2) [OF _ acquire_ok(2)] doc in \<open>auto simp: callback_lease_def goto_def\<close>)
next
  case (acquire_error_applied s n t r d)
  then have doc: "lease_doc (lm_leaseName c) (ls_doc s)" by (simp add: lease_inv_def)
  show ?case
    by (rule callback_lease_local [of c s m _ n])
      (use acquire_error_applied sent_times [OF acquire_error_applied(3) disjI1 [OF acquire_error_applied(1)]]
          tryAcquire_other [OF doc acquire_error_applied(2)] in \<open>auto simp: callback_lease_def goto_def\<close>)
next
  case (acquire_lost s n t d)
  then have doc: "lease_doc (lm_leaseName c) (ls_doc s)" by (simp add: lease_inv_def)
  show ?case
    by (rule callback_lease_local [of c s m _ n])
      (use acquire_lost sent_times [OF acquire_lost(3) disjI1 [OF acquire_lost(1)]] tryAcquire_other [OF doc acquire_lost(2)]
        in \<open>auto simp: callback_lease_def goto_def\<close>)
next
  case (lead_tick s n nxt)
  then show ?case by (cases "m = n") (auto simp: callback_lease_def goto_def)
next
  case (renew_ok s n nxt t d k)
  then have doc: "lease_doc (lm_leaseName c) (ls_doc s)" by (simp add: lease_inv_def)
  show ?case
    by (rule callback_lease_local [of c s m _ n])
      (use renew_ok sent_times [OF renew_ok(3) disjI2 [OF renew_ok(1)]] tryRenew_other [OF doc renew_ok(2)]
          tryRenew_cases(2) [OF _ renew_ok(2)] doc in \<open>auto simp: callback_lease_def goto_def\<close>)
next
  case (renew_lost s n nxt t d)
  then have doc: "lease_doc (lm_leaseName c) (ls_doc s)" by (simp add: lease_inv_def)
  show ?case
    by (rule callback_lease_local [of c s m _ n])
      (use renew_lost tryRenew_other [OF doc renew_lost(2)] tryRenew_cases(2) [OF _ renew_lost(2)] doc
        in \<open>auto simp: callback_lease_def goto_def\<close>)
next
  case (renew_error_applied s n nxt t r d)
  then have doc: "lease_doc (lm_leaseName c) (ls_doc s)" by (simp add: lease_inv_def)
  show ?case
    by (rule callback_lease_local [of c s m _ n])
      (use renew_error_applied tryRenew_other [OF doc renew_error_applied(2)]
          tryRenew_cases(2) [OF _ renew_error_applied(2)] doc in \<open>auto simp: callback_lease_def goto_def\<close>)
next
  case (release_done s n)
  then have doc: "lease_doc (lm_leaseName c) (ls_doc s)" by (simp add: lease_inv_def)
  show ?case
    by (rule callback_lease_local [of c s m _ n])
      (use release_done lm_release_other [OF doc] in \<open>auto simp: callback_lease_def goto_def\<close>)
qed (auto simp: callback_lease_def goto_def)

lemma lease_reachable_callback: "lease_reachable q c s \<Longrightarrow> callback_lease c s m"
proof (induction rule: lease_reachable.induct)
  case (lease_start t0)
  show ?case by (simp add: callback_lease_def lease_init_def)
next
  case (lease_next s s')
  then show ?case by (blast intro: callback_lease_step lease_reachable_inv)
qed

end

section \<open>The loops of a term\<close>

text \<open>A periodic loop whose context is live is that of the call of \<open>run\<close> that is running.\<close>

definition live_loops :: "orch \<Rightarrow> bool" where
  "live_loops s \<longleftrightarrow> (\<forall>t. o_loop s t \<noteq> LNone \<longrightarrow> \<not> o_cancelled s t \<longrightarrow> t = o_term s \<and> o_main s \<noteq> MIdle)"

lemma live_loops_step: "orch_step c s s' \<Longrightarrow> live_loops s \<Longrightarrow> live_loops s'"
  by (erule orch_stepE) (force simp: live_loops_def enter_select_def)+

lemma orch_reachable_live: "orch_reachable c s \<Longrightarrow> live_loops s"
proof (induction rule: orch_reachable.induct)
  case orch_start
  show ?case by (simp add: live_loops_def orch_init_def)
qed (rule live_loops_step)

section \<open>Properties\<close>

text \<open>
  The work of an orchestrator: \<open>run\<close> has not returned, be it in the initial reconciliation, in the
  handler of an event or waiting, or a periodic cycle runs, whatever has become of its context. All
  that is left of a term that winds down is a cycle under a cancelled context.
\<close>

definition working :: "orch \<Rightarrow> bool" where
  "working s \<longleftrightarrow> o_main s \<noteq> MIdle \<or> (\<exists>t. o_loop s t = LReconcile)"

definition winds_down :: "orch \<Rightarrow> bool" where
  "winds_down s \<longleftrightarrow> o_main s = MIdle \<and> (\<forall>t. o_loop s t = LReconcile \<longrightarrow> o_cancelled s t)"

lemma working_callback:
  assumes "fleet_reachable q c oc s" "\<not> winds_down (fl_orch s n)"
  shows "in_callback (ls_pc (fl_lease s) n)"
proof -
  have "live_loops (fl_orch s n)" using fleet_projects [OF assms(1)] orch_reachable_live by blast
  with assms(2) have "o_main (fl_orch s n) \<noteq> MIdle" unfolding winds_down_def live_loops_def by (metis loop_pc.distinct(5))
  with fleet_callback_ok [OF assms(1), of n] show ?thesis by (auto simp: callback_ok_def)
qed

text \<open>
  C8: of the instances that elect a leader through one lease, take one that works while the expiry
  it last wrote has not passed. Either it winds down: its \<open>run\<close> has returned and a cycle under a
  cancelled context is all that is left. Or it holds the lease document, also while it still waits
  for \<open>run\<close> after a failed renewal, and every other instance that works while its expiry has not
  passed winds down.
\<close>

theorem fleet_works_alone:
  assumes "lease_store q" and "fleet_reachable q c oc s"
    and "working (fl_orch s n)" "ls_now (fl_lease s) \<le> ls_exp (fl_lease s) n"
  shows "winds_down (fl_orch s n) \<or>
    (\<exists>e. lease_of (ls_doc (fl_lease s)) = Some (n, e) \<and> ls_now (fl_lease s) \<le> e) \<and>
    (\<forall>m. m \<noteq> n \<longrightarrow> working (fl_orch s m) \<longrightarrow> ls_now (fl_lease s) \<le> ls_exp (fl_lease s) m \<longrightarrow> winds_down (fl_orch s m))"
proof -
  have holds: "\<exists>e. ls_exp (fl_lease s) k \<le> e \<and> lease_of (ls_doc (fl_lease s)) = Some (k, e)"
    if "\<not> winds_down (fl_orch s k)" "ls_now (fl_lease s) \<le> ls_exp (fl_lease s) k" for k
    using lease_store.lease_reachable_callback [OF assms(1), of c "fl_lease s" k] fleet_projects [OF assms(2)]
      working_callback [OF assms(2) that(1)] that(2) by (simp add: callback_lease_def)
  show ?thesis
  proof (cases "winds_down (fl_orch s n)")
    case False
    from holds [OF False assms(4)] obtain e where e: "ls_exp (fl_lease s) n \<le> e"
      "lease_of (ls_doc (fl_lease s)) = Some (n, e)" by blast
    moreover have "winds_down (fl_orch s m)" if "m \<noteq> n" "ls_now (fl_lease s) \<le> ls_exp (fl_lease s) m" for m
      using holds [of m] that e(2) by auto
    ultimately show ?thesis using assms(4) by (meson order_trans)
  qed simp
qed

text \<open>Two instances of a fleet in which all others are at their start.\<close>

definition fleet_of :: "lease_sys \<Rightarrow> orch \<Rightarrow> callback_pc \<Rightarrow> orch \<Rightarrow> callback_pc \<Rightarrow> fleet" where
  "fleet_of L o1 x o2 y = \<lparr>fl_lease = L, fl_orch = (\<lambda>_. orch_init)(''a'' := o1, ''b'' := o2),
     fl_cb = (\<lambda>_. CbNone)(''a'' := x, ''b'' := y)\<rparr>"

lemma fleet_of_simps [simp]:
  "fl_lease (fleet_of L o1 x o2 y) = L"
  "fl_orch (fleet_of L o1 x o2 y) ''a'' = o1" "fl_orch (fleet_of L o1 x o2 y) ''b'' = o2"
  "fl_cb (fleet_of L o1 x o2 y) ''a'' = x" "fl_cb (fleet_of L o1 x o2 y) ''b'' = y"
  "(fleet_of L o1 x o2 y)\<lparr>fl_lease := L'\<rparr> = fleet_of L' o1 x o2 y"
  "set_orch (fleet_of L o1 x o2 y) ''a'' o' = fleet_of L o' x o2 y"
  "set_orch (fleet_of L o1 x o2 y) ''b'' o' = fleet_of L o1 x o' y"
  "set_cb (fleet_of L o1 x o2 y) ''a'' z = fleet_of L o1 z o2 y"
  "set_cb (fleet_of L o1 x o2 y) ''b'' z = fleet_of L o1 x o2 z"
  by (simp_all add: fleet_of_def set_orch_def set_cb_def fun_eq_iff)

lemma fleet_of_init: "fleet_init t0 = fleet_of (lease_init t0) orch_init CbNone orch_init CbNone"
  by (simp add: fleet_init_def fleet_of_def fun_eq_iff)

text \<open>The steps of the two instances on such fleets.\<close>

lemma elect_of:
  "fleet_reachable q c oc (fleet_of L o1 x o2 y) \<Longrightarrow> lease_step q c L L' \<Longrightarrow>
   (\<And>n. in_callback (ls_pc L' n) = in_callback (ls_pc L n)) \<Longrightarrow> fleet_reachable q c oc (fleet_of L' o1 x o2 y)"
  using fleet_next [OF _ elect [where s = "fleet_of L o1 x o2 y"]] by simp

lemma lead_of:
  "fleet_reachable q c oc (fleet_of L o1 x o2 y) \<Longrightarrow> lease_step q c L L' \<Longrightarrow>
   \<not> in_callback (ls_pc L ''a'') \<Longrightarrow> in_callback (ls_pc L' ''a'') \<Longrightarrow> fleet_reachable q c oc (fleet_of L' o1 CbSpawned o2 y)"
  "fleet_reachable q c oc (fleet_of L o1 x o2 y) \<Longrightarrow> lease_step q c L L' \<Longrightarrow>
   \<not> in_callback (ls_pc L ''b'') \<Longrightarrow> in_callback (ls_pc L' ''b'') \<Longrightarrow> fleet_reachable q c oc (fleet_of L' o1 x o2 CbSpawned)"
  using fleet_next [OF _ lead [where s = "fleet_of L o1 x o2 y" and n = "''a''"]]
    fleet_next [OF _ lead [where s = "fleet_of L o1 x o2 y" and n = "''b''"]] by simp_all

lemma left_of:
  "fleet_reachable q c oc (fleet_of L o1 CbReturned o2 y) \<Longrightarrow> lease_step q c L L' \<Longrightarrow>
   in_callback (ls_pc L ''a'') \<Longrightarrow> \<not> in_callback (ls_pc L' ''a'') \<Longrightarrow> fleet_reachable q c oc (fleet_of L' o1 CbNone o2 y)"
  using fleet_next [OF _ left [where s = "fleet_of L o1 CbReturned o2 y" and n = "''a''"]] by simp

lemma runs_of:
  "fleet_reachable q c oc (fleet_of L o1 CbSpawned o2 y) \<Longrightarrow> orch_step oc o1 o' \<Longrightarrow> o_main o1 = MIdle \<Longrightarrow>
   o_main o' \<noteq> MIdle \<Longrightarrow> fleet_reachable q c oc (fleet_of L o' CbRunning o2 y)"
  "fleet_reachable q c oc (fleet_of L o1 x o2 CbSpawned) \<Longrightarrow> orch_step oc o2 o' \<Longrightarrow> o_main o2 = MIdle \<Longrightarrow>
   o_main o' \<noteq> MIdle \<Longrightarrow> fleet_reachable q c oc (fleet_of L o1 x o' CbRunning)"
  using fleet_next [OF _ runs [where s = "fleet_of L o1 CbSpawned o2 y" and n = "''a''"]]
    fleet_next [OF _ runs [where s = "fleet_of L o1 x o2 CbSpawned" and n = "''b''"]] by simp_all

lemma works_of:
  "fleet_reachable q c oc (fleet_of L o1 x o2 y) \<Longrightarrow> orch_step oc o1 o' \<Longrightarrow> (o_main o' = MIdle \<longleftrightarrow> o_main o1 = MIdle) \<Longrightarrow>
   o_cancelled o' = o_cancelled o1 \<Longrightarrow> fleet_reachable q c oc (fleet_of L o' x o2 y)"
  using fleet_next [OF _ works [where s = "fleet_of L o1 x o2 y" and n = "''a''"]] by simp

lemma returns_of:
  "fleet_reachable q c oc (fleet_of L o1 x o2 y) \<Longrightarrow> orch_step oc o1 o' \<Longrightarrow> o_main o1 \<noteq> MIdle \<Longrightarrow>
   o_main o' = MIdle \<Longrightarrow> fleet_reachable q c oc (fleet_of L o' CbReturned o2 y)"
  using fleet_next [OF _ returns [where s = "fleet_of L o1 x o2 y" and n = "''a''"]] by simp

lemma cancelled_of:
  "fleet_reachable q c oc (fleet_of L o1 CbRunning o2 y) \<Longrightarrow> ls_pc L ''a'' = LmStop \<Longrightarrow>
   fleet_reachable q c oc (fleet_of L (o1\<lparr>o_cancelled := (o_cancelled o1)(o_term o1 := True)\<rparr>) CbRunning o2 y)"
  using fleet_next [OF _ cancelled [where s = "fleet_of L o1 CbRunning o2 y" and n = "''a''"]] by simp

text \<open>The configuration that \<open>main\<close> builds: reconciliations are always configured, here with a period.\<close>

definition fleet_orch :: orch_cfg where
  "fleet_orch = \<lparr>oc_election = True, oc_reconciler = True, oc_interval = 1, oc_trigger = True\<rparr>"

definition default_lease :: lm_config where
  "default_lease = lm_New []"

definition held_document :: "string \<Rightarrow> int \<Rightarrow> bdoc" where
  "held_document h t = [''_id'' \<mapsto> BStr ''leader'', ''holder'' \<mapsto> BStr h, ''acquiredAt'' \<mapsto> BTime t,
     ''renewedAt'' \<mapsto> BTime t, ''expiresAt'' \<mapsto> BTime (t + 15000)]"

lemma default_lease_simps [simp]:
  "lm_leaseName default_lease = ''leader''" "lm_leaseDuration default_lease = 15000" "lm_renewInterval default_lease = 5000"
  by (simp_all add: default_lease_def lm_New_def lm_defaultConfig_def)

lemma default_calls:
  "tryAcquire documented_collection (instance_cfg default_lease n) t None = (Inr True, Some (held_document n t))"
  "lm_release documented_collection (instance_cfg default_lease n) (Some (held_document n t)) = None"
  "lease_of (Some (held_document n t)) = Some (n, t + 15000)"
  by (simp_all add: tryAcquire_def docs.find_law docs.delete_law find_one_and_upsert_def acquire_filter_def
      acquire_set_def held_document_def lm_release_def delete_one_def holder_filter_def matches_def lease_of_def fun_eq_iff)

text \<open>An instance in a periodic cycle of its first term, and after its \<open>run\<close> has returned meanwhile.\<close>

definition in_cycle :: orch where
  "in_cycle = orch_init\<lparr>o_main := MSelect, o_term := 1, o_events := True, o_loop := (\<lambda>_. LNone)(1 := LReconcile),
     o_mu := Some (OLoop 1)\<rparr>"

definition left_behind :: orch where
  "left_behind = in_cycle\<lparr>o_main := MIdle, o_events := False, o_cancelled := (\<lambda>_. False)(1 := True)\<rparr>"

definition first_leader :: lease_sys where
  "first_leader = \<lparr>ls_now = 5000, ls_doc = Some (held_document ''a'' 0), ls_pc = (\<lambda>_. LmHead)(''a'' := LmStop),
     ls_ctx = (\<lambda>_. False), ls_exp = (\<lambda>_. 0)(''a'' := 15000)\<rparr>"

lemma first_leader_reached:
  "fleet_reachable documented_collection default_lease fleet_orch (fleet_of first_leader in_cycle CbRunning orch_init CbNone)"
proof -
  let ?q = documented_collection and ?c = default_lease
  let ?L1 = "goto (lease_init 0) ''a'' (LmAcquire 0)"
  let ?L2 = "(goto ?L1 ''a'' (LmLead 5000))\<lparr>ls_doc := Some (held_document ''a'' 0), ls_exp := (\<lambda>_. 0)(''a'' := 15000)\<rparr>"
  let ?L3 = "?L2\<lparr>ls_now := 5000\<rparr>"
  let ?L4 = "goto ?L3 ''a'' (LmRenew 5000 5000)"
  let ?o1 = "orch_init\<lparr>o_main := MInit, o_term := 1\<rparr>"
  let ?o2 = "enter_select fleet_orch ?o1"
  let ?o3 = "?o2\<lparr>o_loop := (o_loop ?o2)(1 := LLock)\<rparr>"
  note start = fleet_start [of ?q ?c fleet_orch 0, unfolded fleet_of_init]
  have l1: "lease_step ?q ?c (lease_init 0) ?L1"
    using head_try [of "lease_init 0" "''a''" ?q ?c] by (simp add: lease_init_def)
  have s1: "fleet_reachable ?q ?c fleet_orch (fleet_of ?L1 orch_init CbNone orch_init CbNone)"
    by (rule elect_of [OF start l1]) (simp add: lease_init_def goto_def)
  have l2: "lease_step ?q ?c ?L1 ?L2"
    using acquire_ok [of ?L1 "''a''" 0 ?q ?c "Some (held_document ''a'' 0)"]
    by (simp add: default_calls lease_init_def goto_def)
  have s2: "fleet_reachable ?q ?c fleet_orch (fleet_of ?L2 orch_init CbSpawned orch_init CbNone)"
    by (rule lead_of(1) [OF s1 l2]) (simp_all add: goto_def)
  have o1: "orch_step fleet_orch orch_init ?o1"
    using run_start [of orch_init fleet_orch] by (simp add: orch_init_def fleet_orch_def)
  note s3 = runs_of(1) [OF s2 o1]
  note s4 = works_of [OF s3 init_done [of ?o1]]
  have o3: "orch_step fleet_orch ?o2 ?o3"
    by (rule loop_tick) (simp add: enter_select_def fleet_orch_def)
  note s5 = works_of [OF s4 o3]
  note s6 = works_of [OF s5 loop_lock [of ?o3 1]]
  have oc: "?o3\<lparr>o_loop := (o_loop ?o3)(1 := LReconcile), o_mu := Some (OLoop 1)\<rparr> = in_cycle"
    by (simp add: in_cycle_def enter_select_def fleet_orch_def orch_init_def fun_eq_iff)
  have s7: "fleet_reachable ?q ?c fleet_orch (fleet_of ?L2 in_cycle CbRunning orch_init CbNone)"
    unfolding oc [symmetric] by (rule s6) (simp_all add: enter_select_def fleet_orch_def orch_init_def)
  have l3: "lease_step ?q ?c ?L2 ?L3" using time_passes [of 5000 ?q ?c ?L2] by (simp add: lease_init_def goto_def)
  have l4: "lease_step ?q ?c ?L3 ?L4"
    using lead_tick [of ?L3 "''a''" 5000 ?q ?c] by (simp add: goto_def)
  have l5: "lease_step ?q ?c ?L4 (goto ?L4 ''a'' LmStop)" by (rule renew_error) (simp add: goto_def)
  have s8: "fleet_reachable ?q ?c fleet_orch (fleet_of ?L3 in_cycle CbRunning orch_init CbNone)"
    by (rule elect_of [OF s7 l3]) simp
  have s9: "fleet_reachable ?q ?c fleet_orch (fleet_of ?L4 in_cycle CbRunning orch_init CbNone)"
    by (rule elect_of [OF s8 l4]) (simp add: goto_def)
  have "goto ?L4 ''a'' LmStop = first_leader" by (simp add: first_leader_def goto_def lease_init_def fun_eq_iff)
  moreover have "fleet_reachable ?q ?c fleet_orch (fleet_of (goto ?L4 ''a'' LmStop) in_cycle CbRunning orch_init CbNone)"
    by (rule elect_of [OF s9 l5]) (simp add: goto_def)
  ultimately show ?thesis by simp
qed

text \<open>The next leader in its initial reconciliation, beside a cycle of the first one.\<close>

definition second_leader :: lease_sys where
  "second_leader = \<lparr>ls_now = 5000, ls_doc = Some (held_document ''b'' 5000),
     ls_pc = (\<lambda>_. LmHead)(''a'' := LmWait, ''b'' := LmLead 10000), ls_ctx = (\<lambda>_. False),
     ls_exp = (\<lambda>_. 0)(''a'' := 15000, ''b'' := 20000)\<rparr>"

definition starting :: orch where
  "starting = orch_init\<lparr>o_main := MInit, o_term := 1\<rparr>"

lemma second_leader_reached:
  "fleet_reachable documented_collection default_lease fleet_orch
     (fleet_of second_leader left_behind CbNone starting CbRunning)"
proof -
  let ?q = documented_collection and ?c = default_lease
  let ?L6 = "goto first_leader ''a'' LmStopped"
  let ?L7 = "(goto ?L6 ''a'' LmWait)\<lparr>ls_doc := None\<rparr>"
  let ?L8 = "goto ?L7 ''b'' (LmAcquire 5000)"
  let ?L9 = "(goto ?L8 ''b'' (LmLead 10000))\<lparr>ls_doc := Some (held_document ''b'' 5000), ls_exp := (ls_exp first_leader)(''b'' := 20000)\<rparr>"
  note s1 = cancelled_of [OF first_leader_reached]
  have ret: "orch_step fleet_orch (in_cycle\<lparr>o_cancelled := (o_cancelled in_cycle)(o_term in_cycle := True)\<rparr>) left_behind"
    using main_ctx_done [of "in_cycle\<lparr>o_cancelled := (o_cancelled in_cycle)(o_term in_cycle := True)\<rparr>" fleet_orch]
    by (simp add: in_cycle_def left_behind_def orch_init_def)
  have s2: "fleet_reachable ?q ?c fleet_orch (fleet_of first_leader left_behind CbReturned orch_init CbNone)"
    by (rule returns_of [OF s1 ret]) (simp_all add: first_leader_def in_cycle_def left_behind_def)
  have l6: "lease_step ?q ?c first_leader ?L6" by (rule callback_done) (simp add: first_leader_def)
  have s3: "fleet_reachable ?q ?c fleet_orch (fleet_of ?L6 left_behind CbNone orch_init CbNone)"
    by (rule left_of [OF s2 l6]) (simp_all add: first_leader_def goto_def)
  have l7: "lease_step ?q ?c ?L6 ?L7"
    using release_done [of ?L6 "''a''" ?q ?c] by (simp add: first_leader_def goto_def default_calls)
  have s4: "fleet_reachable ?q ?c fleet_orch (fleet_of ?L7 left_behind CbNone orch_init CbNone)"
    by (rule elect_of [OF s3 l7]) (simp add: first_leader_def goto_def)
  have l8: "lease_step ?q ?c ?L7 ?L8"
    using head_try [of ?L7 "''b''" ?q ?c] by (simp add: first_leader_def goto_def)
  have s5: "fleet_reachable ?q ?c fleet_orch (fleet_of ?L8 left_behind CbNone orch_init CbNone)"
    by (rule elect_of [OF s4 l8]) (simp add: first_leader_def goto_def)
  have l9: "lease_step ?q ?c ?L8 ?L9"
    using acquire_ok [of ?L8 "''b''" 5000 ?q ?c "Some (held_document ''b'' 5000)"]
    by (simp add: default_calls first_leader_def goto_def)
  have s6: "fleet_reachable ?q ?c fleet_orch (fleet_of ?L9 left_behind CbNone orch_init CbSpawned)"
    by (rule lead_of(2) [OF s5 l9]) (simp_all add: first_leader_def goto_def)
  have ob: "orch_step fleet_orch orch_init starting"
    using run_start [of orch_init fleet_orch] by (simp add: orch_init_def fleet_orch_def starting_def)
  have s7: "fleet_reachable ?q ?c fleet_orch (fleet_of ?L9 left_behind CbNone starting CbRunning)"
    by (rule runs_of(2) [OF s6 ob]) (simp_all add: orch_init_def starting_def)
  moreover have "?L9 = second_leader" by (simp add: second_leader_def first_leader_def goto_def fun_eq_iff)
  ultimately show ?thesis by simp
qed

text \<open>
  C33: the instance that hands the lease over waits for \<open>run\<close> but not for its periodic loop. After
  one renewal that failed, with every clock and lease in order, its cycle can still be writing to the
  gateway, under a cancelled context, when the next leader holds the lease and is in its initial
  reconciliation.
\<close>

theorem handover_can_overlap:
  "\<exists>s. fleet_reachable documented_collection default_lease fleet_orch s \<and>
     o_loop (fl_orch s ''a'') 1 = LReconcile \<and> ls_pc (fl_lease s) ''a'' = LmWait \<and>
     o_main (fl_orch s ''b'') = MInit \<and> lm_leading (ls_pc (fl_lease s) ''b'') \<and>
     lease_of (ls_doc (fl_lease s)) = Some (''b'', 20000) \<and> ls_now (fl_lease s) = 5000"
proof (intro exI conjI)
  show "fleet_reachable documented_collection default_lease fleet_orch (fleet_of second_leader left_behind CbNone starting CbRunning)"
    by (rule second_leader_reached)
qed (simp_all add: left_behind_def in_cycle_def second_leader_def starting_def default_calls)

theorem fleet_works_alone_witness:
  "working left_behind \<and> ls_now second_leader \<le> ls_exp second_leader ''a'' \<and> winds_down left_behind \<and>
   lease_of (ls_doc second_leader) = Some (''b'', 20000) \<and> working starting \<and> \<not> winds_down starting"
proof -
  let ?s = "fleet_of second_leader left_behind CbNone starting CbRunning"
  have b: "working (fl_orch ?s ''b'')" "ls_now (fl_lease ?s) \<le> ls_exp (fl_lease ?s) ''b''" "\<not> winds_down starting"
    by (simp_all add: working_def winds_down_def starting_def second_leader_def)
  have a: "working left_behind" by (simp add: working_def left_behind_def in_cycle_def)
  from fleet_works_alone [OF docs.lease_store_axioms second_leader_reached b(1,2)] b(3)
  have "\<forall>m. m \<noteq> ''b'' \<longrightarrow> working (fl_orch ?s m) \<longrightarrow> ls_now second_leader \<le> ls_exp second_leader m \<longrightarrow> winds_down (fl_orch ?s m)"
    by simp
  from this [THEN spec [of _ "''a''"]] a b(1,3) show ?thesis
    by (simp add: second_leader_def default_calls)
qed

end
