(* ===== verification/IngressRaces.thy ===== *)
theory IngressRaces
  imports IngressProperties
begin

text \<open>
  What happens to the Ingress provisioner when somebody else changes the cluster between its
  listing and its patch. An operation addresses a rule by the index it had in the listing, or
  writes back the rules it had listed, and the patch carries neither a \<open>test\<close> operation nor a
  resource version. Within one term of leadership the mutex of the orchestrator rules this out
  (\<open>critical_sections_exclusive\<close>); with a cycle of the previous term still running
  (\<open>initial_reconciliation_can_overlap\<close>) or a second leader
  (\<open>two_leaders_when_renewal_is_late\<close>) it can happen.
\<close>

section \<open>A change between the listing and the next call\<close>

text \<open>The provisioner \<open>p\<close> in a world in which \<open>other\<close> happens right after each of its listings.\<close>

definition meanwhile :: "('w \<Rightarrow> 'w) \<Rightarrow> 'w IngressProvisioner \<Rightarrow> 'w IngressProvisioner" where
  "meanwhile other p = p\<lparr>ing_api := (ing_api p)\<lparr>ka_List := \<lambda>ns sel w.
     (case ka_List (ing_api p) ns sel w of (r, v) \<Rightarrow> (r, other v))\<rparr>\<rparr>"

lemma meanwhile_simps [simp]:
  "ing_mapper (meanwhile f p) = ing_mapper p" "ing_cfg (meanwhile f p) = ing_cfg p"
  "ka_Create (ing_api (meanwhile f p)) = ka_Create (ing_api p)"
  "ka_Delete (ing_api (meanwhile f p)) = ka_Delete (ing_api p)"
  "ka_Patch (ing_api (meanwhile f p)) = ka_Patch (ing_api p)"
  "ka_List (ing_api (meanwhile f p)) ns sel w = (case ka_List (ing_api p) ns sel w of (r, v) \<Rightarrow> (r, f v))"
  by (simp_all add: meanwhile_def)

lemma meanwhile_calls [simp]:
  "labelSelector (meanwhile f p) = labelSelector p"
  "applyJSONPatch (meanwhile f p) = applyJSONPatch p"
  "deleteIngress (meanwhile f p) = deleteIngress p"
  "patchAddRule (meanwhile f p) = patchAddRule p"
  "patchRemoveRule (meanwhile f p) = patchRemoveRule p"
  by (simp_all add: fun_eq_iff labelSelector_def applyJSONPatch_def deleteIngress_def patchAddRule_def
      patchRemoveRule_def Let_def)

lemma kept_meanwhile [simp]:
  "kept (meanwhile f p) = kept p" "kept_tls (meanwhile f p) = kept_tls p"
  by (simp_all add: fun_eq_iff kept_def kept_tls_def)

text \<open>The listing is that of before, the rest of the operation sees the changed world.\<close>

lemma listManaged_meanwhile:
  assumes "cluster_ok p objs w"
  shows "bindr (listManagedIngresses (meanwhile f p)) k w = k (managed p objs w) (f w)"
proof (rule bindr_Ret)
  have "ka_List (ing_api p) (ic_namespace (ing_cfg p)) (labelSelector p) w = (Inr (managed p objs w), w)"
    using kube_List [OF cluster_okD(1) [OF assms]] by (simp add: managed_def)
  then show "listManagedIngresses (meanwhile f p) w = (Ret (managed p objs w), f w)"
    by (simp add: listManagedIngresses_def act_defs ext_def)
qed

text \<open>A patch of the only managed Ingress.\<close>

lemma patch_single:
  assumes ok: "cluster_ok p objs w" and one: "managed p objs w = [ing]" and ps: "patched ps ing = Some ing'"
  obtains w' where "applyJSONPatch p (ig_Name ing) ps w = (Ret (), w')" "managed p objs w' = [ing']" "cluster_ok p objs w'"
proof -
  have mem: "ing \<in># objects p objs w" using one by (simp add: objects_def)
  obtain w' where run: "applyJSONPatch p (ig_Name ing) ps w = (Ret (), w')" using patch_runs(2) [OF ok mem ps] by blast
  from patch_objects [OF ok mem this] ps one
  have "mset (managed p objs w') = {#ing'#}" "cluster_ok p objs w'" by (auto simp: objects_def)
  with that run show thesis by (simp add: mset_single_iff_right)
qed

section \<open>The removal of a rule by its index\<close>

text \<open>The position of a rule whose ID occurs once.\<close>

lemma find_rule_at:
  "E r \<notin> E ` set xs \<Longrightarrow> find_rule E (E r) k (xs @ r # ys) = Some (k + length xs)"
  by (induction xs arbitrary: k) auto

lemma find_route_single:
  assumes "ig_Rules ing = xs @ r # ys" "E r \<notin> E ` set xs"
  shows "find_route E (E r) [ing] = Some (ing, length xs)"
  using find_rule_at [OF assms(2), of 0 ys] assms(1) by simp

lemma drop_nth_append [simp]: "drop_nth (length xs) (xs @ r # ys) = xs @ ys"
  by (simp add: drop_nth_def)

lemma deprovision_rest:
  assumes "cluster_ok p objs w" and "managed p objs w = [ing]"
    and "ig_Rules ing = xs @ r # ys" "im_ExtractRouteID (ing_mapper p) r \<notin> im_ExtractRouteID (ing_mapper p) ` set xs"
    and "xs \<noteq> [] \<or> ys \<noteq> []" and "ig_TLS ing = []"
  shows "ing_Deprovision (meanwhile f p) (im_ExtractRouteID (ing_mapper p) r) w =
    wrapr ''patch remove rule'' (applyJSONPatch p (ig_Name ing)
      [\<lparr>jp_Op = ''remove'', jp_Path = rule_path (length xs), jp_Value = PNone\<rparr>]) ret (f w)"
  using assms find_route_single [OF assms(3,4)]
  by (auto simp: ing_Deprovision_def listManaged_meanwhile patchRemoveRule_patch remove_patch_def)

text \<open>Without a change in between it is the rule of the ID that goes.\<close>

lemma meanwhile_id: "meanwhile (\<lambda>v. v) p = p"
  by (simp add: meanwhile_def)

lemma deprovision_single:
  assumes "cluster_ok p objs w" and "managed p objs w = [ing]"
    and "ig_Rules ing = xs @ r # ys" "im_ExtractRouteID (ing_mapper p) r \<notin> im_ExtractRouteID (ing_mapper p) ` set xs"
    and "xs \<noteq> [] \<or> ys \<noteq> []" and "ig_TLS ing = []"
  obtains w' where "ing_Deprovision p (im_ExtractRouteID (ing_mapper p) r) w = (Ret (), w')"
    "managed p objs w' = [ing\<lparr>ig_Rules := xs @ ys\<rparr>]" "cluster_ok p objs w'"
proof -
  have "length xs < length (ig_Rules ing)" "1 < length (ig_Rules ing)" using assms(3,5) by auto
  from patched_remove [OF this] assms(3,6)
  have ps: "patched [\<lparr>jp_Op = ''remove'', jp_Path = rule_path (length xs), jp_Value = PNone\<rparr>] ing =
      Some (ing\<lparr>ig_Rules := xs @ ys\<rparr>)"
    by (simp add: remove_patch_def tls_without_def)
  obtain w' where w': "applyJSONPatch p (ig_Name ing) [\<lparr>jp_Op = ''remove'', jp_Path = rule_path (length xs), jp_Value = PNone\<rparr>] w =
      (Ret (), w')" "managed p objs w' = [ing\<lparr>ig_Rules := xs @ ys\<rparr>]" "cluster_ok p objs w'"
    by (rule patch_single [OF assms(1,2) ps])
  have "ing_Deprovision p (im_ExtractRouteID (ing_mapper p) r) w = (Ret (), w')"
    using deprovision_rest [OF assms, of "\<lambda>v. v"] w'(1) by (simp add: meanwhile_id act_defs)
  from that [OF this w'(2,3)] show thesis .
qed

section \<open>The rules that are written back\<close>

lemma bindr_ret_unit: "bindr m ret = m"
  by (auto simp: fun_eq_iff act_defs split: prod.splits res.splits)

lemma batch_deprovision_rest:
  assumes "cluster_ok p objs w" and "managed p objs w = [ing]" and "partly_hit p (set ids) ing"
  shows "ing_BatchDeprovision (meanwhile f p) ids w =
    wrapr (''patch ingress '' @ ig_Name ing) (applyJSONPatch p (ig_Name ing)
      (replace_patch (kept p (set ids) ing) (kept_tls p (set ids) ing))) ret (f w)"
proof -
  have "kept p (set ids) ing \<noteq> []" "\<exists>r \<in> set (ig_Rules ing). im_ExtractRouteID (ing_mapper p) r \<in> set ids"
    using partly_hit_kept [of p "set ids" ing] assms(3) by auto
  then show ?thesis
    using assms(2) by (simp add: ing_BatchDeprovision_def listManaged_meanwhile [OF assms(1)] prune_cases
        bindr_ret_unit)
qed

text \<open>
  A grouped removal writes the rules it had listed: what was added to the Ingress since is gone,
  and the call reports success.
\<close>

lemma stale_listing_loses_additions:
  assumes ok: "cluster_ok p objs w" and one: "managed p objs w = [ing]" and hit: "partly_hit p (set ids) ing"
    and other: "cluster_ok p objs (f w)" "managed p objs (f w) = [ing2]" "ig_Name ing2 = ig_Name ing"
      "ig_TLS ing2 \<noteq> []" "ig_Rules ing2 \<noteq> []"
  obtains w' where "ing_BatchDeprovision (meanwhile f p) ids w = (Ret (), w')"
    "managed p objs w' = [ing2\<lparr>ig_Rules := kept p (set ids) ing, ig_TLS := kept_tls p (set ids) ing\<rparr>]"
proof -
  have "kept p (set ids) ing \<noteq> []" using partly_hit_kept [of p "set ids" ing] hit by auto
  from patched_replace [OF other(5) this]
  have ps: "patched (replace_patch (kept p (set ids) ing) (kept_tls p (set ids) ing)) ing2 =
      Some (ing2\<lparr>ig_Rules := kept p (set ids) ing, ig_TLS := kept_tls p (set ids) ing\<rparr>)"
    using other(4) by simp
  obtain w' where "applyJSONPatch p (ig_Name ing2) (replace_patch (kept p (set ids) ing) (kept_tls p (set ids) ing)) (f w) =
      (Ret (), w')" "managed p objs w' = [ing2\<lparr>ig_Rules := kept p (set ids) ing, ig_TLS := kept_tls p (set ids) ing\<rparr>]"
    by (rule patch_single [OF other(1,2) ps])
  with batch_deprovision_rest [OF ok one hit, of f] other(3) that show thesis by (simp add: act_defs)
qed

section \<open>The capacity that was seen\<close>

lemma findWithCapacity_meanwhile [simp]: "findWithCapacity (meanwhile f p) ings = findWithCapacity p ings"
  by (induction ings) simp_all

text \<open>
  Two additions that see the same last free place both take it: the bound of
  \<open>ingress_capacity_bound\<close> holds for calls that do not overlap.
\<close>

lemma stale_listing_overfills:
  assumes ok: "cluster_ok p objs w" and one: "managed p objs w = [ing]"
    and last: "int (length (ig_Rules ing)) + 1 = ic_maxRoutesPerIngress (ing_cfg p)"
    and req: "im_MapRule (ing_mapper p) req = Inr rule" "map_tls_of (ing_mapper p) req = Inr None"
      "im_RouteID (ing_mapper p) req \<notin> im_ExtractRouteID (ing_mapper p) ` set (ig_Rules ing)"
    and other: "cluster_ok p objs (f w)" "managed p objs (f w) = [ing2]" "ig_Name ing2 = ig_Name ing"
      "ig_Rules ing2 = ig_Rules ing @ [r]"
  obtains out w' where "ing_Provision (meanwhile f p) req cert w = (Ret out, w')"
    "managed p objs w' = [ing2\<lparr>ig_Rules := ig_Rules ing2 @ [rule]\<rparr>]"
    "ic_maxRoutesPerIngress (ing_cfg p) < int (length (ig_Rules ing2 @ [rule]))"
proof -
  have ne: "ig_Rules ing2 \<noteq> []" using other(4) by simp
  have ps: "patched [add_rule rule] ing2 = Some (ing2\<lparr>ig_Rules := ig_Rules ing2 @ [rule]\<rparr>)"
    using patched_add [OF ne, of "[rule]" "[]"] by simp
  obtain w' where run: "applyJSONPatch p (ig_Name ing2) [add_rule rule] (f w) = (Ret (), w')"
    "managed p objs w' = [ing2\<lparr>ig_Rules := ig_Rules ing2 @ [rule]\<rparr>]"
    by (rule patch_single [OF other(1,2) ps])
  have "find_route (im_ExtractRouteID (ing_mapper p)) (im_RouteID (ing_mapper p) req) [ing] = None"
    using req(3) by (force simp: find_route_None rules_of_def simp del: find_route.simps)
  moreover have "findWithCapacity p [ing] = Some ing" using last by simp
  ultimately have place: "\<exists>out. ing_place (meanwhile f p) req cert rule None [ing] (f w) = (Ret out, w')"
    using run(1) other(3)
    by (simp add: ing_place_def patchAddRule_def act_defs del: find_route.simps findWithCapacity.simps)
  have "ing_Provision (meanwhile f p) req cert w = ing_place (meanwhile f p) req cert rule None [ing] (f w)"
    using req(1,2) by (simp add: ing_Provision_def listManaged_meanwhile [OF ok] one)
  with place that run(2) last other(4) show thesis by auto
qed

section \<open>Properties\<close>

text \<open>
  C32: a deprovision whose listing is stale removes the route of somebody else. When another
  instance removes a route of the same Ingress after the listing, the index points one rule
  further: the call reports success, its own route \<open>b\<close> is still served, and the route \<open>c\<close>, which
  nobody asked to remove, is gone.
\<close>

theorem stale_index_removes_other_route:
  fixes p :: "'w IngressProvisioner" and a b c :: IngressRule
  defines "E \<equiv> im_ExtractRouteID (ing_mapper p)"
  assumes "cluster_ok p objs w" and "managed p objs w = [ing]"
    and "ig_Rules ing = xs @ [a] @ ys @ [b, c] @ zs" and "distinct (map E (ig_Rules ing))" and "ig_TLS ing = []"
  shows "\<exists>w'. ing_Deprovision (meanwhile (\<lambda>v. snd (ing_Deprovision p (E a) v)) p) (E b) w = (Ret (), w') \<and>
    managed p objs w' = [ing\<lparr>ig_Rules := xs @ ys @ [b] @ zs\<rparr>]"
proof -
  have "E a \<notin> E ` set xs" using assms(4,5) by auto
  then obtain v where v: "ing_Deprovision p (E a) w = (Ret (), v)"
    "managed p objs v = [ing\<lparr>ig_Rules := xs @ ys @ [b, c] @ zs\<rparr>]" "cluster_ok p objs v"
    using assms(4) deprovision_single [OF assms(2,3), of xs a "ys @ [b, c] @ zs"] assms(6) unfolding E_def by auto
  let ?ing = "ing\<lparr>ig_Rules := xs @ ys @ [b, c] @ zs\<rparr>"
  have rules: "ig_Rules ?ing = (xs @ ys @ [b]) @ c # zs" and pos: "length (xs @ a # ys) = length (xs @ ys @ [b])" by simp_all
  have "patched (remove_patch ?ing (length (xs @ ys @ [b]))) ?ing = Some (?ing\<lparr>ig_Rules := (xs @ ys @ [b]) @ zs\<rparr>)"
    using assms(6) by (subst patched_remove) (simp_all only: rules drop_nth_append, simp_all add: tls_without_def)
  then have ps: "patched [\<lparr>jp_Op = ''remove'', jp_Path = rule_path (length (xs @ a # ys)), jp_Value = PNone\<rparr>] ?ing =
      Some (?ing\<lparr>ig_Rules := (xs @ ys @ [b]) @ zs\<rparr>)"
    using assms(6) by (simp add: remove_patch_def pos del: append_assoc)
  obtain w' where w': "applyJSONPatch p (ig_Name ?ing)
      [\<lparr>jp_Op = ''remove'', jp_Path = rule_path (length (xs @ a # ys)), jp_Value = PNone\<rparr>] v = (Ret (), w')"
    "managed p objs w' = [?ing\<lparr>ig_Rules := (xs @ ys @ [b]) @ zs\<rparr>]"
    by (rule patch_single [OF v(3,2) ps])
  have "E b \<notin> E ` set (xs @ a # ys)" using assms(4,5) by auto
  from deprovision_rest [OF assms(2,3) _ this [unfolded E_def], of "c # zs"] assms(4,6) w' v(1)
  show ?thesis unfolding E_def by (simp add: act_defs)
qed

theorem stale_index_removes_other_route_witness:
  "\<exists>w'. ing_Deprovision (meanwhile (\<lambda>v. snd (ing_Deprovision demo ''routes-a'' v)) demo) ''routes-b''
      [demo_ing 0 [''a'', ''b'', ''c''] []] = (Ret (), w') \<and>
    map (\<lambda>i. map ir_Host (ig_Rules i)) (managed demo (\<lambda>os. os) w') = [[''b'']]"
proof -
  have "cluster_ok demo (\<lambda>os. os) [demo_ing 0 [''a'', ''b'', ''c''] []]" by (simp add: demo_cluster_ok)
  from stale_index_removes_other_route [OF this demo_managed, of "[]" "demo_rule ''a''" "[]" "demo_rule ''b''"
      "demo_rule ''c''" "[]"]
  show ?thesis by (auto simp: app_ExtractRouteID_def)
qed

end
