(* ===== verification/EventFlow.thy ===== *)
theory EventFlow
  imports Convergence SourceMongo
begin

text \<open>
  An event from its source to the gateway: what becomes of the deletion of a MongoDB document on
  the way through the mapper, the orchestrator and the Ingress provisioner.
\<close>

lemma app_ExtractRouteID_prefix: "take 7 (app_ExtractRouteID rule) = ''routes-''"
  by (simp add: app_ExtractRouteID_def)

lemma ing_Deprovision_unknown:
  assumes "cluster_ok p objs w" and "\<forall>rule. im_ExtractRouteID (ing_mapper p) rule \<noteq> i"
  shows "ing_Deprovision p i w = (Ret (), w)"
proof -
  have "find_route (im_ExtractRouteID (ing_mapper p)) i (managed p objs w) = None"
    using assms(2) by (simp add: find_route_None)
  then show ?thesis by (simp add: ing_Deprovision_def listManaged_bind [OF assms(1)])
qed

text \<open>
  C36: the deletion of a document does not remove its route, however the driver decodes the change.
  With embedded documents as \<open>bson.D\<close>, as the client of \<open>main\<close> has them, there is no event. With
  \<open>bson.M\<close> the event carries the identity of the document only, which is not the ID of a rule (all
  of these begin with \<open>routes-\<close>), so that the handler returns without error and without any change.
\<close>

theorem mongo_deletion_leaves_route:
  assumes "cluster_ok p objs w" and "ing_mapper p = app_mapper m"
    and "map_of ce ''operationType'' = Some (RStr ''delete'')" and "map_of ce ''documentKey'' = Some (RDoc key)"
    and "take 7 (ue_fmt_v ue (bget (decode_M dm key) ''_id'')) \<noteq> ''routes-''"
  shows "if dm then \<exists>ev. mm_MapEvent ue mm now (decode_M dm ce) = Inr (Some ev) \<and> ev_Type ev = EventRouteDeleted \<and>
      handleEvent iss (ingress_provisioner p) ev w = (Ret (), w)
    else mm_MapEvent ue mm now (decode_M dm ce) = Inr None"
proof (cases dm)
  case True
  let ?i = "ue_fmt_v ue (bget (decode_M dm key) ''_id'')"
  let ?ev = "\<lparr>ev_Type = EventRouteDeleted, ev_Route = zero_RouteRequest\<lparr>rr_ID := ?i\<rparr>, ev_RawData = ''''\<rparr>"
  have "im_ExtractRouteID (ing_mapper p) rule \<noteq> ?i" for rule
    using assms(2,5) app_ExtractRouteID_prefix [of rule] by (auto simp: app_mapper_def)
  then have "ing_Deprovision p ?i w = (Ret (), w)" by (intro ing_Deprovision_unknown [OF assms(1)]) blast
  then have "handleEvent iss (ingress_provisioner p) ?ev w = (Ret (), w)"
    by (simp add: handleEvent_def deprovisionRoute_def ingress_provisioner_def)
  moreover have "mm_MapEvent ue mm now (decode_M dm ce) = Inr (Some ?ev)"
    using assms(3,4) True by (simp add: mm_MapEvent_def mm_MapDelete_def bstr_decode_M bdoc_decode_M)
  ultimately show ?thesis using True by auto
qed (simp add: MapEvent_skips)

text \<open>The rule of the deleted document stays in its Ingress.\<close>

definition example_deletion :: "(string \<times> raw_bson) list" where
  "example_deletion = [(''operationType'', RStr ''delete''), (''documentKey'', RDoc [(''_id'', RStr ''1'')])]"

theorem mongo_deletion_leaves_route_witness:
  "(\<exists>ev. mm_MapEvent example_url example_mongo 7 (decode_M True example_deletion) = Inr (Some ev) \<and>
    ev_Type ev = EventRouteDeleted \<and>
    handleEvent none_issuer (ingress_provisioner IngressProperties.demo) ev [demo_ing 0 [''a''] []] = (Ret (), [demo_ing 0 [''a''] []])) \<and>
   mm_MapEvent example_url example_mongo 7 (decode_M False example_deletion) = Inr None"
proof -
  have "ing_mapper IngressProperties.demo = app_mapper \<lparr>am_SecretNameFunc = DefaultSecretName, am_IngressClassName = '''',
     am_ExtraAnnotations = Map.empty\<rparr>"
    by (simp add: IngressProperties.demo_def)
  moreover have "map_of example_deletion ''operationType'' = Some (RStr ''delete'')"
    "map_of example_deletion ''documentKey'' = Some (RDoc [(''_id'', RStr ''1'')])"
    by (simp_all add: example_deletion_def)
  moreover have "cluster_ok IngressProperties.demo (\<lambda>os. os) [demo_ing 0 [''a''] []]" by (simp add: demo_cluster_ok)
  moreover have "take 7 (ue_fmt_v example_url (bget (decode_M dm [(''_id'', RStr ''1'')]) ''_id'')) \<noteq> ''routes-''" for dm
    by (simp add: bget_def example_url_def)
  ultimately show ?thesis
    using mongo_deletion_leaves_route [of IngressProperties.demo "\<lambda>os. os" "[demo_ing 0 [''a''] []]" _ example_deletion _ example_url True]
      mongo_deletion_leaves_route [of IngressProperties.demo "\<lambda>os. os" "[demo_ing 0 [''a''] []]" _ example_deletion _ example_url False]
    by simp
qed

end
