(* ===== verification/NetscalerProperties.thy ===== *)
theory NetscalerProperties
  imports NetscalerMapping
begin

text \<open>
  The requests that the operations of the Netscaler mapper become, and the properties of the
  Netscaler provisioner. Nothing is assumed of what the appliance accepts.
\<close>

section \<open>The requests of a route\<close>

text \<open>The resource type and the members of the payload of a POST.\<close>

type_synonym nitro_post = "string \<times> (string \<times> json) list"

definition file_post :: "string \<Rightarrow> string \<Rightarrow> nitro_post" where
  "file_post n content = (''systemfile'',
     [(''name'', JStr n), (''filename'', JStr n), (''filelocation'', JStr ''/nsconfig/ssl''),
      (''filecontent'', JStr (EncodeToString content)), (''fileencoding'', JStr ''BASE64'')])"

definition cert_posts :: "string \<Rightarrow> Certificate \<Rightarrow> nitro_post list" where
  "cert_posts i c =
     [file_post (i @ ''.crt'') (crt_CertPEM c), file_post (i @ ''.key'') (crt_KeyPEM c),
      (''sslcertkey'', [(''name'', JStr (i @ ''-cert'')), (''cert'', JStr (''/nsconfig/ssl/'' @ i @ ''.crt'')),
         (''key'', JStr (''/nsconfig/ssl/'' @ i @ ''.key''))])]"

definition backend_posts :: "string \<Rightarrow> nat \<Rightarrow> Backend \<Rightarrow> nitro_post list" where
  "backend_posts i k b =
     [(''service'', [(''name'', JStr (svc_name i k)), (''servername'', JStr (be_ServiceName b)), (''port'', JNum (be_Port b)),
         (''servicetype'', JStr ''HTTP'')]),
      (''lbvserver_service_binding'', [(''name'', JStr i), (''servicename'', JStr (svc_name i k)), (''weight'', JNum (be_Weight b))])]"

definition cert_binding_post :: "string \<Rightarrow> nitro_post" where
  "cert_binding_post i = (''sslvserver_sslcertkey_binding'', [(''name'', JStr i), (''certkeyname'', JStr (i @ ''-cert''))])"

definition route_posts :: "RouteRequest \<Rightarrow> Certificate option \<Rightarrow> nitro_post list" where
  "route_posts req cert =
     (let i = ''routes-'' @ ReplaceAll1 (rr_Host req) CHR ''.'' ''-'' in
      (case cert of None \<Rightarrow> [] | Some c \<Rightarrow> cert_posts i c) @
      [(''lbvserver'', [(''name'', JStr i), (''servicetype'', JStr ''SSL''), (''ipv46'', JStr ''0.0.0.0''), (''port'', JNum 443),
         (''lbmethod'', JStr ''ROUNDROBIN'')])] @
      concat (map (\<lambda>(k, b). backend_posts i k b) (enumerate 0 (rr_Backends req))) @
      (if cert = None then [] else [cert_binding_post i]))"

text \<open>
  The posts sent one after the other to whatever appliance there is: the number of those it
  accepted, whether that was all of them, and the state of the world.
\<close>

fun post_all :: "'w NitroClient \<Rightarrow> nitro_post list \<Rightarrow> 'w \<Rightarrow> nat \<times> bool \<times> 'w" where
  "post_all c [] w = (0, True, w)"
| "post_all c ((t, kvs) # posts) w =
     (if nc_NewRequest c (nitro_url c @ t) \<noteq> None then (0, False, w)
      else case nc_Do c (nitro_request c ''POST'' (nitro_url c @ t) (Some (JObj [(t, JObj kvs)]))) w of
        (Inl e, w') \<Rightarrow> (0, False, w')
      | (Inr rp, w') \<Rightarrow>
          if 400 \<le> rp_StatusCode rp then (0, False, w')
          else (case post_all c posts w' of (n, ok, w'') \<Rightarrow> (Suc n, ok, w'')))"

section \<open>The order of the requests\<close>

text \<open>
  The objects, by type and name, that a payload names: the one it creates, if it is not a binding,
  and those it refers to. A file is referred to by its path.
\<close>

definition member_str :: "(string \<times> json) list \<Rightarrow> string \<Rightarrow> string" where
  "member_str kvs k = (case map_of kvs k of Some (JStr s) \<Rightarrow> s | _ \<Rightarrow> '''')"

definition creates :: "nitro_post \<Rightarrow> (string \<times> string) set" where
  "creates = (\<lambda>(t, kvs). if t \<in> {''lbvserver_service_binding'', ''sslvserver_sslcertkey_binding''} then {}
     else {(t, member_str kvs ''name'')})"

definition file_of_path :: "string \<Rightarrow> string" where
  "file_of_path path = drop (length ''/nsconfig/ssl/'') path"

definition refers :: "nitro_post \<Rightarrow> (string \<times> string) set" where
  "refers = (\<lambda>(t, kvs).
     if t = ''service'' then {(''server'', member_str kvs ''servername'')}
     else if t = ''lbvserver_service_binding''
     then {(''lbvserver'', member_str kvs ''name''), (''service'', member_str kvs ''servicename'')}
     else if t = ''sslvserver_sslcertkey_binding''
     then {(''lbvserver'', member_str kvs ''name''), (''sslcertkey'', member_str kvs ''certkeyname'')}
     else if t = ''sslcertkey''
     then {(''systemfile'', file_of_path (member_str kvs ''cert'')), (''systemfile'', file_of_path (member_str kvs ''key''))}
     else {})"

text \<open>From the objects \<open>S\<close> on, every request refers to objects that are there and creates a new one.\<close>

fun well_ordered :: "(string \<times> string) set \<Rightarrow> nitro_post list \<Rightarrow> bool" where
  "well_ordered S [] \<longleftrightarrow> True"
| "well_ordered S (p # ps) \<longleftrightarrow> refers p \<subseteq> S \<and> creates p \<inter> S = {} \<and> well_ordered (S \<union> creates p) ps"

definition servers_of :: "RouteRequest \<Rightarrow> (string \<times> string) set" where
  "servers_of req = (\<lambda>b. (''server'', be_ServiceName b)) ` set (rr_Backends req)"

lemmas post_defs = creates_def refers_def member_str_def file_of_path_def file_post_def cert_binding_post_def

lemma well_ordered_append:
  "well_ordered S (ps @ qs) \<longleftrightarrow> well_ordered S ps \<and> well_ordered (S \<union> (\<Union>p \<in> set ps. creates p)) qs"
  by (induction ps arbitrary: S) (auto simp: Un_assoc)

lemma svc_name_inj [simp]: "svc_name i k = svc_name i l \<longleftrightarrow> k = l"
  by (simp add: svc_name_def)

lemma backends_ordered:
  assumes "(''lbvserver'', i) \<in> S" "(\<lambda>b. (''server'', be_ServiceName b)) ` set bs \<subseteq> S" "\<forall>l \<ge> k. (''service'', svc_name i l) \<notin> S"
  shows "well_ordered S (concat (map (\<lambda>(k, b). backend_posts i k b) (enumerate k bs)))"
  using assms
proof (induction bs arbitrary: k S)
  case (Cons b bs)
  then have "well_ordered (insert (''service'', svc_name i k) S) (concat (map (\<lambda>(k, b). backend_posts i k b) (enumerate (Suc k) bs)))"
    by (intro Cons.IH) auto
  with Cons.prems show ?case by (simp add: backend_posts_def post_defs)
qed simp

lemma backends_create:
  "(\<Union>p \<in> set (concat (map (\<lambda>(k, b). backend_posts i k b) (enumerate k bs))). creates p) \<subseteq> {''service''} \<times> UNIV"
  by (auto simp: backend_posts_def post_defs)

lemma route_posts_ordered: "well_ordered (servers_of req) (route_posts req cert)"
proof -
  define i where "i = ''routes-'' @ ReplaceAll1 (rr_Host req) CHR ''.'' ''-''"
  let ?bs = "concat (map (\<lambda>(k, b). backend_posts i k b) (enumerate 0 (rr_Backends req)))"
  let ?v = "(''lbvserver'', [(''name'', JStr i), (''servicetype'', JStr ''SSL''), (''ipv46'', JStr ''0.0.0.0''), (''port'', JNum 443),
         (''lbmethod'', JStr ''ROUNDROBIN'')])"
  let ?S = "\<lambda>C. insert (''lbvserver'', i) (servers_of req \<union> C)"
  have main: "well_ordered (servers_of req \<union> C) ([?v] @ ?bs)"
    if "C \<subseteq> {''systemfile'', ''sslcertkey''} \<times> UNIV" for C
  proof -
    have "well_ordered (?S C) ?bs"
      by (rule backends_ordered) (use that in \<open>auto simp: servers_of_def\<close>)
    then show ?thesis using that by (auto simp: post_defs servers_of_def)
  qed
  have posts: "route_posts req cert = (case cert of None \<Rightarrow> [] | Some c \<Rightarrow> cert_posts i c) @ [?v] @ ?bs @
      (if cert = None then [] else [cert_binding_post i])"
    by (simp only: route_posts_def Let_def i_def)
  show ?thesis
  proof (cases cert)
    case None
    then show ?thesis using main [of "{}"] posts by simp
  next
    case (Some c)
    let ?C = "{(''systemfile'', i @ ''.crt''), (''systemfile'', i @ ''.key''), (''sslcertkey'', i @ ''-cert'')}"
    have "well_ordered (servers_of req) (cert_posts i c)"
      by (auto simp: cert_posts_def post_defs servers_of_def)
    moreover have "(\<Union>p \<in> set (cert_posts i c). creates p) = ?C" by (auto simp: cert_posts_def post_defs)
    moreover have "well_ordered (servers_of req \<union> ?C) ([?v] @ ?bs)" by (rule main) auto
    moreover have "well_ordered (servers_of req \<union> ?C \<union> (\<Union>p \<in> set ([?v] @ ?bs). creates p)) [cert_binding_post i]"
      by (auto simp: post_defs)
    moreover have "route_posts req cert = cert_posts i c @ ([?v] @ ?bs) @ [cert_binding_post i]"
      using Some posts by simp
    ultimately show ?thesis by (simp only: well_ordered_append)
  qed
qed

section \<open>The operations are these requests\<close>

text \<open>The request of an operation that is sent as a POST.\<close>

definition post_of :: "NitroOperation \<Rightarrow> nitro_post" where
  "post_of opn = (nr_Type (no_Resource opn), foldl (\<lambda>m kv. AList.update (fst kv) (snd kv) m)
     [(''name'', JStr (nr_Name (no_Resource opn)))] (nr_Properties (no_Resource opn)))"

definition posted :: "NitroOperation \<Rightarrow> bool" where
  "posted opn \<longleftrightarrow> no_Action opn \<in> {ActionAdd, ActionBind, ActionUnbind}"

lemma Execute_posted:
  assumes "posted opn"
  shows "Execute c opn = doPost c (no_Resource opn)"
  using assms by (auto simp: posted_def Execute_def action_defs fun_eq_iff)

lemma exec_ops_posts:
  assumes "\<forall>opn \<in> set ops. posted opn"
  shows "case post_all c (map post_of ops) w of (n, ok, w') \<Rightarrow>
    if ok then exec_ops c k ops w = (Ret (), w') else (\<exists>e. exec_ops c k ops w = (Fail e, w'))"
  using assms
proof (induction ops arbitrary: k w)
  case (Cons opn ops)
  obtain t kvs where p: "post_of opn = (t, kvs)" by fastforce
  have E: "Execute c opn = nitro_do c ''POST'' (nitro_url c @ t) (Some (JObj [(t, JObj kvs)]))"
    using Cons.prems p by (simp add: Execute_posted doPost_def buildPayload_def post_of_def fun_eq_iff)
  show ?case
  proof (cases "nc_NewRequest c (nitro_url c @ t)")
    case None
    obtain r v where r: "nc_Do c (nitro_request c ''POST'' (nitro_url c @ t) (Some (JObj [(t, JObj kvs)]))) w = (r, v)"
      by fastforce
    consider e where "r = Inl e" | rp where "r = Inr rp" "400 \<le> rp_StatusCode rp" | rp where "r = Inr rp" "\<not> 400 \<le> rp_StatusCode rp"
      by (cases r) auto
    then show ?thesis
    proof cases
      case 3
      then have "Execute c opn w = (Ret (), v)" using E None r by (simp add: nitro_do_def send_request_def)
      with Cons.IH [of "Suc k" v] Cons.prems 3 None r p show ?thesis by (auto split: prod.splits)
    qed (use E None r p in \<open>simp_all add: nitro_do_def send_request_def\<close>)
  qed (use E p in \<open>simp add: nitro_do_def send_request_def\<close>)
qed simp

lemma backend_ops_posts:
  "map post_of (nm_backend_ops i k bs) = concat (map (\<lambda>(k, b). backend_posts i k b) (enumerate k bs))"
  by (induction bs arbitrary: k) (simp_all add: backend_posts_def post_of_def nop_def)

lemma nm_MapProvision_posts:
  assumes "nm_MapProvision req cert = Inr ops"
  shows "map post_of ops = route_posts req cert" "\<forall>opn \<in> set ops. posted opn"
proof -
  have b: "\<forall>opn \<in> set (nm_backend_ops i k bs). posted opn" for i k bs
    by (induction bs arbitrary: k) (simp_all add: posted_def nop_def)
  have ops: "ops = nm_cert_ops (nm_RouteID req) cert @ [nm_vserver_op (nm_RouteID req)] @
      nm_backend_ops (nm_RouteID req) 0 (rr_Backends req) @ nm_bind_cert_ops (nm_RouteID req) cert"
    using assms by (simp add: nm_MapProvision_def Let_def)
  show "map post_of ops = route_posts req cert"
    unfolding ops map_append backend_ops_posts route_posts_def Let_def nm_RouteID_def
    by (cases cert) (simp_all add: nm_cert_ops_def nm_file_op_def cert_posts_def file_post_def nm_vserver_op_def
        nm_bind_cert_ops_def cert_binding_post_def post_of_def nop_def)
  show "\<forall>opn \<in> set ops. posted opn"
    unfolding ops using b by (cases cert) (auto simp: nm_cert_ops_def nm_file_op_def nm_vserver_op_def nm_bind_cert_ops_def
        posted_def nop_def)
qed

section \<open>Removing a route\<close>

definition unbind_op :: "string \<Rightarrow> NitroOperation" where
  "unbind_op i = nop ActionUnbind ''sslvserver_sslcertkey_binding'' i [(''certkeyname'', JStr (i @ ''-cert''))]"

text \<open>
  \<open>Deprovision\<close> begins with the request that binds the certificate, not with one that unbinds it: it
  is the last request of \<open>Provision\<close>. When the appliance refuses it, nothing else is sent.
\<close>

lemma deprovision_binds_first:
  "\<exists>ops. nm_MapDeprovision i = Inr (unbind_op i # ops) \<and> post_of (unbind_op i) = cert_binding_post i \<and>
    Execute c (unbind_op i) = Execute c (nop ActionBind ''sslvserver_sslcertkey_binding'' i [(''certkeyname'', JStr (i @ ''-cert''))])"
  by (simp add: nm_MapDeprovision_def unbind_op_def post_of_def cert_binding_post_def nop_def Execute_def action_defs fun_eq_iff)

section \<open>A sequence that fails\<close>

lemma exec_ops_append:
  "exec_ops c k pre w = (Ret (), w') \<Longrightarrow> exec_ops c k (pre @ ops) w = exec_ops c (k + length pre) ops w'"
proof (induction pre arbitrary: k w)
  case Nil
  then show ?case by simp
next
  case (Cons opn pre)
  then obtain v where "Execute c opn w = (Ret (), v)" "exec_ops c (Suc k) pre v = (Ret (), w')"
    by (auto elim!: wrapr_RetD)
  with Cons.IH [of "Suc k" v] show ?case by simp
qed

text \<open>A failing operation: the earlier ones stay applied, the later ones are not sent.\<close>

lemma netscaler_provision_stops:
  assumes "rm_MapProvision (ns_mapper p) req cert = Inr (pre @ opn # post)"
    and "exec_ops (ns_client p) 0 pre w = (Ret (), w1)"
    and "Execute (ns_client p) opn w1 = (Fail e, w2)"
  shows "ns_Provision p req cert w = (Fail (ErrWrap (op_failed (length pre) opn) e), w2)"
  using assms exec_ops_append [OF assms(2), of "opn # post"] by (simp add: ns_Provision_def)

text \<open>\<open>BatchProvision\<close> is one request with the operations of the single calls in order.\<close>

lemma netscaler_batch_is_one_request:
  assumes "map (\<lambda>r. nm_MapProvision r (certs (rr_Host r))) routes = map Inr opss"
  shows "ns_BatchProvision \<lparr>ns_client = c, ns_mapper = netscaler_mapper\<rparr> routes certs w =
    wrapr ''batch execute failed'' (BatchExecute c (concat opss))
      (\<lambda>_. ret (map (\<lambda>r. ns_route \<lparr>ns_client = c, ns_mapper = netscaler_mapper\<rparr> r (certs (rr_Host r))) routes)) w"
  using nm.batch_is_one_request [of "\<lparr>ns_client = c, ns_mapper = netscaler_mapper\<rparr>" certs routes opss] assms
  by (simp add: netscaler_mapper_def)

section \<open>Routes without hosts\<close>

lemma ns_List_no_hosts: "ns_List p w = (Ret as, w') \<Longrightarrow> \<forall>a \<in> set as. pr_Host a = ''''"
  by (auto simp: ns_List_def ns_listed_def elim!: wrapr_RetD split: prod.splits)

lemma diff_no_hosts:
  assumes "\<forall>a \<in> set as. pr_Host a = ''''" and "\<forall>d \<in> set ds. rr_Host d \<noteq> ''''"
  shows "diff ds as = (ds, map pr_RouteID as)"
proof -
  have "filter (\<lambda>d. rr_Host d \<notin> pr_Host ` set as) ds = ds"
    "filter (\<lambda>a. pr_Host a \<notin> rr_Host ` set ds) as = as"
    using assms by (auto intro!: filter_eq_self)
  then show ?thesis by (simp only: diff_eq)
qed

section \<open>Properties\<close>

text \<open>
  C18: \<open>Provision\<close> posts exactly the resources of the route, with these payloads, and stops at the
  first request that cannot be sent or that the appliance refuses; it returns nil exactly when all
  were accepted. Their order is such that each request creates an object not created before and
  refers only to objects of earlier requests, and the services to servers of the names of the
  backends, which \<open>Provision\<close> does not create.
\<close>

theorem netscaler_provision_posts:
  "(case post_all c (route_posts req cert) w of (n, ok, w') \<Rightarrow>
      if ok then ns_Provision \<lparr>ns_client = c, ns_mapper = netscaler_mapper\<rparr> req cert w =
        (Ret (Some (ns_route \<lparr>ns_client = c, ns_mapper = netscaler_mapper\<rparr> req cert)), w')
      else (\<exists>e. ns_Provision \<lparr>ns_client = c, ns_mapper = netscaler_mapper\<rparr> req cert w = (Fail e, w'))) \<and>
   well_ordered (servers_of req) (route_posts req cert)"
proof
  obtain ops where ops: "nm_MapProvision req cert = Inr ops" by (simp add: nm_MapProvision_def Let_def)
  note posts = nm_MapProvision_posts [OF ops]
  from exec_ops_posts [OF posts(2), of c 0 w] posts(1) ops
  show "case post_all c (route_posts req cert) w of (n, ok, w') \<Rightarrow>
      if ok then ns_Provision \<lparr>ns_client = c, ns_mapper = netscaler_mapper\<rparr> req cert w =
        (Ret (Some (ns_route \<lparr>ns_client = c, ns_mapper = netscaler_mapper\<rparr> req cert)), w')
      else (\<exists>e. ns_Provision \<lparr>ns_client = c, ns_mapper = netscaler_mapper\<rparr> req cert w = (Fail e, w'))"
    by (auto simp: ns_Provision_def netscaler_mapper_def split: prod.splits if_splits)
  show "well_ordered (servers_of req) (route_posts req cert)" by (rule route_posts_ordered)
qed

text \<open>
  C35: \<open>List\<close> reports no host, so that a reconciliation never finds the gateway in sync: every
  cycle first removes every route that the appliance lists, and then issues a certificate for
  and provisions every desired route anew, whatever the appliance has.
\<close>

theorem netscaler_never_in_sync:
  assumes "des_List des w = (Ret ds, w1)" and "ns_List p w1 = (Ret as, w2)" and "\<forall>d \<in> set ds. rr_Host d \<noteq> ''''"
  shows "Reconcile des iss (netscaler_provisioner p) w =
    bindr (remove_stale (netscaler_provisioner p) (map pr_RouteID as)) (\<lambda>_.
    bindr (issue_certs iss ds Map.empty) (\<lambda>certs.
      if ds \<noteq> [] then bindr (ns_BatchProvision p ds certs) (\<lambda>_. ret ()) else ret ())) w2"
  using diff_no_hosts [OF ns_List_no_hosts [OF assms(2)] assms(3)] assms(1,2)
  by (simp add: Reconcile_def netscaler_provisioner_def cong: if_cong)

text \<open>
  The two files that are uploaded for a certificate decode to its two PEM blocks, under
  the names that the certificate object refers to.
\<close>

lemma uploads_decode:
  "map (\<lambda>opn. (nr_Name (no_Resource opn), b64_decode (member_str (nr_Properties (no_Resource opn)) ''filecontent'')))
      (take 2 (nm_cert_ops i (Some c))) =
    [(i @ ''.crt'', crt_CertPEM c), (i @ ''.key'', crt_KeyPEM c)]"
  by (simp add: nm_cert_ops_def nm_file_op_def nop_def member_str_def b64_roundtrip)

section \<open>Instances\<close>

definition demo_req :: RouteRequest where
  "demo_req = zero_RouteRequest\<lparr>rr_ID := ''1'', rr_Host := ''a.b'', rr_TLS := True,
     rr_Backends := [\<lparr>be_ServiceName = ''svc'', be_Port = 80, be_Weight = 1\<rparr>]\<rparr>"

lemma demo_req_simps [simp]:
  "nm_RouteID demo_req = ''routes-a-b''" "rr_Host demo_req = ''a.b''"
  "rr_Backends demo_req = [\<lparr>be_ServiceName = ''svc'', be_Port = 80, be_Weight = 1\<rparr>]"
  by (simp_all add: nm_RouteID_def demo_req_def)

text \<open>A server that answers the first request with 201 and every later one with 409, and lists one route.\<close>

definition demo_client :: "nat NitroClient" where
  "demo_client = \<lparr>nc_endpoint = ''h'', nc_username = ''u'', nc_password = ''p'', nc_NewRequest = (\<lambda>_. None),
     nc_Do = (\<lambda>rq n. (Inr \<lparr>rp_StatusCode = (if n = 0 then 201 else 409), rp_Body = ''b''\<rparr>, Suc n)),
     nc_Parse = (\<lambda>s. Inr (JObj [(''lbvserver'', JArr [JObj [(''name'', JStr ''routes-a-b'')]])]))\<rparr>"

definition demo_ns :: "nat NetscalerProvisioner" where
  "demo_ns = \<lparr>ns_client = demo_client, ns_mapper = netscaler_mapper\<rparr>"

definition demo_desired :: "nat DesiredStateProvider" where
  "demo_desired = \<lparr>des_List = ret [demo_req], des_Name = ''demo''\<rparr>"

definition demo_failing :: "nat Issuer" where
  "demo_failing = \<lparr>iss_Issue = \<lambda>r. fail ErrNotFound, iss_Revoke = \<lambda>c. ret (), iss_Name = ''demo''\<rparr>"

theorem netscaler_never_in_sync_witness:
  "Reconcile demo_desired demo_failing (netscaler_provisioner demo_ns) 0 =
     bindr (remove_stale (netscaler_provisioner demo_ns) [''routes-a-b'']) (\<lambda>_.
     bindr (issue_certs demo_failing [demo_req] Map.empty) (\<lambda>certs.
       bindr (ns_BatchProvision demo_ns [demo_req] certs) (\<lambda>_. ret ()))) 1"
proof -
  have "ns_List demo_ns 0 = (Ret [\<lparr>pr_RouteID = ''routes-a-b'', pr_Host = '''', pr_GatewayID = ''h'',
      pr_CertificateID = '''', pr_Status = ''active'', pr_ProviderName = ns_Name\<rparr>], 1)"
    by (simp add: ns_List_def demo_ns_def netscaler_mapper_def nm_MapList_def nitro_List_def
        send_request_def demo_client_def decode_map_def json_get_def ns_listed_def listed_name_def)
  from netscaler_never_in_sync [OF _ this, of demo_desired 0 "[demo_req]" demo_failing] show ?thesis
    by (simp add: demo_desired_def)
qed

end
