(* ===== verification/Spec2Isabelle.thy ===== *)
theory Spec2Isabelle
  imports ElectedRun Boot Fleet IngressRaces EventFlow NetscalerProperties
begin

text \<open>
  Verification library of the dynamic route provisioner.

  \<^bold>\<open>The program.\<close> A route (a host with its backends) is desired when a source says so; the program
  makes a gateway serve it, with a certificate when it asks for TLS. A source reports changes as
  events (a trigger) and can list all desired routes; an issuer makes certificates, possibly
  behind a store that caches them; a provisioner writes routes to a gateway. The orchestrator
  handles the events of the trigger one at a time (certificate, then gateway), and a reconciler
  compares, at the start and periodically, the desired routes with those of the gateway and
  applies the difference. With leader election all of this happens only while this instance
  leads. \<open>cmd/routes-provisioner/main.go\<close> connects the parts as the configuration says.

  \<^bold>\<open>How it is modelled.\<close> A call that acts on the world is a function from the world to a result
  and the next world (\<open>act\<close> in \<open>Prelude\<close>); the result is a value, an error or a panic, so that
  every early return and every nil dereference of the source is a branch. Interface values are
  records of such functions, and what a client relies on of them is a locale in the theory of the
  interface, interpreted on the code's own implementations. Concurrency is a step relation on a
  state with the program counters of the goroutines. Go strings and byte slices are lists of
  bytes; integers are unbounded except where the code narrows them (\<open>to_int32\<close> of a service port)
  or saturates (\<open>time_Until\<close>); times and durations are nanoseconds. Libraries and services
  outside the repository (the Kubernetes, MongoDB, Vault, Nitro and ACME clients, the file
  system, \<open>crypto\<close>, \<open>encoding/json\<close>, Viper) are fields of parameter records; where a property
  relies on their documented behaviour, this is a hypothesis with a concrete instance in the
  witness (\<open>cluster_ok\<close>, \<open>secrets_ok\<close>, \<open>rfc3339_ok\<close>, \<open>files_ok\<close>, \<open>lease_store\<close>,
  \<open>services_up\<close>, \<open>kv_ok\<close>). These describe a healthy service without other writers, except where a
  property says otherwise; nothing is assumed of the Nitro appliance. How the MongoDB driver decodes
  embedded documents is a parameter (\<open>decoded\<close>); \<open>main\<close> leaves the option at its default, under
  which the second version of the driver makes them \<open>bson.D\<close> (\<open>main_DefaultDocumentM\<close>).

  \<^bold>\<open>Theories, in the order of the code.\<close>
  \<^item> \<open>Prelude\<close>: results, errors and calls; strings and numbers of Go; shared lemmas.
  \<^item> \<open>Core\<close>: \<open>core/route.go\<close> and the interfaces of \<open>core\<close>, with the contracts \<open>nonnil_issuer\<close>,
    \<open>host_issuer\<close> and \<open>route_provisioner\<close>. \<open>Reconciler\<close>: \<open>diff\<close> and \<open>Reconcile\<close>, their exact results,
    and convergence from the contracts (\<open>reconcile_env\<close>). \<open>Orchestrator\<close>: the event handler, and
    the event loop, the periodic reconciliations and their mutex over all leadership terms.
    \<open>Composites\<close>: composite sources and triggers, the Kubernetes elector, the text log handler.
  \<^item> Gateways. \<open>LogProvisioner\<close>: routes in memory. \<open>KubeIngress\<close> (API objects and JSON patches),
    \<open>IngressMapping\<close> (the application's mapper), \<open>IngressProvisioner\<close> and \<open>IngressBatch\<close> (the
    operations), \<open>IngressPatches\<close>, \<open>IngressCorrect\<close>, \<open>IngressEffects\<close>, \<open>IngressPacking\<close> (what
    patches, lookups, single operations and packing do to the rules), \<open>IngressContract\<close> (the
    contract of a provisioner), \<open>IngressProperties\<close>, \<open>IngressInvariants\<close> (what any sequence of
    calls keeps, those included that fail half way; the locale \<open>bucket_law\<close>), \<open>IngressRaces\<close> (what a
    second writer between the listing and the patch does), \<open>IngressInterference\<close> (what the operations
    keep while others write between any two of their requests and requests get lost; the locale
    \<open>shared_ingresses\<close>). \<open>Nitro\<close> (client and provisioner),
    \<open>NetscalerMapping\<close> (the operations of a route, base64), \<open>NetscalerProperties\<close> (the requests that
    these operations are on the wire, and their order).
  \<^item> Certificates. \<open>CertIssuers\<close> (none, self-signed), \<open>CertVault\<close>, \<open>CertAcme\<close> (HTTP-01 and DNS-01
    around one flow), \<open>ChallengeServer\<close> (the solver of HTTP-01), \<open>CertStores\<close> (the three caching
    stores), \<open>CertCaching\<close> (their common contract and round trips).
  \<^item> Sources. \<open>SourceHttp\<close> (handlers, calls of \<open>Start\<close> together, the pages of \<open>swagger.go\<close>),
    \<open>SourceMongo\<close> (mapper, trigger and listing).
  \<^item> Election. \<open>LeaseMongo\<close>: any number of instances on one lease document. \<open>Fleet\<close>: these electors
    together with the orchestrators they start, cancel and wait for.
  \<^item> Together. \<open>Convergence\<close>: a reconciliation cycle over the log and the Ingress provisioner. \<open>EventFlow\<close>: an event from MongoDB to the Ingress. \<open>HttpFlow\<close>: the
    events of the HTTP source in order, and from the API to the Ingress. \<open>Config\<close> and \<open>Wiring\<close>:
    from a configuration to the orchestrator. \<open>Boot\<close>: what a configuration asks for, component by
    component, and that this is what \<open>main\<close> builds. \<open>ProcessRun\<close>: that orchestrator running with its
    effects on the world (\<open>run_loop\<close>, \<open>orch_run\<close>, \<open>main_run\<close>), and the locale \<open>safe_services\<close> of what
    keeps the process up. \<open>ElectedRun\<close>: the same over the terms of leadership (\<open>orch_Run\<close>), beside other
    leaders and cycles left by earlier terms.

  \<^bold>\<open>What is shown.\<close> A cycle that returns nil leaves exactly the desired hosts, where route IDs do not
  collide and no Ingress without TLS is in the way, and one in sync only reads; the Ingress
  operations add, replace and remove exactly the rules they should, within the capacity of an
  Ingress, and terminate, and even calls that fail keep the Ingresses well formed, within the
  capacity, and the routes they do not name. Over a healthy cluster that it has to itself the
  process keeps this up through whatever events and failures of the other services come; beside
  other leaders the Ingresses stay well formed, but the capacity can be exceeded. Handlers and
  reconciliations exclude each other and events are handled in order; two instances never both lead
  on an unexpired lease, and of the orchestrators of both all but one wind down; every event of the
  HTTP source is accounted for, and its order kept while requests do not overlap; stores keep the
  contract of the issuer they wrap and return what they stored; a valid configuration boots the
  components it asks for. The properties whose text says that something fails, is lost or overlaps
  state defects of the code as it is.

  \<^bold>\<open>Bounds and choices.\<close> \<open>BatchProvision\<close> is a \<open>partial_function\<close> and returns for a positive
  capacity, the only case in which the loop of the code ends (\<open>batch_provision_returns\<close>); for a
  negative one it panics. Every other loop is structural. The buffer of the HTTP source is 64, as
  in the code, for any number of calls of \<open>Start\<close>. A Go map is an association list or a partial
  function; the order in which Go iterates is one of the orders of the list and no property
  depends on it. The clock of the Mongo elector counts milliseconds, the resolution of a stored
  datetime, and is shared by the instances.

  A run of the process is the sequence of what its \<open>select\<close> statements choose, of any length;
  its critical sections exclude each other, and without leader election nothing runs beside the
  initial reconciliation (\<open>initial_reconciliation_alone\<close>), so that a sequence is enough. What runs
  beside the terms of one instance (other leaders, its own leftover cycles) is given by the
  requests it sends to the API server, which come in any number between any two requests of
  the instance (\<open>shared_api\<close>).

  \<^bold>\<open>Not modelled.\<close> The text of \<open>openapi.json\<close>, which one handler serves; the effects of a
  cycle that overlaps the next term on anything but the cluster (the step relations of
  \<open>Orchestrator\<close> and \<open>Fleet\<close> have the overlap itself, \<open>IngressInterference\<close> its requests, \<open>IngressRaces\<close>
  what two writers do to an Ingress); in \<open>main\<close>, parsing the flag and the setting up of signals, which are the end of the
  context; imports, and the struct fields that hold a logger or a mutex; log
  calls everywhere, except where their arguments dereference a pointer; cancellation of a context inside
  a call of an outside service, which is one of the errors the service can return.
\<close>

end
